(* ===== verification/Andbg_Prelude.thy ===== *)
theory Andbg_Prelude
  imports Main "HOL-Library.Word" "HOL-Library.AList"
begin

unbundle bit_operations_syntax

text \<open>
  What every theory of the development shares: the machine integer types of the C++ code, the
  errors a C++ call can end with, the standard containers the code keeps its state in
  (\<open>std::unordered_map\<close>, \<open>std::unordered_set\<close>) and the byte layout of integers in
  memory.  The interface of a hash map is the locale \<open>unordered_map\<close>; the association lists
  used by the model interpret it at the end of its section.
\<close>

section \<open>Types\<close>

type_synonym u8 = "8 word"
type_synonym u16 = "16 word"
type_synonym u32 = "32 word"
type_synonym u64 = "64 word"
type_synonym u128 = "128 word"
type_synonym bytes = "u8 list"
type_synonym pid = int

text \<open>
  How a C++ call can fail to return: an exception of the standard library or of the JSON
  library, or a step the C++ standard gives no meaning to.  A \<open>catch\<close> of
  \<open>std::exception\<close> stops the exceptions only.
\<close>

datatype cxx_error =
    Invalid_argument
  | Out_of_range
  | Length_error
  | Bad_alloc
  | Json_parse_error
  | Json_type_error
  | Undefined_behaviour

definition is_std_exception :: "cxx_error \<Rightarrow> bool" where
  "is_std_exception e \<longleftrightarrow> e \<noteq> Undefined_behaviour"

named_theorems container_simps "lookup laws of the containers"
named_theorems byte_simps "lengths and round trips of the byte layout"

section \<open>Hash maps\<close>

text \<open>
  A hash map is kept as an association list with distinct keys.  Its order stands for the
  iteration order of the container, which the standard leaves open: no property of the
  development depends on it.
\<close>

type_synonym ('k, 'v) umap = "('k \<times> 'v) list"

definition um_empty :: "('k, 'v) umap" where
  "um_empty = []"

definition um_find :: "('k, 'v) umap \<Rightarrow> 'k \<Rightarrow> 'v option" where
  "um_find m k = map_of m k"

definition um_assign :: "'k \<Rightarrow> 'v \<Rightarrow> ('k, 'v) umap \<Rightarrow> ('k, 'v) umap" where
  "um_assign k v m = AList.update k v m"

definition um_emplace :: "'k \<Rightarrow> 'v \<Rightarrow> ('k, 'v) umap \<Rightarrow> ('k, 'v) umap" where
  "um_emplace k v m = (if um_find m k = None then um_assign k v m else m)"

definition um_erase :: "'k \<Rightarrow> ('k, 'v) umap \<Rightarrow> ('k, 'v) umap" where
  "um_erase k m = AList.delete k m"

definition um_values :: "('k, 'v) umap \<Rightarrow> 'v list" where
  "um_values m = map snd m"

definition um_wf :: "('k, 'v) umap \<Rightarrow> bool" where
  "um_wf m \<longleftrightarrow> distinct (map fst m)"

text \<open>
  \<open>m[k]\<close> in C++ inserts the value type's default where the key is missing: \<open>um_touch\<close>
  is the map after that, \<open>um_get\<close> the value read.
\<close>

definition um_get :: "'v \<Rightarrow> ('k, 'v) umap \<Rightarrow> 'k \<Rightarrow> 'v" where
  "um_get d m k = (case um_find m k of None \<Rightarrow> d | Some v \<Rightarrow> v)"

definition um_touch :: "'v \<Rightarrow> ('k, 'v) umap \<Rightarrow> 'k \<Rightarrow> ('k, 'v) umap" where
  "um_touch d m k = um_emplace k d m"

locale unordered_map =
  fixes empty :: "'m"
    and find :: "'m \<Rightarrow> 'k \<Rightarrow> 'v option"
    and assign :: "'k \<Rightarrow> 'v \<Rightarrow> 'm \<Rightarrow> 'm"
    and erase :: "'k \<Rightarrow> 'm \<Rightarrow> 'm"
    and vals :: "'m \<Rightarrow> 'v list"
    and wf :: "'m \<Rightarrow> bool"
  assumes law_empty: "wf empty" "find empty k = None"
    and law_assign: "find (assign k v m) = (find m)(k := Some v)"
    and law_erase: "find (erase k m) = (find m)(k := None)"
    and law_wf_assign: "wf m \<Longrightarrow> wf (assign k v m)"
    and law_wf_erase: "wf m \<Longrightarrow> wf (erase k m)"
    and law_vals: "wf m \<Longrightarrow> set (vals m) = ran (find m)"
begin

lemma find_assign_same: "find (assign k v m) k = Some v"
  by (simp add: law_assign)

lemma find_assign_other: "k' \<noteq> k \<Longrightarrow> find (assign k v m) k' = find m k'"
  by (simp add: law_assign)

lemma find_erase_same: "find (erase k m) k = None"
  by (simp add: law_erase)

lemma find_erase_other: "k' \<noteq> k \<Longrightarrow> find (erase k m) k' = find m k'"
  by (simp add: law_erase)

lemma erase_undoes_assign: "find m k = None \<Longrightarrow> find (erase k (assign k v m)) = find m"
  by (rule ext) (simp add: law_erase law_assign)

lemma val_iff: "wf m \<Longrightarrow> v \<in> set (vals m) \<longleftrightarrow> (\<exists>k. find m k = Some v)"
  by (simp add: law_vals ran_def)

lemma val_found: "wf m \<Longrightarrow> find m k = Some v \<Longrightarrow> v \<in> set (vals m)"
  by (auto simp: val_iff)

lemma vals_assign_fresh:
  "wf m \<Longrightarrow> find m k = None \<Longrightarrow> set (vals (assign k v m)) = insert v (set (vals m))"
  by (simp add: law_vals law_wf_assign law_assign)

end

interpretation hm: unordered_map um_empty um_find um_assign um_erase um_values um_wf
proof unfold_locales
  show "um_wf (um_empty :: ('k, 'v) umap)" "um_find (um_empty :: ('k, 'v) umap) k = None" for k
    by (simp_all add: um_wf_def um_empty_def um_find_def)
  show "um_find (um_assign k v m) = (um_find m)(k := Some v)"
    for k :: 'k and v :: 'v and m :: "('k, 'v) umap"
    by (rule ext) (simp add: um_find_def um_assign_def update_conv)
  show "um_find (um_erase k m) = (um_find m)(k := None)"
    for k :: 'k and m :: "('k, 'v) umap"
    by (rule ext) (simp add: um_find_def um_erase_def delete_conv)
  show "um_wf (um_assign k v m)" if "um_wf m"
    for k :: 'k and v :: 'v and m :: "('k, 'v) umap"
    using that by (simp add: um_wf_def um_assign_def distinct_update)
  show "um_wf (um_erase k m)" if "um_wf m" for k :: 'k and m :: "('k, 'v) umap"
    using that by (simp add: um_wf_def um_erase_def distinct_delete)
  show "set (um_values m) = ran (um_find m)" if "um_wf m" for m :: "('k, 'v) umap"
  proof -
    have "um_find m = map_of m" by (rule ext) (simp add: um_find_def)
    with that show ?thesis by (simp add: um_wf_def um_values_def ran_distinct)
  qed
qed

lemmas um_laws [simp, container_simps] =
  hm.law_empty hm.law_assign hm.law_erase hm.law_wf_assign hm.law_wf_erase

lemma um_find_emplace [simp, container_simps]:
  "um_find (um_emplace k v m) = (if um_find m k = None then (um_find m)(k := Some v) else um_find m)"
  by (simp add: um_emplace_def)

lemma um_wf_emplace [simp, container_simps]: "um_wf m \<Longrightarrow> um_wf (um_emplace k v m)"
  by (simp add: um_emplace_def)

lemma um_get_touch [simp, container_simps]: "um_get d (um_touch d m k) k' = um_get d m k'"
  by (auto simp: um_get_def um_touch_def)

lemma um_get_assign [simp, container_simps]:
  "um_get d (um_assign k v m) k' = (if k' = k then v else um_get d m k')"
  by (simp add: um_get_def)

lemma um_get_erase [simp, container_simps]:
  "um_get d (um_erase k m) k' = (if k' = k then d else um_get d m k')"
  by (simp add: um_get_def)

lemma um_get_empty [simp, container_simps]: "um_get d um_empty k = d"
  by (simp add: um_get_def)

lemma um_wf_touch [simp, container_simps]: "um_wf m \<Longrightarrow> um_wf (um_touch d m k)"
  by (simp add: um_touch_def)

section \<open>Hash sets\<close>

text \<open>A hash set is a list of distinct elements; its order again stands for the open iteration order.\<close>

type_synonym 'a uset = "'a list"

definition us_insert :: "'a \<Rightarrow> 'a uset \<Rightarrow> 'a uset" where
  "us_insert x s = (if x \<in> set s then s else s @ [x])"

definition us_erase :: "'a \<Rightarrow> 'a uset \<Rightarrow> 'a uset" where
  "us_erase x s = filter (\<lambda>y. y \<noteq> x) s"

lemma set_us_insert [simp, container_simps]: "set (us_insert x s) = insert x (set s)"
  by (auto simp: us_insert_def)

lemma set_us_erase [simp, container_simps]: "set (us_erase x s) = set s - {x}"
  by (auto simp: us_erase_def)

lemma distinct_us_insert [simp, container_simps]: "distinct s \<Longrightarrow> distinct (us_insert x s)"
  by (auto simp: us_insert_def)

lemma distinct_us_erase [simp, container_simps]: "distinct s \<Longrightarrow> distinct (us_erase x s)"
  by (simp add: us_erase_def)

section \<open>Integers in memory\<close>

lemma unat_bound: "unat (w :: 'a::len word) < 2 ^ LENGTH('a)"
  by (rule unsigned_less)

lemma unat_of_nat_small: "n < 2 ^ LENGTH('a) \<Longrightarrow> unat (of_nat n :: 'a::len word) = n"
  by (rule of_nat_inverse [OF refl])

text \<open>
  \<open>word_to_le n w\<close> is the \<open>n\<close> low bytes of \<open>w\<close>, least significant first;
  \<open>le_to_word\<close> reads such a list back.  \<open>host_bytes\<close> and \<open>host_word\<close> are the
  layout a \<open>memcpy\<close> sees on a host of the given byte order.
\<close>

definition word_to_le :: "nat \<Rightarrow> 'a::len word \<Rightarrow> bytes" where
  "word_to_le n w = map (\<lambda>i. ucast (drop_bit (8 * i) w)) [0..<n]"

primrec le_to_word :: "bytes \<Rightarrow> 'a::len word" where
  "le_to_word [] = 0"
| "le_to_word (b # bs) = ucast b OR push_bit 8 (le_to_word bs)"

definition host_bytes :: "bool \<Rightarrow> nat \<Rightarrow> 'a::len word \<Rightarrow> bytes" where
  "host_bytes le n w = (if le then word_to_le n w else rev (word_to_le n w))"

definition host_word :: "bool \<Rightarrow> bytes \<Rightarrow> 'a::len word" where
  "host_word le bs = le_to_word (if le then bs else rev bs)"

lemma length_word_to_le [simp, byte_simps]: "length (word_to_le n w) = n"
  by (simp add: word_to_le_def)

lemma length_host_bytes [simp, byte_simps]: "length (host_bytes le n w) = n"
  by (simp add: host_bytes_def)

lemma word_to_le_Suc:
  "word_to_le (Suc n) w = ucast w # word_to_le n (drop_bit 8 w)"
proof -
  have "word_to_le (Suc n) w = map (\<lambda>i. ucast (drop_bit (8 * i) w)) (0 # map Suc [0..<n])"
    by (simp add: word_to_le_def map_Suc_upt upt_conv_Cons del: upt_Suc)
  then show ?thesis
    by (simp add: word_to_le_def comp_def drop_bit_drop_bit add.commute)
qed

lemma bit_le_to_word:
  "bit (le_to_word bs :: 'a::len word) k \<longleftrightarrow>
     k < LENGTH('a) \<and> k div 8 < length bs \<and> bit (bs ! (k div 8)) (k mod 8)"
proof (induction bs arbitrary: k)
  case Nil
  then show ?case by simp
next
  case (Cons b bs)
  show ?case
  proof (cases "k < 8")
    case True
    then show ?thesis by (auto simp: bit_or_iff bit_push_bit_iff bit_ucast_iff)
  next
    case False
    then obtain m where k: "k = m + 8"
      by (metis le_add_diff_inverse2 not_less)
    have "\<not> bit b (m + 8)"
      using bit_imp_le_length [of b "m + 8"] by auto
    moreover have "(m + 8) div 8 = Suc (m div 8)"
      by simp
    ultimately show ?thesis
      using Cons.IH [of m]
      by (auto simp: k bit_or_iff bit_push_bit_iff bit_ucast_iff simp del: div_add_self2)
  qed
qed

lemma bit_word_to_le:
  "i < n \<Longrightarrow> bit (word_to_le n (w :: 'a::len word) ! i) j \<longleftrightarrow> j < 8 \<and> bit w (8 * i + j)"
  by (auto simp: word_to_le_def bit_ucast_iff bit_drop_bit_eq dest: bit_imp_le_length)

lemma le_to_word_to_le [simp, byte_simps]:
  "LENGTH('a) \<le> 8 * n \<Longrightarrow> le_to_word (word_to_le n (w :: 'a::len word)) = w"
  by (rule bit_word_eqI) (auto simp: bit_le_to_word bit_word_to_le less_mult_imp_div_less mult.commute)

lemma word_to_le_to_word [simp, byte_simps]:
  assumes "length bs = n" and "8 * n \<le> LENGTH('a)"
  shows "word_to_le n (le_to_word bs :: 'a::len word) = bs"
proof (rule nth_equalityI)
  show "length (word_to_le n (le_to_word bs :: 'a word)) = length bs"
    using assms(1) by simp
  fix i assume "i < length (word_to_le n (le_to_word bs :: 'a word))"
  then have i: "i < n" by simp
  show "word_to_le n (le_to_word bs :: 'a word) ! i = bs ! i"
  proof (rule bit_word_eqI)
    fix j assume "j < LENGTH(8)"
    then have "j < 8" by simp
    then show "bit (word_to_le n (le_to_word bs :: 'a word) ! i) j = bit (bs ! i) j"
      using assms i by (simp add: bit_word_to_le bit_le_to_word)
  qed
qed

lemma host_word_bytes [simp, byte_simps]:
  "LENGTH('a) \<le> 8 * n \<Longrightarrow> host_word le (host_bytes le n (w :: 'a::len word)) = w"
  by (simp add: host_word_def host_bytes_def)

lemma host_bytes_word [simp, byte_simps]:
  "length bs = n \<Longrightarrow> 8 * n \<le> LENGTH('a) \<Longrightarrow> host_bytes le n (host_word le bs :: 'a::len word) = bs"
  by (cases le) (simp_all add: host_word_def host_bytes_def)

lemma le_to_word_snoc:
  "le_to_word (bs @ [b]) = (le_to_word bs :: 'a::len word) OR push_bit (8 * length bs) (ucast b)"
proof (induction bs)
  case Nil
  then show ?case by simp
next
  case (Cons c bs)
  then show ?case
    by (simp add: push_bit_or or.assoc push_bit_push_bit)
qed

section \<open>Lists\<close>

text \<open>\<open>splice at data buf\<close> is \<open>buf\<close> after a \<open>memcpy\<close> of \<open>data\<close> to its offset \<open>at\<close>.\<close>

definition splice :: "nat \<Rightarrow> 'a list \<Rightarrow> 'a list \<Rightarrow> 'a list" where
  "splice at data buf = take at buf @ data @ drop (at + length data) buf"

lemma length_splice [simp]:
  "at + length data \<le> length buf \<Longrightarrow> length (splice at data buf) = length buf"
  by (simp add: splice_def)

lemma splice_all: "length data = length buf \<Longrightarrow> splice 0 data buf = data"
  by (simp add: splice_def)

lemma splice_splice:
  "at + length d1 + length d2 \<le> length buf \<Longrightarrow>
     splice (at + length d1) d2 (splice at d1 buf) = splice at (d1 @ d2) buf"
  by (simp add: splice_def ac_simps)

end
