(* ===== verification/Utils.thy ===== *)
theory Utils
  imports Andbg_Prelude "HOL-Library.Sublist"
begin

unbundle bit_operations_syntax

text \<open>
  \<open>src/utils.hpp\<close> and \<open>src/utils.cpp\<close> without the system call wrappers (those are in
  \<open>Os_Interface\<close>): address alignment, byte order, hexadecimal numbers and the string helpers.
  Templates over the unsigned types are definitions over words of any length.
\<close>

section \<open>Alignment\<close>

definition align_up :: "u64 \<Rightarrow> u64 \<Rightarrow> u64" where
  "align_up value alignment = (value + alignment - 1) AND NOT (alignment - 1)"

definition align_down :: "u64 \<Rightarrow> u64 \<Rightarrow> u64" where
  "align_down value alignment = value AND NOT (alignment - 1)"

text \<open>\<open>get_page_size\<close> falls back to 4096 where \<open>sysconf(_SC_PAGE_SIZE)\<close> is not positive.\<close>

definition get_page_size :: "int \<Rightarrow> int" where
  "get_page_size sysconf = (if sysconf \<le> 0 then 4096 else sysconf)"

definition align_page_up :: "int \<Rightarrow> u64 \<Rightarrow> u64" where
  "align_page_up sysconf value = align_up value (word_of_int (get_page_size sysconf))"

definition align_page_down :: "int \<Rightarrow> u64 \<Rightarrow> u64" where
  "align_page_down sysconf value = align_down value (word_of_int (get_page_size sysconf))"

lemma and_not_low_bits:
  "v AND NOT (2 ^ k - 1) = push_bit k (drop_bit k (v :: 'a::len word))"
  unfolding mask_eq_exp_minus_1 [symmetric]
  by (rule bit_word_eqI) (auto simp: bit_simps)

lemma unat_align_down:
  assumes "k < 64"
  shows "unat (align_down v (2 ^ k)) = unat v div 2 ^ k * 2 ^ k"
proof -
  have "unat (align_down v (2 ^ k)) = take_bit 64 (push_bit k (drop_bit k (unat v)))"
    unfolding align_down_def and_not_low_bits
    by (simp add: unsigned_push_bit_eq unat_drop_bit_eq)
  then have "unat (align_down v (2 ^ k)) = take_bit 64 (unat v div 2 ^ k * 2 ^ k)"
    by (simp only: push_bit_eq_mult drop_bit_eq_div)
  moreover have "unat v div 2 ^ k * 2 ^ k < 2 ^ 64"
    using unat_bound [of v] order_le_less_trans [OF div_times_less_eq_dividend] by simp
  ultimately show ?thesis
    by (simp add: take_bit_nat_eq_self)
qed

lemma align_up_via_down: "align_up v a = align_down (v + (a - 1)) a"
  by (simp add: align_up_def align_down_def algebra_simps)

lemma unat_align_up:
  assumes "k < 64"
  shows "unat (align_up v (2 ^ k)) = (unat v + (2 ^ k - 1)) mod 2 ^ 64 div 2 ^ k * 2 ^ k"
proof -
  have "unat (2 ^ k - 1 :: u64) = 2 ^ k - 1"
  proof -
    have "2 ^ k - 1 = (of_nat (2 ^ k - 1) :: u64)"
      by (simp add: of_nat_diff)
    moreover have "(2 :: nat) ^ k - 1 < 2 ^ 64"
      using power_strict_increasing [OF assms, of "2 :: nat"] by simp
    ultimately show ?thesis
      using unat_of_nat_small [of "2 ^ k - 1", where 'a = 64] by simp
  qed
  then have "unat (v + (2 ^ k - 1)) = (unat v + (2 ^ k - 1)) mod 2 ^ 64"
    by (simp add: unat_word_ariths)
  then show ?thesis
    using assms by (simp add: align_up_via_down unat_align_down)
qed

lemma div_mult_le_iff: "(x :: nat) \<le> y div d * d \<longleftrightarrow> x \<le> y" if "d dvd x" "0 < d"
proof -
  from that obtain q where "x = q * d" by (auto simp: dvd_def mult.commute)
  with that show ?thesis
    by (simp add: less_eq_div_iff_mult_less_eq)
qed

lemma ceil_mult_le_iff: "(x + (d - 1)) div d * d \<le> y \<longleftrightarrow> (x :: nat) \<le> y" if "d dvd y" "0 < d"
proof -
  from that obtain q where y: "y = q * d" by (auto simp: dvd_def mult.commute)
  have "(x + (d - 1)) div d * d \<le> q * d \<longleftrightarrow> (x + (d - 1)) div d < Suc q"
    using that by auto
  also have "\<dots> \<longleftrightarrow> x + (d - 1) < Suc q * d"
    by (rule div_less_iff_less_mult) (rule that)
  also have "\<dots> \<longleftrightarrow> x \<le> q * d"
    using that by (cases d) auto
  finally show ?thesis by (simp add: y)
qed

section \<open>Byte order\<close>

text \<open>
  The loop of both templates: \<open>n\<close> is the number of bytes still to move, \<open>big\<close> the
  accumulator.  On a host that is not little endian the value is returned as it is.
\<close>

primrec reverse_bytes_loop :: "nat \<Rightarrow> 'a::len word \<Rightarrow> 'a word \<Rightarrow> 'a word" where
  "reverse_bytes_loop 0 big host = big"
| "reverse_bytes_loop (Suc n) big host =
     reverse_bytes_loop n (push_bit 8 big OR (host AND 0xFF)) (drop_bit 8 host)"

definition to_big_endian :: "bool \<Rightarrow> 'a::len word \<Rightarrow> 'a word" where
  "to_big_endian is_little_endian host_val =
     (if \<not> is_little_endian then host_val
      else reverse_bytes_loop (LENGTH('a) div 8) 0 host_val)"

definition from_big_endian :: "bool \<Rightarrow> 'a::len word \<Rightarrow> 'a word" where
  "from_big_endian is_little_endian big_val =
     (if \<not> is_little_endian then big_val
      else reverse_bytes_loop (LENGTH('a) div 8) 0 big_val)"

lemma ucast_low_byte: "ucast (ucast (w :: 'a::len word) :: u8) = w AND 0xFF"
proof -
  have "w AND 0xFF = take_bit 8 w"
    by (simp add: take_bit_eq_mask mask_eq_exp_minus_1)
  then show ?thesis
    by (auto intro!: bit_word_eqI simp: bit_simps)
qed

lemma reverse_bytes_loop_eq:
  "reverse_bytes_loop n big host =
     push_bit (8 * n) big OR le_to_word (rev (word_to_le n host))"
proof (induction n arbitrary: big host)
  case 0
  then show ?case by (simp add: word_to_le_def)
next
  case (Suc n)
  show ?case
    by (simp add: Suc.IH word_to_le_Suc le_to_word_snoc ucast_low_byte push_bit_or
        push_bit_push_bit ac_simps)
qed

text \<open>
  The bytes in memory of the converted value are the bytes of the value, most significant
  first, on a host of either byte order.
\<close>

lemma host_bytes_to_big_endian:
  assumes "LENGTH('a) = 8 * n"
  shows "host_bytes le n (to_big_endian le (w :: 'a::len word)) = rev (word_to_le n w)"
  using assms
  by (cases le) (simp_all add: host_bytes_def to_big_endian_def reverse_bytes_loop_eq)

lemma from_big_endian_host_word:
  assumes "LENGTH('a) = 8 * n" and "length bs = n"
  shows "from_big_endian le (host_word le bs :: 'a::len word) = le_to_word (rev bs)"
  using assms
  by (cases le) (simp_all add: host_word_def from_big_endian_def reverse_bytes_loop_eq)

lemma from_to_big_endian:
  assumes "LENGTH('a) = 8 * n"
  shows "from_big_endian le (to_big_endian le (w :: 'a::len word)) = w"
proof -
  have "from_big_endian le (to_big_endian le w) =
      from_big_endian le (host_word le (host_bytes le n (to_big_endian le w)))"
    using assms by simp
  also have "\<dots> = w"
    using assms by (simp add: from_big_endian_host_word host_bytes_to_big_endian)
  finally show ?thesis .
qed

section \<open>Hexadecimal numbers\<close>

definition char_code :: "char \<Rightarrow> nat" where
  "char_code c = of_char c"

definition hex_digit :: "char \<Rightarrow> nat option" where
  "hex_digit c =
     (let n = char_code c in
      if char_code CHR ''0'' \<le> n \<and> n \<le> char_code CHR ''9'' then Some (n - char_code CHR ''0'')
      else if char_code CHR ''a'' \<le> n \<and> n \<le> char_code CHR ''f'' then Some (10 + n - char_code CHR ''a'')
      else if char_code CHR ''A'' \<le> n \<and> n \<le> char_code CHR ''F'' then Some (10 + n - char_code CHR ''A'')
      else None)"

primrec hex_parse_loop :: "'a::len word \<Rightarrow> string \<Rightarrow> 'a word option" where
  "hex_parse_loop result [] = Some result"
| "hex_parse_loop result (c # cs) =
     (case hex_digit c of
        None \<Rightarrow> None
      | Some digit \<Rightarrow> hex_parse_loop (push_bit 4 result + of_nat digit) cs)"

definition hex_start :: "string \<Rightarrow> nat" where
  "hex_start s = (if 2 \<le> length s \<and> (take 2 s = ''0x'' \<or> take 2 s = ''0X'') then 2 else 0)"

definition hex_str_to_num :: "string \<Rightarrow> 'a::len word option" where
  "hex_str_to_num hex_str =
     (if hex_start hex_str \<ge> length hex_str then None
      else hex_parse_loop 0 (drop (hex_start hex_str) hex_str))"

definition hex_digits :: string where
  "hex_digits = ''0123456789abcdef''"

lemma unat_drop_nibble_less: "0 < num \<Longrightarrow> unat (drop_bit 4 (num :: 'a::len word)) < unat num"
proof -
  assume "0 < num"
  then have "0 < unat num" by (simp add: unat_gt_0 word_greater_zero_iff)
  moreover have "unat (drop_bit 4 num) = unat num div 16"
    unfolding unat_drop_bit_eq by (simp add: drop_bit_eq_div)
  ultimately show ?thesis by simp
qed

function hex_print_loop :: "'a::len word \<Rightarrow> string" where
  "hex_print_loop num =
     (if num > 0 then hex_digits ! unat (num AND 0xF) # hex_print_loop (drop_bit 4 num) else [])"
  by pat_completeness auto
termination
  by (relation "measure unat") (auto intro: unat_drop_nibble_less)

declare hex_print_loop.simps [simp del]

definition num_to_hex_str :: "'a::len word \<Rightarrow> bool \<Rightarrow> string option" where
  "num_to_hex_str num with_prefix =
     (if num = 0 then Some (if with_prefix then ''0x0'' else ''0'')
      else (let hex_str = rev (hex_print_loop num) in
            Some (if with_prefix then ''0x'' @ hex_str else hex_str)))"

subsection \<open>The value of a digit string\<close>

text \<open>\<open>hex_value\<close> reads a digit string as a number with no bound, as its specification.\<close>

primrec hex_value :: "nat \<Rightarrow> string \<Rightarrow> nat option" where
  "hex_value acc [] = Some acc"
| "hex_value acc (c # cs) =
     (case hex_digit c of None \<Rightarrow> None | Some d \<Rightarrow> hex_value (16 * acc + d) cs)"

lemma hex_parse_loop_value:
  "hex_parse_loop (of_nat acc :: 'a::len word) cs = map_option of_nat (hex_value acc cs)"
proof (induction cs arbitrary: acc)
  case Nil
  then show ?case by simp
next
  case (Cons c cs)
  have "push_bit 4 (of_nat acc :: 'a word) + of_nat d = of_nat (16 * acc + d)" for d
    by (simp add: push_bit_eq_mult)
  then show ?case
    using Cons.IH by (cases "hex_digit c") (simp_all del: of_nat_add of_nat_mult)
qed

lemma hex_parse_loop_append:
  "hex_parse_loop r (xs @ ys) =
     (case hex_parse_loop r xs of None \<Rightarrow> None | Some r' \<Rightarrow> hex_parse_loop r' ys)"
  by (induction xs arbitrary: r) (auto split: option.splits)

lemma length_hex_digits [simp]: "length hex_digits = 16"
  by (simp add: hex_digits_def)

lemma hex_digit_digits: "k < 16 \<Longrightarrow> hex_digit (hex_digits ! k) = Some k"
proof -
  assume "k < 16"
  then have "k \<in> {0, 1, 2, 3, 4, 5, 6, 7, 8, 9, 10, 11, 12, 13, 14, 15}"
    by (simp; presburger)
  then show ?thesis
    by (elim insertE emptyE) (simp_all add: hex_digits_def hex_digit_def char_code_def)
qed

lemma low_nibble_eq: "(w :: 'a::len word) AND 0xF = take_bit 4 w"
  by (simp add: take_bit_eq_mask mask_eq_exp_minus_1)

lemma unat_low_nibble: "unat ((w :: 'a::len word) AND 0xF) < 16"
proof -
  have "unat (take_bit 4 w) = take_bit 4 (unat w)"
    by (simp add: unsigned_take_bit_eq)
  then show ?thesis
    unfolding low_nibble_eq using take_bit_nat_less_exp [of 4 "unat w"] by simp
qed

lemma hex_parse_print_loop:
  "hex_parse_loop 0 (rev (hex_print_loop num)) = Some (num :: 'a::len word)"
proof (induction num rule: hex_print_loop.induct)
  case (1 num)
  show ?case
  proof (cases "0 < num")
    case True
    have "push_bit 4 (drop_bit 4 num) + take_bit 4 num = num"
      by (rule bits_ident)
    then have "hex_parse_loop (drop_bit 4 num) [hex_digits ! unat (num AND 0xF)] = Some num"
      by (simp add: hex_digit_digits unat_low_nibble) (simp add: low_nibble_eq)
    with True "1.IH" show ?thesis
      by (subst hex_print_loop.simps) (simp add: hex_parse_loop_append)
  next
    case False
    then show ?thesis
      by (subst hex_print_loop.simps) (simp add: word_greater_zero_iff)
  qed
qed

lemma set_hex_print_loop: "set (hex_print_loop num) \<subseteq> set hex_digits"
proof (induction num rule: hex_print_loop.induct)
  case (1 num)
  have "hex_digits ! unat (num AND 0xF) \<in> set hex_digits"
    by (rule nth_mem) (simp only: length_hex_digits unat_low_nibble)
  with 1 show ?case
    by (subst hex_print_loop.simps) auto
qed

lemma hex_print_loop_nonempty: "num \<noteq> 0 \<Longrightarrow> hex_print_loop num \<noteq> []"
  by (subst hex_print_loop.simps) (simp add: word_greater_zero_iff)

lemma hex_start_digits: "set s \<subseteq> set hex_digits \<Longrightarrow> hex_start s = 0"
proof (rule ccontr)
  assume sub: "set s \<subseteq> set hex_digits" and "hex_start s \<noteq> 0"
  then have "s = take 2 s @ drop 2 s" "take 2 s = ''0x'' \<or> take 2 s = ''0X''"
    by (auto simp: hex_start_def split: if_splits)
  then have "CHR ''x'' \<in> set s \<or> CHR ''X'' \<in> set s"
    by (metis in_set_takeD list.set_intros(1) list.set_intros(2))
  with sub show False by (auto simp: hex_digits_def)
qed

section \<open>Strings\<close>

text \<open>\<open>std::isspace\<close> and \<open>std::tolower\<close> in the C locale.\<close>

definition is_space :: "char \<Rightarrow> bool" where
  "is_space c \<longleftrightarrow> char_code c = 32 \<or> (9 \<le> char_code c \<and> char_code c \<le> 13)"

definition tolower :: "char \<Rightarrow> char" where
  "tolower c = (if 65 \<le> char_code c \<and> char_code c \<le> 90 then char_of (char_code c + 32) else c)"

definition is_digit :: "char \<Rightarrow> bool" where
  "is_digit c \<longleftrightarrow> 48 \<le> char_code c \<and> char_code c \<le> 57"

definition to_lower :: "string \<Rightarrow> string" where
  "to_lower str = map tolower str"

text \<open>\<open>c_str\<close> is what a reader of a C string sees of a \<open>std::string\<close>: the text before the first NUL.\<close>

definition c_str :: "string \<Rightarrow> string" where
  "c_str s = takeWhile (\<lambda>c. char_code c \<noteq> 0) s"

text \<open>
  The search of \<open>std::search\<close> and \<open>std::string::find\<close>: the pattern is tried at every position
  of the text, with the comparison as a parameter.
\<close>

fun match_here :: "(char \<Rightarrow> char \<Rightarrow> bool) \<Rightarrow> string \<Rightarrow> string \<Rightarrow> bool" where
  "match_here eq src [] = True"
| "match_here eq [] (t # ts) = False"
| "match_here eq (s # ss) (t # ts) = (eq s t \<and> match_here eq ss ts)"

fun search_match :: "(char \<Rightarrow> char \<Rightarrow> bool) \<Rightarrow> string \<Rightarrow> string \<Rightarrow> bool" where
  "search_match eq [] target = match_here eq [] target"
| "search_match eq (s # ss) target =
     (match_here eq (s # ss) target \<or> search_match eq ss target)"

definition contains_string :: "string \<Rightarrow> string \<Rightarrow> bool \<Rightarrow> bool" where
  "contains_string src target is_sensitivity =
     (if target = [] then False
      else if \<not> is_sensitivity then search_match (\<lambda>a b. tolower a = tolower b) src target
      else search_match (=) src target)"

lemma match_here_map: "match_here (\<lambda>a b. f a = f b) src target \<longleftrightarrow> prefix (map f target) (map f src)"
  by (induction "\<lambda>a b. f a = f b" src target rule: match_here.induct) auto

lemma search_match_map:
  "search_match (\<lambda>a b. f a = f b) src target \<longleftrightarrow> sublist (map f target) (map f src)"
  by (induction src) (simp_all add: match_here_map sublist_Cons_right)

text \<open>\<open>split_by_space\<close>: each round of \<open>iss >> token\<close> skips white space, then reads up to the next.\<close>

function split_by_space :: "string \<Rightarrow> string list" where
  "split_by_space s =
     (let rest = dropWhile is_space s in
      if rest = [] then []
      else takeWhile (\<lambda>c. \<not> is_space c) rest # split_by_space (dropWhile (\<lambda>c. \<not> is_space c) rest))"
  by pat_completeness auto
termination
proof (relation "measure length")
  fix s rest :: string
  assume rest: "rest = dropWhile is_space s" "rest \<noteq> []"
  then have "\<not> is_space (hd rest)"
    using hd_dropWhile by blast
  then have "length (dropWhile (\<lambda>c. \<not> is_space c) rest) < length rest"
    using rest(2) by (cases rest) (simp_all add: length_dropWhile_le less_Suc_eq_le)
  also have "\<dots> \<le> length s"
    by (simp add: rest length_dropWhile_le)
  finally show "(dropWhile (\<lambda>c. \<not> is_space c) rest, s) \<in> measure length"
    by simp
qed simp

declare split_by_space.simps [simp del]

text \<open>\<open>trim\<close>: two index loops, from the front and from the back.\<close>

function trim_start :: "string \<Rightarrow> nat \<Rightarrow> nat" where
  "trim_start s start =
     (if start < length s \<and> is_space (s ! start) then trim_start s (start + 1) else start)"
  by pat_completeness auto
termination
  by (relation "measure (\<lambda>(s, start). length s - start)") auto

fun trim_end :: "string \<Rightarrow> nat \<Rightarrow> nat \<Rightarrow> nat" where
  "trim_end s start 0 = 0"
| "trim_end s start (Suc e) =
     (if Suc e > start \<and> is_space (s ! e) then trim_end s start e else Suc e)"

definition trim :: "string \<Rightarrow> string" where
  "trim s =
     (let start = trim_start s 0; e = trim_end s start (length s)
      in take (e - start) (drop start s))"

declare trim_start.simps [simp del]

subsection \<open>Facts about the string helpers\<close>

lemma trim_start_bounds:
  assumes "start \<le> length s"
  shows "start \<le> trim_start s start \<and> trim_start s start \<le> length s
     \<and> list_all is_space (take (trim_start s start - start) (drop start s))
     \<and> (trim_start s start < length s \<longrightarrow> \<not> is_space (s ! trim_start s start))"
  using assms
proof (induction s start rule: trim_start.induct)
  case (1 s start)
  show ?case
  proof (cases "start < length s \<and> is_space (s ! start)")
    case True
    let ?r = "trim_start s (start + 1)"
    from True "1.IH" have ih: "start + 1 \<le> ?r" "?r \<le> length s"
        "list_all is_space (take (?r - (start + 1)) (drop (start + 1) s))"
        "?r < length s \<longrightarrow> \<not> is_space (s ! ?r)"
      by auto
    have "take (?r - start) (drop start s) = s ! start # take (?r - (start + 1)) (drop (start + 1) s)"
    proof -
      have "?r - start = Suc (?r - (start + 1))" using ih(1) by simp
      with True show ?thesis by (simp flip: Cons_nth_drop_Suc)
    qed
    moreover have "trim_start s start = ?r"
      using True by (subst trim_start.simps) simp
    ultimately show ?thesis using ih True by simp
  next
    case False
    then have "trim_start s start = start" by (subst trim_start.simps) auto
    then show ?thesis using False "1.prems" by auto
  qed
qed

lemma trim_end_bounds:
  assumes "start \<le> e" and "e \<le> length s"
  shows "start \<le> trim_end s start e \<and> trim_end s start e \<le> e
     \<and> list_all is_space (drop (trim_end s start e) (take e s))
     \<and> (start < trim_end s start e \<longrightarrow> \<not> is_space (s ! (trim_end s start e - 1)))"
  using assms
proof (induction e)
  case 0
  then show ?case by simp
next
  case (Suc e)
  show ?case
  proof (cases "start < Suc e \<and> is_space (s ! e)")
    case True
    with Suc show ?thesis by (simp add: take_Suc_conv_app_nth)
  next
    case False
    with Suc.prems show ?thesis by auto
  qed
qed

lemma split_by_space_Nil [simp]: "split_by_space [] = []"
  by (subst split_by_space.simps) simp

lemma split_by_space_skip [simp]: "is_space c \<Longrightarrow> split_by_space (c # s) = split_by_space s"
  by (subst (1 2) split_by_space.simps) simp

lemma split_by_space_token:
  assumes "t \<noteq> []" and "\<forall>c \<in> set t. \<not> is_space c" and "rest = [] \<or> is_space (hd rest)"
  shows "split_by_space (t @ rest) = t # split_by_space rest"
proof -
  from assms(1,2) have "dropWhile is_space (t @ rest) = t @ rest"
    by (cases t) auto
  moreover from assms(3) have "takeWhile (\<lambda>c. \<not> is_space c) rest = []"
    "dropWhile (\<lambda>c. \<not> is_space c) rest = rest"
    by (cases rest; simp)+
  ultimately show ?thesis
    using assms(1,2) by (subst split_by_space.simps) (simp add: takeWhile_append2 dropWhile_append2)
qed

lemma split_by_space_at_space:
  assumes "is_space w"
  shows "split_by_space (a @ w # b) = split_by_space a @ split_by_space b"
proof (induction a rule: split_by_space.induct)
  case (1 a)
  let ?rest = "dropWhile is_space a"
  let ?t = "takeWhile (\<lambda>c. \<not> is_space c) ?rest" and ?u = "dropWhile (\<lambda>c. \<not> is_space c) ?rest"
  have skip: "split_by_space (a @ xs) = split_by_space (?rest @ xs)" for xs
    by (induction a) auto
  show ?case
  proof (cases "?rest = []")
    case True
    with assms skip [of "w # b"] skip [of "[]"] show ?thesis by simp
  next
    case False
    have "hd ?rest \<notin> Collect is_space" using hd_dropWhile [OF False] by simp
    then have t: "?t \<noteq> []" using False by (cases ?rest) auto
    have free: "\<forall>c \<in> set ?t. \<not> is_space c" by (auto dest: set_takeWhileD)
    have u: "?u @ xs = [] \<or> is_space (hd (?u @ xs))" if "xs = [] \<or> is_space (hd xs)" for xs
    proof (cases ?u)
      case Nil
      with that show ?thesis by (simp only: append_Nil)
    next
      case (Cons c cs)
      with hd_dropWhile [of "\<lambda>c. \<not> is_space c" ?rest] show ?thesis by simp
    qed
    have split_t: "split_by_space (?rest @ xs) = ?t # split_by_space (?u @ xs)"
      if "xs = [] \<or> is_space (hd xs)" for xs
      using split_by_space_token [OF t free u [OF that]] by (simp flip: append_assoc)
    have "split_by_space (a @ w # b) = ?t # split_by_space (?u @ w # b)"
      using assms skip [of "w # b"] split_t [of "w # b"] by simp
    also have "\<dots> = ?t # split_by_space ?u @ split_by_space b"
      using "1.IH" [OF refl False] by simp
    also have "\<dots> = split_by_space a @ split_by_space b"
      using skip [of "[]"] split_t [of "[]"] by simp
    finally show ?thesis .
  qed
qed

section \<open>Properties\<close>

text \<open>
  Printing a number and parsing it back gives the number, for every width, with and without
  the prefix.
\<close>

theorem hex_roundtrip:
  "\<exists>s. num_to_hex_str (num :: 'a::len word) with_prefix = Some s \<and> hex_str_to_num s = Some num"
proof (cases "num = 0")
  case True
  then show ?thesis
    by (simp add: num_to_hex_str_def hex_str_to_num_def hex_start_def hex_digit_def char_code_def)
next
  case False
  let ?h = "rev (hex_print_loop num)"
  have "set ?h \<subseteq> set hex_digits" using set_hex_print_loop by simp
  then have "hex_start ?h = 0" by (rule hex_start_digits)
  moreover have "hex_start (''0x'' @ ?h) = 2" by (simp add: hex_start_def)
  ultimately show ?thesis
    using False hex_parse_print_loop [of num] hex_print_loop_nonempty [OF False]
    by (simp add: num_to_hex_str_def hex_str_to_num_def Let_def)
qed

text \<open>
  parsing accepts exactly the non-empty digit strings after an optional prefix, and its result
  is the value of the digits modulo two to the width: a number that is too long is cut, not
  refused.
\<close>

theorem hex_str_to_num_value:
  "map_option unat (hex_str_to_num s :: 'a::len word option) =
     (if drop (hex_start s) s = [] then None
      else map_option (\<lambda>v. v mod 2 ^ LENGTH('a)) (hex_value 0 (drop (hex_start s) s)))"
proof -
  have "unat (of_nat v :: 'a word) = v mod 2 ^ LENGTH('a)" for v
    by (rule unat_of_nat)
  then show ?thesis
    using hex_parse_loop_value [of 0 "drop (hex_start s) s", where 'a = 'a]
    by (simp add: hex_str_to_num_def option.map_comp comp_def)
qed

text \<open>
  C40: for an alignment that is a power of two, \<open>align_down\<close> is the greatest multiple not above the
  value, and where rounding up stays below two to the 64, \<open>align_up\<close> is the least multiple not
  below it.
\<close>

theorem align_bounds:
  assumes "k < 64" and "unat v + 2 ^ k \<le> 2 ^ 64" and "2 ^ k dvd m"
  shows "2 ^ k dvd unat (align_down v (2 ^ k)) \<and> 2 ^ k dvd unat (align_up v (2 ^ k))
    \<and> (m \<le> unat (align_down v (2 ^ k)) \<longleftrightarrow> m \<le> unat v)
    \<and> (unat (align_up v (2 ^ k)) \<le> m \<longleftrightarrow> unat v \<le> m)"
proof -
  have pos: "0 < (2 :: nat) ^ k" by simp
  have "unat v + (2 ^ k - 1) < 2 ^ 64"
    using assms(2) pos by linarith
  then have up: "unat (align_up v (2 ^ k)) = (unat v + (2 ^ k - 1)) div 2 ^ k * 2 ^ k"
    by (simp only: unat_align_up [OF assms(1)] mod_less)
  have "m \<le> unat (align_down v (2 ^ k)) \<longleftrightarrow> m \<le> unat v"
    using assms(3) by (simp add: unat_align_down [OF assms(1)] div_mult_le_iff)
  moreover have "unat (align_up v (2 ^ k)) \<le> m \<longleftrightarrow> unat v \<le> m"
    unfolding up by (rule ceil_mult_le_iff [OF assms(3) pos])
  ultimately show ?thesis
    by (simp only: up unat_align_down [OF assms(1)]) simp
qed

theorem align_bounds_witness:
  "unat (align_down 5000 (2 ^ 12)) = 4096 \<and> unat (align_up 5000 (2 ^ 12)) = 8192
     \<and> (4096 \<le> unat (align_down 5000 (2 ^ 12)) \<longleftrightarrow> 4096 \<le> unat (5000 :: u64))"
  using align_bounds [of 12 5000 4096] by (simp add: align_down_def align_up_def)

text \<open>
  Converting to big endian and storing the value writes its bytes most significant first on a
  host of either byte order, and reading them back with \<open>from_big_endian\<close> gives the value.
\<close>

theorem big_endian_wire:
  "host_bytes le 8 (to_big_endian le (w :: u64)) = rev (word_to_le 8 w)
     \<and> from_big_endian le (host_word le (rev (word_to_le 8 w)) :: u64) = w
     \<and> from_big_endian le (to_big_endian le w) = w"
  using host_bytes_to_big_endian [of 8 le w] from_to_big_endian [of 8 le w]
    from_big_endian_host_word [of 8 "rev (word_to_le 8 w)" le, where 'a = 64]
  by simp

text \<open>
  \<open>trim\<close> takes off white space at both ends and nothing else, and leaves a text with no white
  space at its ends.
\<close>

theorem trim_spec:
  "\<exists>pre post. s = pre @ trim s @ post \<and> list_all is_space pre \<and> list_all is_space post
     \<and> (trim s = [] \<or> (\<not> is_space (hd (trim s)) \<and> \<not> is_space (last (trim s))))"
proof -
  define a where "a = trim_start s 0"
  define b where "b = trim_end s a (length s)"
  have a: "a \<le> length s" "list_all is_space (take a s)" "a < length s \<longrightarrow> \<not> is_space (s ! a)"
    using trim_start_bounds [of 0 s] by (auto simp: a_def)
  have b: "a \<le> b" "b \<le> length s" "list_all is_space (drop b s)"
      "a < b \<longrightarrow> \<not> is_space (s ! (b - 1))"
    using trim_end_bounds [of a "length s" s] a(1) by (auto simp: b_def)
  have t: "trim s = take (b - a) (drop a s)"
    by (simp add: trim_def Let_def a_def b_def)
  have "s = take a s @ trim s @ drop b s"
    using b(1,2) by (metis t append_take_drop_id drop_drop le_add_diff_inverse2)
  moreover have "\<not> is_space (hd (trim s)) \<and> \<not> is_space (last (trim s))" if "trim s \<noteq> []"
  proof -
    from that t b have "a < b" "a < length s" by auto
    with a b t show ?thesis by (simp add: hd_drop_conv_nth last_conv_nth)
  qed
  ultimately show ?thesis using a(2) b(3) by blast
qed

text \<open>Searching is substring search, up to case where asked.\<close>

lemma contains_string_spec:
  "contains_string src target True = (target \<noteq> [] \<and> sublist target src)
     \<and> contains_string src target False = (target \<noteq> [] \<and> sublist (to_lower target) (to_lower src))"
  using search_match_map [of id src target] search_match_map [of tolower src target]
  by (auto simp: contains_string_def to_lower_def)

text \<open>The tokens are the maximal runs without white space.\<close>

lemma split_by_space_spec:
  assumes "is_space w" and "t \<noteq> []" and "list_all (\<lambda>c. \<not> is_space c) t"
  shows "split_by_space (a @ w # b) = split_by_space a @ split_by_space b \<and> split_by_space t = [t]"
  using split_by_space_at_space [OF assms(1)] split_by_space_token [OF assms(2), of "[]"] assms(3)
  by (simp add: list_all_iff)

end
