(* ===== verification/Os_Interface.thy ===== *)
theory Os_Interface
  imports Utils
begin

unbundle bit_operations_syntax

text \<open>
  The operating system as the program sees it.  The system calls are the fields of a record
  \<open>'w os\<close> over an arbitrary world \<open>'w\<close> (kernel, tracees, file system); every definition that
  makes one takes the record and passes the world on.  What the manual pages promise of the
  calls is stated at the end as contracts over a view \<open>kstate\<close> of the world; the definitions do
  not use it.  The theory also has the two call wrappers of \<open>src/utils.cpp\<close>.
\<close>

section \<open>Register sets of the AArch64 ABI\<close>

record user_pt_regs =
  pt_regs :: "u64 list"
  pt_sp :: u64
  pt_pc :: u64
  pt_pstate :: u64

record user_fpsimd_state =
  fp_vregs :: "u128 list"
  fp_fpsr :: u32
  fp_fpcr :: u32

text \<open>The sixteen \<open>dbg_regs\<close> of \<open>user_hwdebug_state\<close> as pairs of \<open>addr\<close> and \<open>ctrl\<close>.\<close>

record user_hwdebug_state =
  dbg_info :: u32
  dbg_regs :: "(u64 \<times> u32) list"

datatype regset = Gpr_set user_pt_regs | Fpr_set user_fpsimd_state | Dbg_set user_hwdebug_state

datatype register_type = RT_GPR | RT_FPR | RT_DBG | RT_SVE | RT_PAC

section \<open>System calls\<close>

text \<open>
  A ptrace request with its address and data arguments.  \<open>PTRACE_POKEDATA a d\<close> stores the word
  \<open>d\<close> itself, as the call does with its last argument.
\<close>

datatype ptrace_request =
    PTRACE_ATTACH
  | PTRACE_DETACH
  | PTRACE_CONT
  | PTRACE_SYSCALL
  | PTRACE_SINGLESTEP
  | PTRACE_SETOPTIONS u64
  | PTRACE_GETEVENTMSG
  | PTRACE_PEEKDATA u64
  | PTRACE_POKEDATA u64 u64
  | PTRACE_GETREGSET register_type
  | PTRACE_SETREGSET register_type regset

record ptrace_reply =
  reply_ret :: u64
  reply_errno :: int
  reply_regset :: "regset option"
  reply_event :: pid

datatype signal = SIGSTOP | SIGCONT | SIGKILL

record dirent =
  d_name :: string
  d_is_dir :: bool

record 'w os =
  os_ptrace :: "ptrace_request \<Rightarrow> pid \<Rightarrow> 'w \<Rightarrow> ptrace_reply \<times> 'w"
  os_waitpid :: "pid \<Rightarrow> u32 \<Rightarrow> u32 \<Rightarrow> 'w \<Rightarrow> (pid \<times> u32) \<times> 'w"
  os_kill :: "pid \<Rightarrow> signal \<Rightarrow> 'w \<Rightarrow> int \<times> 'w"
  os_vm_readv :: "pid \<Rightarrow> u64 \<Rightarrow> nat \<Rightarrow> 'w \<Rightarrow> (int \<times> bytes) \<times> 'w"
  os_vm_writev :: "pid \<Rightarrow> u64 \<Rightarrow> bytes \<Rightarrow> 'w \<Rightarrow> int \<times> 'w"
  os_is_dir :: "string \<Rightarrow> 'w \<Rightarrow> bool \<times> 'w"
  os_opendir :: "string \<Rightarrow> 'w \<Rightarrow> dirent list option \<times> 'w"
  os_open_file :: "string \<Rightarrow> 'w \<Rightarrow> string option \<times> 'w"
  os_popen :: "string \<Rightarrow> 'w \<Rightarrow> string option \<times> 'w"
  os_system :: "string \<Rightarrow> 'w \<Rightarrow> int \<times> 'w"
  os_sleep :: "nat \<Rightarrow> 'w \<Rightarrow> 'w"
  os_clock :: "'w \<Rightarrow> int \<times> 'w"
  os_little_endian :: bool
  os_word_address :: u64
  os_hash_pick :: "int list \<Rightarrow> nat"

text \<open>
  \<open>os_waitpid pid options status w\<close> gives the status variable's new content; \<open>os_vm_readv\<close> gives
  the return value and the bytes put into the local buffer; \<open>os_word_address\<close> is where the local
  variable \<open>word\<close> of \<open>write_memory_ptrace\<close> lies in the debugger's own memory; \<open>os_hash_pick\<close> is
  the position \<open>begin()\<close> has in a hash set with the given hash codes.
\<close>

definition us_begin :: "'w os \<Rightarrow> ('a \<Rightarrow> int) \<Rightarrow> 'a uset \<Rightarrow> 'a" where
  "us_begin os code s = s ! (os_hash_pick os (map code s) mod length s)"

lemma us_begin_in: "s \<noteq> [] \<Longrightarrow> us_begin os code s \<in> set s"
  by (simp add: us_begin_def)

section \<open>The wrappers\<close>

text \<open>
  \<open>errno\<close> is cleared before the call, so a result of \<open>-1\<close> with \<open>errno\<close> still clear is a value (a
  peeked word of all ones) and not a failure.
\<close>

definition ptrace_wrapper ::
  "'w os \<Rightarrow> ptrace_request \<Rightarrow> pid \<Rightarrow> 'w \<Rightarrow> bool \<times> ptrace_reply \<times> 'w" where
  "ptrace_wrapper os request pid w =
     (let (reply, w') = os_ptrace os request pid w in
      (\<not> (reply_ret reply = -1 \<and> reply_errno reply \<noteq> 0), reply, w'))"

definition waitpid_wrapper :: "'w os \<Rightarrow> pid \<Rightarrow> u32 \<Rightarrow> u32 \<Rightarrow> 'w \<Rightarrow> pid \<times> u32 \<times> 'w" where
  "waitpid_wrapper os pid status options w =
     (let ((wpid, status'), w') = os_waitpid os pid options status w in (wpid, status', w'))"

definition WAIT_WALL :: u32 where "WAIT_WALL = 0x40000000"
definition WAIT_WNOHANG :: u32 where "WAIT_WNOHANG = 1"

text \<open>The status macros of \<open>sys/wait.h\<close>.\<close>

definition WIFSTOPPED :: "u32 \<Rightarrow> bool" where
  "WIFSTOPPED status \<longleftrightarrow> status AND 0xFF = 0x7F"

definition WSTOPSIG :: "u32 \<Rightarrow> u32" where
  "WSTOPSIG status = drop_bit 8 status AND 0xFF"

definition WIFEXITED :: "u32 \<Rightarrow> bool" where
  "WIFEXITED status \<longleftrightarrow> status AND 0x7F = 0"

definition WIFSIGNALED :: "u32 \<Rightarrow> bool" where
  "WIFSIGNALED status \<longleftrightarrow> status AND 0x7F \<noteq> 0 \<and> status AND 0x7F \<noteq> 0x7F"

section \<open>Memory as a function of the address\<close>

type_synonym memory = "u64 \<Rightarrow> u8"

definition mem_read :: "memory \<Rightarrow> u64 \<Rightarrow> nat \<Rightarrow> bytes" where
  "mem_read m a n = map (\<lambda>i. m (a + of_nat i)) [0..<n]"

definition mem_write :: "memory \<Rightarrow> u64 \<Rightarrow> bytes \<Rightarrow> memory" where
  "mem_write m a bs = (\<lambda>x. if unat (x - a) < length bs then bs ! unat (x - a) else m x)"

lemma length_mem_read [simp, byte_simps]: "length (mem_read m a n) = n"
  by (simp add: mem_read_def)

lemma mem_read_0 [simp]: "mem_read m a 0 = []"
  by (simp add: mem_read_def)

lemma mem_read_add: "mem_read m a (n + k) = mem_read m a n @ mem_read m (a + of_nat n) k"
proof -
  have "[0..<n + k] = [0..<n] @ map (\<lambda>i. i + n) [0..<k]"
    using upt_add_eq_append [of 0 n k] by (simp add: map_add_upt) (simp add: add.commute)
  moreover have "a + of_nat (i + n) = a + of_nat n + of_nat i" for i
    by (simp add: ac_simps)
  ultimately show ?thesis by (simp only: mem_read_def map_append map_map comp_def)
qed

lemma mem_write_read_same:
  assumes "length bs < 2 ^ 64"
  shows "mem_read (mem_write m a bs) a (length bs) = bs"
  using assms by (intro nth_equalityI) (simp_all add: mem_read_def mem_write_def unat_of_nat_small)

lemma mem_write_outside: "length bs \<le> unat (x - a) \<Longrightarrow> mem_write m a bs x = m x"
  by (simp add: mem_write_def)

lemma mem_write_write: "length bs = length bs' \<Longrightarrow> mem_write (mem_write m a bs) a bs' = mem_write m a bs'"
  by (rule ext) (simp add: mem_write_def)

lemma mem_write_same [simp]: "mem_write m a (mem_read m a n) = m"
proof (rule ext)
  fix x
  have "a + of_nat (unat (x - a)) = x" by simp
  then show "mem_write m a (mem_read m a n) x = m x"
    by (simp add: mem_write_def mem_read_def del: of_nat_unat word_of_nat_eq_iff)
qed

lemma mem_write_restore: "length bs = n \<Longrightarrow> mem_write (mem_write m a bs) a (mem_read m a n) = m"
  by (simp add: mem_write_write)

text \<open>Two instructions at different addresses that are multiples of four do not overlap.\<close>

definition insn_aligned :: "u64 \<Rightarrow> bool" where
  "insn_aligned a \<longleftrightarrow> a AND 3 = 0"

lemma aligned_unat: "insn_aligned a \<longleftrightarrow> unat a mod 4 = 0"
proof -
  have "a AND 3 = take_bit 2 a"
    by (simp add: take_bit_eq_mask mask_eq_exp_minus_1)
  moreover have "unat (take_bit 2 a) = unat a mod 4"
    unfolding unsigned_take_bit_eq by (simp add: take_bit_eq_mod)
  ultimately show ?thesis
    unfolding insn_aligned_def by (metis unat_0 unsigned_eq_0_iff)
qed

lemma aligned_disjoint:
  assumes "insn_aligned a" and "insn_aligned b" and "unat (x - a) < 4" and "unat (x - b) < 4"
  shows "a = b"
proof -
  have x: "unat x = unat c + unat (x - c)" if "insn_aligned c" "unat (x - c) < 4" for c
  proof -
    have "unat c + unat (x - c) < 2 ^ 64"
    proof -
      from that(1) obtain q where q: "unat c = 4 * q" by (auto simp: aligned_unat)
      moreover have "unat c < 2 ^ 64" using unat_bound [of c] by simp
      ultimately have "4 * q < 4 * 2 ^ 62" by simp
      then have "q + 1 \<le> 2 ^ 62" by simp
      then show ?thesis using q that(2) by simp
    qed
    then have "unat (c + (x - c)) = unat c + unat (x - c)"
      by (simp only: unat_word_ariths) simp
    then show ?thesis by simp
  qed
  define p q r t where "p = unat a" "q = unat b" "r = unat (x - a)" "t = unat (x - b)"
  have "p + r = q + t" "p mod 4 = 0" "q mod 4 = 0" "r < 4" "t < 4"
    using x [OF assms(1,3)] x [OF assms(2,4)] assms by (simp_all add: p_q_r_t_def aligned_unat)
  then have "p = q" by presburger
  then show ?thesis by (simp only: p_q_r_t_def unsigned_word_eqI)
qed

end
