(* ===== verification/Kernel_Contract.thy ===== *)
theory Kernel_Contract
  imports Os_Interface
begin

unbundle bit_operations_syntax

text \<open>
  What the manual pages of process\_vm\_readv(2), process\_vm\_writev(2) and ptrace(2) promise,
  stated over a view of the world: the address spaces, their protections, which threads are
  stopped under the debugger and their register sets.  A contract relates the system calls of an
  \<open>os\<close> to a view; the code never looks at the view.  The last section is a small kernel that keeps
  exactly this state, which meets every contract and is what the witnesses run on.
\<close>

section \<open>The view\<close>

record kstate =
  k_space :: "pid \<Rightarrow> nat option"
  k_mem :: "nat \<Rightarrow> memory"
  k_mapped :: "nat \<Rightarrow> u64 \<Rightarrow> bool"
  k_readable :: "nat \<Rightarrow> u64 \<Rightarrow> bool"
  k_writable :: "nat \<Rightarrow> u64 \<Rightarrow> bool"
  k_stopped :: "pid \<Rightarrow> bool"
  k_gpr :: "pid \<Rightarrow> user_pt_regs"
  k_fpr :: "pid \<Rightarrow> user_fpsimd_state"
  k_dbg :: "pid \<Rightarrow> user_hwdebug_state"
  k_dbg_slots :: nat

text \<open>
  \<open>k_space st p\<close> is the address space the debugger may use through \<open>p\<close>, if any: the threads of a
  process share one.  \<open>k_dbg_slots\<close> is the number of debug register pairs of the processor.
\<close>

definition on_range :: "(u64 \<Rightarrow> bool) \<Rightarrow> u64 \<Rightarrow> nat \<Rightarrow> bool" where
  "on_range P a n \<longleftrightarrow> list_all (\<lambda>i. P (a + of_nat i)) [0..<n]"

definition put_mem :: "nat \<Rightarrow> u64 \<Rightarrow> bytes \<Rightarrow> kstate \<Rightarrow> kstate" where
  "put_mem s a bs st = st\<lparr>k_mem := (k_mem st)(s := mem_write (k_mem st s) a bs)\<rparr>"

definition put_dbg :: "pid \<Rightarrow> user_hwdebug_state \<Rightarrow> kstate \<Rightarrow> kstate" where
  "put_dbg p d st = st\<lparr>k_dbg := (k_dbg st)(p := (k_dbg st p)
     \<lparr>dbg_regs := take (k_dbg_slots st) (dbg_regs d) @ drop (k_dbg_slots st) (dbg_regs (k_dbg st p))\<rparr>)\<rparr>"

lemma put_mem_simps [simp]:
  "k_space (put_mem s a bs st) = k_space st" "k_mapped (put_mem s a bs st) = k_mapped st"
  "k_readable (put_mem s a bs st) = k_readable st" "k_writable (put_mem s a bs st) = k_writable st"
  "k_stopped (put_mem s a bs st) = k_stopped st" "k_gpr (put_mem s a bs st) = k_gpr st"
  "k_fpr (put_mem s a bs st) = k_fpr st" "k_dbg (put_mem s a bs st) = k_dbg st"
  "k_dbg_slots (put_mem s a bs st) = k_dbg_slots st"
  "k_mem (put_mem s a bs st) = (k_mem st)(s := mem_write (k_mem st s) a bs)"
  by (simp_all add: put_mem_def)

lemma put_dbg_simps [simp]:
  "k_space (put_dbg p d st) = k_space st" "k_mem (put_dbg p d st) = k_mem st"
  "k_mapped (put_dbg p d st) = k_mapped st" "k_readable (put_dbg p d st) = k_readable st"
  "k_writable (put_dbg p d st) = k_writable st" "k_stopped (put_dbg p d st) = k_stopped st"
  "k_gpr (put_dbg p d st) = k_gpr st" "k_fpr (put_dbg p d st) = k_fpr st"
  "k_dbg_slots (put_dbg p d st) = k_dbg_slots st"
  by (simp_all add: put_dbg_def)

section \<open>Contracts\<close>

definition reply_ok :: "ptrace_reply \<Rightarrow> bool" where
  "reply_ok r \<longleftrightarrow> \<not> (reply_ret r = -1 \<and> reply_errno r \<noteq> 0)"

definition vm_readv_contract :: "'w os \<Rightarrow> ('w \<Rightarrow> kstate) \<Rightarrow> bool" where
  "vm_readv_contract os view \<longleftrightarrow> (\<forall>p a n w ret data w'.
     os_vm_readv os p a n w = ((ret, data), w') \<longrightarrow>
       view w' = view w \<and> length data \<le> n
     \<and> (0 < n \<and> ret = int n \<longrightarrow> (\<exists>s. k_space (view w) p = Some s \<and> data = mem_read (k_mem (view w) s) a n))
     \<and> (\<forall>s. k_space (view w) p = Some s \<and> on_range (k_readable (view w) s) a n \<longrightarrow> ret = int n))"

definition vm_writev_contract :: "'w os \<Rightarrow> ('w \<Rightarrow> kstate) \<Rightarrow> bool" where
  "vm_writev_contract os view \<longleftrightarrow> (\<forall>p a bs w ret w'.
     os_vm_writev os p a bs w = (ret, w') \<longrightarrow>
       (bs \<noteq> [] \<and> ret = int (length bs) \<longrightarrow>
          (\<exists>s. k_space (view w) p = Some s \<and> view w' = put_mem s a bs (view w)))
     \<and> (\<forall>s. k_space (view w) p = Some s \<and> on_range (k_writable (view w) s) a (length bs) \<longrightarrow>
          ret = int (length bs))
     \<and> (\<forall>s. k_space (view w) p = Some s \<and> \<not> k_writable (view w) s a \<and> bs \<noteq> [] \<longrightarrow>
          ret = -1 \<and> view w' = view w))"

definition peekdata_contract :: "'w os \<Rightarrow> ('w \<Rightarrow> kstate) \<Rightarrow> bool" where
  "peekdata_contract os view \<longleftrightarrow> (\<forall>p a w r w'.
     os_ptrace os (PTRACE_PEEKDATA a) p w = (r, w') \<longrightarrow>
       view w' = view w
     \<and> (reply_ok r \<longrightarrow> (\<exists>s. k_space (view w) p = Some s
          \<and> reply_ret r = host_word (os_little_endian os) (mem_read (k_mem (view w) s) a 8)))
     \<and> (\<forall>s. k_space (view w) p = Some s \<and> k_stopped (view w) p \<and> on_range (k_mapped (view w) s) a 8 \<longrightarrow>
          reply_ok r))"

definition pokedata_contract :: "'w os \<Rightarrow> ('w \<Rightarrow> kstate) \<Rightarrow> bool" where
  "pokedata_contract os view \<longleftrightarrow> (\<forall>p a d w r w'.
     os_ptrace os (PTRACE_POKEDATA a d) p w = (r, w') \<longrightarrow>
       (reply_ok r \<longrightarrow> (\<exists>s. k_space (view w) p = Some s
          \<and> view w' = put_mem s a (host_bytes (os_little_endian os) 8 d) (view w)))
     \<and> (\<forall>s. k_space (view w) p = Some s \<and> k_stopped (view w) p \<and> on_range (k_mapped (view w) s) a 8 \<longrightarrow>
          reply_ok r))"

definition memory_contract :: "'w os \<Rightarrow> ('w \<Rightarrow> kstate) \<Rightarrow> bool" where
  "memory_contract os view \<longleftrightarrow>
     vm_readv_contract os view \<and> vm_writev_contract os view
     \<and> peekdata_contract os view \<and> pokedata_contract os view"

definition regset_of :: "kstate \<Rightarrow> register_type \<Rightarrow> pid \<Rightarrow> regset option" where
  "regset_of st t p = (case t of
       RT_GPR \<Rightarrow> Some (Gpr_set (k_gpr st p))
     | RT_FPR \<Rightarrow> Some (Fpr_set (k_fpr st p))
     | RT_DBG \<Rightarrow> Some (Dbg_set (k_dbg st p))
     | _ \<Rightarrow> None)"

definition put_regset :: "pid \<Rightarrow> regset \<Rightarrow> kstate \<Rightarrow> kstate" where
  "put_regset p v st = (case v of
       Gpr_set g \<Rightarrow> st\<lparr>k_gpr := (k_gpr st)(p := g)\<rparr>
     | Fpr_set f \<Rightarrow> st\<lparr>k_fpr := (k_fpr st)(p := f)\<rparr>
     | Dbg_set d \<Rightarrow> put_dbg p d st)"

fun regset_type :: "regset \<Rightarrow> register_type" where
  "regset_type (Gpr_set _) = RT_GPR"
| "regset_type (Fpr_set _) = RT_FPR"
| "regset_type (Dbg_set _) = RT_DBG"

fun regset_wf :: "regset \<Rightarrow> bool" where
  "regset_wf (Gpr_set g) = (length (pt_regs g) = 31)"
| "regset_wf (Fpr_set f) = (length (fp_vregs f) = 32)"
| "regset_wf (Dbg_set d) = (length (dbg_regs d) = 16)"

definition kstate_wf :: "kstate \<Rightarrow> bool" where
  "kstate_wf st \<longleftrightarrow> k_dbg_slots st \<le> 16
     \<and> (\<forall>p. regset_wf (Gpr_set (k_gpr st p)) \<and> regset_wf (Fpr_set (k_fpr st p))
          \<and> regset_wf (Dbg_set (k_dbg st p)))"

text \<open>What a change of registers leaves alone, whether it succeeds or not.\<close>

definition regs_frame :: "kstate \<Rightarrow> kstate \<Rightarrow> bool" where
  "regs_frame st st' \<longleftrightarrow> k_space st' = k_space st \<and> k_mem st' = k_mem st \<and> k_mapped st' = k_mapped st
     \<and> k_readable st' = k_readable st \<and> k_writable st' = k_writable st \<and> k_stopped st' = k_stopped st
     \<and> k_dbg_slots st' = k_dbg_slots st \<and> (kstate_wf st \<longrightarrow> kstate_wf st')"

definition regset_contract :: "'w os \<Rightarrow> ('w \<Rightarrow> kstate) \<Rightarrow> bool" where
  "regset_contract os view \<longleftrightarrow>
       (\<forall>t p w r w'. os_ptrace os (PTRACE_GETREGSET t) p w = (r, w') \<longrightarrow>
          view w' = view w
        \<and> (reply_ok r \<longrightarrow> reply_regset r = regset_of (view w) t p)
        \<and> (k_stopped (view w) p \<and> regset_of (view w) t p \<noteq> None \<longrightarrow> reply_ok r))
     \<and> (\<forall>v p w r w'. os_ptrace os (PTRACE_SETREGSET (regset_type v) v) p w = (r, w') \<and> regset_wf v \<longrightarrow>
          regs_frame (view w) (view w')
        \<and> (reply_ok r \<longrightarrow> view w' = put_regset p v (view w))
        \<and> (k_stopped (view w) p \<longrightarrow> reply_ok r))"

lemma kstate_wf_put_mem [simp]: "kstate_wf (put_mem s a bs st) = kstate_wf st"
  by (simp add: kstate_wf_def)

lemma kstate_wf_put_dbg [simp]:
  "kstate_wf st \<Longrightarrow> length (dbg_regs d) = 16 \<Longrightarrow> kstate_wf (put_dbg p d st)"
  by (auto simp: kstate_wf_def put_dbg_def)

lemma kstate_wf_put_regset: "kstate_wf st \<Longrightarrow> regset_wf v \<Longrightarrow> kstate_wf (put_regset p v st)"
  by (cases v) (auto simp: put_regset_def kstate_wf_def put_dbg_def)

lemma regs_frame_refl [simp]: "regs_frame st st"
  by (simp add: regs_frame_def)

lemma regs_frame_trans: "regs_frame a b \<Longrightarrow> regs_frame b c \<Longrightarrow> regs_frame a c"
  by (simp add: regs_frame_def)

lemma regs_frame_put_regset: "regset_wf v \<Longrightarrow> regs_frame st (put_regset p v st)"
  using kstate_wf_put_regset [of st v p]
  by (cases v) (auto simp: regs_frame_def put_regset_def)

text \<open>The uses the proofs make of the contracts, as rules on the results of a call.\<close>

lemma readv_sound:
  assumes "vm_readv_contract os view" and "os_vm_readv os p a n w = ((ret, data), w')"
  shows "view w' = view w" and "length data \<le> n"
    and "0 < n \<Longrightarrow> ret = int n \<Longrightarrow>
           \<exists>s. k_space (view w) p = Some s \<and> data = mem_read (k_mem (view w) s) a n"
    and "k_space (view w) p = Some s \<Longrightarrow> on_range (k_readable (view w) s) a n \<Longrightarrow> ret = int n"
  using assms unfolding vm_readv_contract_def by blast+

lemma writev_sound:
  assumes "vm_writev_contract os view" and "os_vm_writev os p a bs w = (ret, w')"
  shows "bs \<noteq> [] \<Longrightarrow> ret = int (length bs) \<Longrightarrow>
           \<exists>s. k_space (view w) p = Some s \<and> view w' = put_mem s a bs (view w)"
    and "k_space (view w) p = Some s \<Longrightarrow> on_range (k_writable (view w) s) a (length bs) \<Longrightarrow>
           ret = int (length bs)"
    and "k_space (view w) p = Some s \<Longrightarrow> \<not> k_writable (view w) s a \<Longrightarrow> bs \<noteq> [] \<Longrightarrow>
           ret = -1 \<and> view w' = view w"
  using assms unfolding vm_writev_contract_def by blast+

lemma peek_sound:
  assumes "peekdata_contract os view" and "os_ptrace os (PTRACE_PEEKDATA a) p w = (r, w')"
  shows "view w' = view w"
    and "reply_ok r \<Longrightarrow> \<exists>s. k_space (view w) p = Some s
           \<and> reply_ret r = host_word (os_little_endian os) (mem_read (k_mem (view w) s) a 8)"
    and "k_space (view w) p = Some s \<Longrightarrow> k_stopped (view w) p \<Longrightarrow>
           on_range (k_mapped (view w) s) a 8 \<Longrightarrow> reply_ok r"
  using assms unfolding peekdata_contract_def by blast+

lemma poke_sound:
  assumes "pokedata_contract os view" and "os_ptrace os (PTRACE_POKEDATA a d) p w = (r, w')"
  shows "reply_ok r \<Longrightarrow> \<exists>s. k_space (view w) p = Some s
           \<and> view w' = put_mem s a (host_bytes (os_little_endian os) 8 d) (view w)"
    and "k_space (view w) p = Some s \<Longrightarrow> k_stopped (view w) p \<Longrightarrow>
           on_range (k_mapped (view w) s) a 8 \<Longrightarrow> reply_ok r"
  using assms unfolding pokedata_contract_def by blast+

section \<open>A kernel that meets the contracts\<close>

definition reply_word :: "u64 \<Rightarrow> ptrace_reply" where
  "reply_word d = \<lparr>reply_ret = d, reply_errno = 0, reply_regset = None, reply_event = 0\<rparr>"

definition reply_error :: ptrace_reply where
  "reply_error = \<lparr>reply_ret = -1, reply_errno = 3, reply_regset = None, reply_event = 0\<rparr>"

lemma reply_word_simps [simp]:
  "reply_ret (reply_word d) = d" "reply_regset (reply_word d) = None"
  by (simp_all add: reply_word_def)

lemma reply_ok_simps [simp]: "reply_ok (reply_word d)" "\<not> reply_ok reply_error"
  by (simp_all add: reply_ok_def reply_word_def reply_error_def)

fun sim_ptrace :: "ptrace_request \<Rightarrow> pid \<Rightarrow> kstate \<Rightarrow> ptrace_reply \<times> kstate" where
  "sim_ptrace (PTRACE_PEEKDATA a) p st =
     (case k_space st p of
        None \<Rightarrow> (reply_error, st)
      | Some s \<Rightarrow> if k_stopped st p \<and> on_range (k_mapped st s) a 8
          then (reply_word (host_word True (mem_read (k_mem st s) a 8)), st) else (reply_error, st))"
| "sim_ptrace (PTRACE_POKEDATA a d) p st =
     (case k_space st p of
        None \<Rightarrow> (reply_error, st)
      | Some s \<Rightarrow> if k_stopped st p \<and> on_range (k_mapped st s) a 8
          then (reply_word 0, put_mem s a (host_bytes True 8 d) st) else (reply_error, st))"
| "sim_ptrace (PTRACE_GETREGSET t) p st =
     (if k_stopped st p \<and> regset_of st t p \<noteq> None
      then ((reply_word 0)\<lparr>reply_regset := regset_of st t p\<rparr>, st) else (reply_error, st))"
| "sim_ptrace (PTRACE_SETREGSET t v) p st =
     (if k_stopped st p \<and> regset_wf v \<and> t = regset_type v
      then (reply_word 0, put_regset p v st) else (reply_error, st))"
| "sim_ptrace PTRACE_ATTACH p st =
     (if k_space st p \<noteq> None then (reply_word 0, st\<lparr>k_stopped := (k_stopped st)(p := True)\<rparr>)
      else (reply_error, st))"
| "sim_ptrace PTRACE_DETACH p st =
     (if k_stopped st p then (reply_word 0, st\<lparr>k_stopped := (k_stopped st)(p := False)\<rparr>)
      else (reply_error, st))"
| "sim_ptrace _ p st = (if k_stopped st p then (reply_word 0, st) else (reply_error, st))"

definition sim_vm_readv :: "pid \<Rightarrow> u64 \<Rightarrow> nat \<Rightarrow> kstate \<Rightarrow> (int \<times> bytes) \<times> kstate" where
  "sim_vm_readv p a n st = (case k_space st p of
       None \<Rightarrow> ((-1, []), st)
     | Some s \<Rightarrow> if on_range (k_readable st s) a n
         then ((int n, mem_read (k_mem st s) a n), st) else ((-1, []), st))"

definition sim_vm_writev :: "pid \<Rightarrow> u64 \<Rightarrow> bytes \<Rightarrow> kstate \<Rightarrow> int \<times> kstate" where
  "sim_vm_writev p a bs st = (case k_space st p of
       None \<Rightarrow> (-1, st)
     | Some s \<Rightarrow> if on_range (k_writable st s) a (length bs)
         then (int (length bs), put_mem s a bs st) else (-1, st))"

text \<open>A wait finds the thread stopped by a trap; there are no files and no other processes.\<close>

definition sim_os :: "kstate os" where
  "sim_os = \<lparr>os_ptrace = sim_ptrace,
     os_waitpid = (\<lambda>p status options st. if k_space st p \<noteq> None
        then ((p, 0x057F), st\<lparr>k_stopped := (k_stopped st)(p := True)\<rparr>) else ((-1, status), st)),
     os_kill = (\<lambda>p sig st. (if k_space st p \<noteq> None then 0 else -1, st)),
     os_vm_readv = sim_vm_readv, os_vm_writev = sim_vm_writev,
     os_is_dir = (\<lambda>_ st. (False, st)), os_opendir = (\<lambda>_ st. (None, st)),
     os_open_file = (\<lambda>_ st. (None, st)), os_popen = (\<lambda>_ st. (None, st)),
     os_system = (\<lambda>_ st. (0, st)), os_sleep = (\<lambda>_ st. st), os_clock = (\<lambda>st. (0, st)),
     os_little_endian = True, os_word_address = 0x7FC0001000, os_hash_pick = (\<lambda>_. 0)\<rparr>"

lemma sim_os_simps [simp]:
  "os_ptrace sim_os = sim_ptrace" "os_vm_readv sim_os = sim_vm_readv"
  "os_vm_writev sim_os = sim_vm_writev" "os_little_endian sim_os"
  "os_word_address sim_os = 0x7FC0001000" "us_begin sim_os code s = s ! 0"
  by (simp_all add: sim_os_def us_begin_def)

lemma on_range_first: "on_range P a n \<Longrightarrow> 0 < n \<Longrightarrow> P a"
  by (cases n) (simp_all add: on_range_def upt_conv_Cons del: upt_Suc)

lemma sim_vm_contracts: "vm_readv_contract sim_os id" "vm_writev_contract sim_os id"
  by (auto simp: vm_readv_contract_def vm_writev_contract_def sim_vm_readv_def sim_vm_writev_def
      dest: on_range_first split: option.splits if_splits)

lemma sim_memory_contract: "memory_contract sim_os id"
  by (simp add: memory_contract_def sim_vm_contracts)
    (auto simp: peekdata_contract_def pokedata_contract_def split: option.splits if_splits)

lemma sim_regset_contract: "regset_contract sim_os id"
  by (auto simp: regset_contract_def reply_ok_def reply_word_def reply_error_def regs_frame_put_regset
      split: if_splits)

text \<open>
  The state the witnesses start from: one process, its threads 100 and 101 stopped, four debug
  register pairs, code that can be read but not written at \<open>0x1000\<close> and data that can be written
  from \<open>0x8000\<close> on.
\<close>

definition zero_gpr :: user_pt_regs where
  "zero_gpr = \<lparr>pt_regs = replicate 31 0, pt_sp = 0x8F00, pt_pc = 0x8000, pt_pstate = 0\<rparr>"

definition zero_fpr :: user_fpsimd_state where
  "zero_fpr = \<lparr>fp_vregs = replicate 32 0, fp_fpsr = 0, fp_fpcr = 0\<rparr>"

definition zero_dbg :: user_hwdebug_state where
  "zero_dbg = \<lparr>dbg_info = 0, dbg_regs = replicate 16 (0, 0)\<rparr>"

definition demo_kernel :: kstate where
  "demo_kernel = \<lparr>k_space = (\<lambda>p. if p = 100 \<or> p = 101 then Some 0 else None),
     k_mem = (\<lambda>_ _. 0x1F), k_mapped = (\<lambda>_ a. 0x1000 \<le> a), k_readable = (\<lambda>_ a. 0x1000 \<le> a),
     k_writable = (\<lambda>_ a. 0x8000 \<le> a), k_stopped = (\<lambda>p. p = 100 \<or> p = 101),
     k_gpr = (\<lambda>_. zero_gpr), k_fpr = (\<lambda>_. zero_fpr), k_dbg = (\<lambda>_. zero_dbg), k_dbg_slots = 4\<rparr>"

lemma demo_kernel_wf: "kstate_wf demo_kernel"
  by (simp add: kstate_wf_def demo_kernel_def zero_gpr_def zero_fpr_def zero_dbg_def)

end
