(* ===== verification/File_System.thy ===== *)
theory File_System
  imports Os_Interface
begin

text \<open>
  \<open>Base::File\<close> of \<open>src/file.hpp\<close> and \<open>src/file.cpp\<close>, a file or a directory opened by its path,
  and the number readers of the standard library that the parsers of \<open>/proc\<close> use.
  An \<open>ifstream\<close> is its text, its position and the bits \<open>eofbit\<close> and \<open>failbit\<close>: a stream with either bit
  set reads nothing, and with the fail bit set it ignores \<open>seekg\<close>.  The entries of a directory are
  what the \<open>dirent\<close> pointers show when they are read, after the last \<open>readdir\<close>.
\<close>

section \<open>Streams\<close>

record ifstream =
  is_text :: string
  is_pos :: nat
  is_eof :: bool
  is_failed :: bool

definition stream_good :: "ifstream \<Rightarrow> bool" where
  "stream_good f \<longleftrightarrow> \<not> is_eof f \<and> \<not> is_failed f"

text \<open>\<open>tellg\<close> fails at the end of the file; \<open>seekg\<close> clears \<open>eofbit\<close>, and never \<open>failbit\<close>.\<close>

definition tellg :: "ifstream \<Rightarrow> int \<times> ifstream" where
  "tellg f = (if stream_good f then (int (is_pos f), f) else (-1, f\<lparr>is_failed := True\<rparr>))"

definition seekg :: "int \<Rightarrow> ifstream \<Rightarrow> ifstream" where
  "seekg p f = (if is_failed f then f\<lparr>is_eof := False\<rparr> else f\<lparr>is_eof := False, is_pos := nat p\<rparr>)"

text \<open>\<open>getline\<close> on the text that is left: the line, and what follows its end.\<close>

definition newline :: char where
  "newline = CHR 0x0A"

function split_lines :: "string \<Rightarrow> string list" where
  "split_lines [] = []"
| "split_lines (c # cs) =
     takeWhile (\<lambda>x. x \<noteq> newline) (c # cs) #
     split_lines (drop 1 (dropWhile (\<lambda>x. x \<noteq> newline) (c # cs)))"
  by pat_completeness auto
termination
  by (relation "measure length") (auto simp: less_Suc_eq_le le_diff_conv le_SucI length_dropWhile_le)

declare split_lines.simps(2) [simp del]

text \<open>The loops \<open>while (stream.get(ch))\<close> and \<open>while (std::getline(stream, line))\<close> run until the read fails.\<close>

definition drain_chars :: "ifstream \<Rightarrow> string \<times> ifstream" where
  "drain_chars f =
     (if \<not> stream_good f then ([], f\<lparr>is_failed := True\<rparr>)
      else (drop (is_pos f) (is_text f), f\<lparr>is_pos := length (is_text f), is_eof := True, is_failed := True\<rparr>))"

definition drain_lines :: "ifstream \<Rightarrow> string list \<times> ifstream" where
  "drain_lines f =
     (if \<not> stream_good f then ([], f\<lparr>is_failed := True\<rparr>)
      else (split_lines (drop (is_pos f) (is_text f)),
            f\<lparr>is_pos := length (is_text f), is_eof := True, is_failed := True\<rparr>))"

section \<open>Files\<close>

record base_file =
  bf_path :: string
  bf_is_directory :: bool
  bf_stream :: "ifstream option"
  bf_dir :: "dirent list option"

definition check_directory_type :: "'w os \<Rightarrow> string \<Rightarrow> 'w \<Rightarrow> bool \<times> 'w" where
  "check_directory_type os path w = os_is_dir os path w"

definition open_path :: "'w os \<Rightarrow> string \<Rightarrow> bool \<Rightarrow> base_file \<Rightarrow> 'w \<Rightarrow> base_file \<times> 'w" where
  "open_path os path is_directory f w =
     (if is_directory then
        (case os_opendir os path w of
           (None, w') \<Rightarrow> (f, w')
         | (Some es, w') \<Rightarrow> (f\<lparr>bf_dir := Some es\<rparr>, w'))
      else
        (case os_open_file os path w of
           (None, w') \<Rightarrow> (f, w')
         | (Some txt, w') \<Rightarrow>
             (f\<lparr>bf_stream := Some \<lparr>is_text = txt, is_pos = 0, is_eof = False, is_failed = False\<rparr>\<rparr>, w')))"

definition file_open_as :: "'w os \<Rightarrow> string \<Rightarrow> bool \<Rightarrow> 'w \<Rightarrow> base_file \<times> 'w" where
  "file_open_as os path is_directory w =
     open_path os path is_directory
       \<lparr>bf_path = path, bf_is_directory = is_directory, bf_stream = None, bf_dir = None\<rparr> w"

definition file_open :: "'w os \<Rightarrow> string \<Rightarrow> 'w \<Rightarrow> base_file \<times> 'w" where
  "file_open os path w =
     (let (is_directory, w1) = check_directory_type os path w in file_open_as os path is_directory w1)"

definition is_open :: "base_file \<Rightarrow> bool" where
  "is_open f \<longleftrightarrow> (if bf_is_directory f then bf_dir f \<noteq> None else bf_stream f \<noteq> None)"

definition list_entries :: "base_file \<Rightarrow> dirent list" where
  "list_entries f =
     (case bf_dir f of
        Some es \<Rightarrow> if bf_is_directory f
          then filter (\<lambda>e. \<not> (d_name e = ''.'' \<or> d_name e = ''..'')) es else []
      | None \<Rightarrow> [])"

definition read_all :: "base_file \<Rightarrow> string \<times> base_file" where
  "read_all f =
     (case bf_stream f of
        Some st \<Rightarrow> if bf_is_directory f then ([], f)
          else (let (original_pos, st1) = tellg st; (content, st2) = drain_chars (seekg 0 st1)
                in (content, f\<lparr>bf_stream := Some (seekg original_pos st2)\<rparr>))
      | None \<Rightarrow> ([], f))"

definition read_lines :: "base_file \<Rightarrow> string list \<times> base_file" where
  "read_lines f =
     (case bf_stream f of
        Some st \<Rightarrow> if bf_is_directory f then ([], f)
          else (let (original_pos, st1) = tellg st; (ls, st2) = drain_lines (seekg 0 st1)
                in (ls, f\<lparr>bf_stream := Some (seekg original_pos st2)\<rparr>))
      | None \<Rightarrow> ([], f))"

text \<open>One \<open>getline\<close>: the line, \<open>None\<close> where nothing is left, with the stream's state after it.\<close>

definition getline :: "ifstream \<Rightarrow> string option \<times> ifstream" where
  "getline st =
     (let rest = drop (is_pos st) (is_text st); line = takeWhile (\<lambda>c. c \<noteq> newline) rest in
      if \<not> stream_good st then (None, st\<lparr>is_failed := True\<rparr>)
      else if rest = [] then (None, st\<lparr>is_eof := True, is_failed := True\<rparr>)
      else if line = rest then (Some line, st\<lparr>is_pos := length (is_text st), is_eof := True\<rparr>)
      else (Some line, st\<lparr>is_pos := is_pos st + length line + 1\<rparr>))"

definition read_line :: "base_file \<Rightarrow> string \<times> base_file" where
  "read_line f =
     (case bf_stream f of
        Some st \<Rightarrow> if bf_is_directory f then ([], f)
          else (case getline st of (line, st1) \<Rightarrow>
            (case line of Some l \<Rightarrow> l | None \<Rightarrow> [], f\<lparr>bf_stream := Some st1\<rparr>))
      | None \<Rightarrow> ([], f))"

section \<open>Numbers of the standard library\<close>

text \<open>
  \<open>std::stoull\<close> and \<open>std::stoi\<close>: white space, a sign, in base sixteen an optional \<open>0x\<close>, then as
  many digits as there are; what follows is not read.  No digit is \<open>invalid_argument\<close>, a value that
  does not fit is \<open>out_of_range\<close>.
\<close>

definition digit_in :: "nat \<Rightarrow> char \<Rightarrow> bool" where
  "digit_in base c = (case hex_digit c of None \<Rightarrow> False | Some d \<Rightarrow> d < base)"

definition digits_value :: "nat \<Rightarrow> string \<Rightarrow> nat" where
  "digits_value base ds = foldl (\<lambda>acc c. base * acc + the (hex_digit c)) 0 ds"

definition after_prefix :: "nat \<Rightarrow> string \<Rightarrow> string" where
  "after_prefix base s =
     (if base = 16 \<and> (take 2 s = ''0x'' \<or> take 2 s = ''0X'') \<and> 2 < length s \<and> digit_in 16 (s ! 2)
      then drop 2 s else s)"

definition parse_integer :: "nat \<Rightarrow> string \<Rightarrow> (bool \<times> nat) option" where
  "parse_integer base s =
     (let s1 = dropWhile is_space s;
          neg = (s1 \<noteq> [] \<and> hd s1 = CHR ''-'');
          s2 = (if s1 \<noteq> [] \<and> (hd s1 = CHR ''-'' \<or> hd s1 = CHR ''+'') then tl s1 else s1);
          ds = takeWhile (digit_in base) (after_prefix base s2)
      in if ds = [] then None else Some (neg, digits_value base ds))"

definition stoull :: "nat \<Rightarrow> string \<Rightarrow> cxx_error + u64" where
  "stoull base s =
     (case parse_integer base s of
        None \<Rightarrow> Inl Invalid_argument
      | Some (neg, v) \<Rightarrow>
          if 2 ^ 64 \<le> v then Inl Out_of_range
          else Inr (if neg then - of_nat v else of_nat v))"

definition stoi :: "string \<Rightarrow> cxx_error + int" where
  "stoi s =
     (case parse_integer 10 s of
        None \<Rightarrow> Inl Invalid_argument
      | Some (neg, v) \<Rightarrow>
          (let i = (if neg then - int v else int v) in
           if i < - (2 ^ 31) \<or> 2 ^ 31 \<le> i then Inl Out_of_range else Inr i))"

text \<open>How \<open>fmt\<close> prints an integer, and the paths made with it.\<close>

fun show_nat :: "nat \<Rightarrow> string" where
  "show_nat n = (if n < 10 then [hex_digits ! n] else show_nat (n div 10) @ [hex_digits ! (n mod 10)])"

declare show_nat.simps [simp del]

definition show_int :: "int \<Rightarrow> string" where
  "show_int i = (if i < 0 then CHR ''-'' # show_nat (nat (- i)) else show_nat (nat i))"

definition proc_path :: "pid \<Rightarrow> string \<Rightarrow> string" where
  "proc_path pid name = ''/proc/'' @ show_int pid @ ''/'' @ name"

section \<open>Facts\<close>

lemma split_lines_no_newline:
  "list_all (\<lambda>l. newline \<notin> set l) (split_lines s)"
  by (induction s rule: split_lines.induct) (auto simp: split_lines.simps(2) dest: set_takeWhileD)

lemma split_lines_line:
  "newline \<notin> set l \<Longrightarrow> split_lines (l @ newline # rest) = l # split_lines rest"
proof -
  assume l: "newline \<notin> set l"
  then have tw: "takeWhile (\<lambda>x. x \<noteq> newline) (l @ newline # rest) = l"
    "dropWhile (\<lambda>x. x \<noteq> newline) (l @ newline # rest) = newline # rest"
    by (auto simp: takeWhile_tail dropWhile_append3)
  obtain c cs where cs: "l @ newline # rest = c # cs" by (cases "l @ newline # rest") auto
  then show ?thesis using tw by (simp add: split_lines.simps(2))
qed

lemmas stream_defs = tellg_def seekg_def stream_good_def drain_chars_def drain_lines_def read_all_def read_lines_def

lemma read_lines_fresh:
  "bf_stream f = Some st \<Longrightarrow> stream_good st \<Longrightarrow> \<not> bf_is_directory f \<Longrightarrow>
     fst (read_lines f) = split_lines (is_text st)"
  by (simp add: stream_defs)

lemma digits_value_snoc: "digits_value base (ds @ [c]) = base * digits_value base ds + the (hex_digit c)"
  by (simp add: digits_value_def)

lemma digits_value_show_nat: "digits_value 10 (show_nat n) = n"
proof (induction n rule: show_nat.induct)
  case (1 n)
  then show ?case
    by (subst show_nat.simps) (auto simp: digits_value_snoc hex_digit_digits digits_value_def)
qed

lemma digits_show_nat: "list_all (digit_in 10) (show_nat n) \<and> show_nat n \<noteq> []"
proof (induction n rule: show_nat.induct)
  case (1 n)
  have "k < 10 \<Longrightarrow> digit_in 10 (hex_digits ! k)" for k
    by (simp add: digit_in_def hex_digit_digits)
  with 1 show ?case
    by (subst (1 2) show_nat.simps) auto
qed

lemma unat_split_nibble: "unat (w :: 'a::len word) = 16 * unat (drop_bit 4 w) + unat (w AND 0xF)"
proof -
  have "unat (drop_bit 4 w) = unat w div 16"
    unfolding unat_drop_bit_eq by (simp add: drop_bit_eq_div)
  moreover have "unat (w AND 0xF) = unat w mod 16"
    unfolding low_nibble_eq unsigned_take_bit_eq by (simp add: take_bit_eq_mod)
  ultimately show ?thesis by simp
qed

lemma digits_value_hex_print: "digits_value 16 (rev (hex_print_loop w)) = unat (w :: 'a::len word)"
proof (induction w rule: hex_print_loop.induct)
  case (1 w)
  show ?case
  proof (cases "0 < w")
    case True
    with 1 have "digits_value 16 (rev (hex_print_loop w)) = 16 * unat (drop_bit 4 w) + unat (w AND 0xF)"
      by (subst hex_print_loop.simps) (simp add: digits_value_snoc hex_digit_digits unat_low_nibble)
    then show ?thesis using unat_split_nibble [of w] by simp
  next
    case False
    then show ?thesis
      by (subst hex_print_loop.simps) (simp add: digits_value_def word_greater_zero_iff)
  qed
qed

lemma hex_char_facts:
  "c \<in> set hex_digits \<Longrightarrow> digit_in 16 c \<and> \<not> is_space c \<and> c \<noteq> CHR ''-'' \<and> c \<noteq> CHR ''+''"
  by (auto simp: hex_digits_def digit_in_def hex_digit_def is_space_def char_code_def)

lemma digit_10_hex: "digit_in 10 c \<Longrightarrow> \<not> is_space c \<and> c \<noteq> CHR ''-'' \<and> c \<noteq> CHR ''+''"
  by (auto simp: digit_in_def hex_digit_def is_space_def char_code_def Let_def split: if_splits)

lemma parse_integer_plain:
  assumes "ds \<noteq> []" and "list_all (digit_in base) ds"
    and "list_all (\<lambda>c. \<not> is_space c \<and> c \<noteq> CHR ''-'' \<and> c \<noteq> CHR ''+'') ds" and "after_prefix base ds = ds"
  shows "parse_integer base ds = Some (False, digits_value base ds)"
proof -
  from assms(1,3) have "dropWhile is_space ds = ds" "hd ds \<noteq> CHR ''-''" "hd ds \<noteq> CHR ''+''"
    by (cases ds; simp)+
  moreover have "takeWhile (digit_in base) ds = ds"
    using assms(2) by (simp add: list_all_iff)
  ultimately show ?thesis
    using assms(1,4) by (simp add: parse_integer_def Let_def del: takeWhile_eq_all_conv)
qed

lemma stoull_show_nat:
  assumes "n < 2 ^ 64"
  shows "stoull 10 (show_nat n) = Inr (of_nat n)"
proof -
  have "parse_integer 10 (show_nat n) = Some (False, digits_value 10 (show_nat n))"
    using digits_show_nat [of n] digit_10_hex
    by (intro parse_integer_plain) (auto simp: list_all_iff after_prefix_def)
  with assms show ?thesis by (simp add: stoull_def digits_value_show_nat)
qed

lemma stoull_hex_print:
  assumes "w \<noteq> 0"
  shows "stoull 16 (rev (hex_print_loop (w :: u64))) = Inr w"
proof -
  let ?h = "rev (hex_print_loop w)"
  have sub: "set ?h \<subseteq> set hex_digits" using set_hex_print_loop by simp
  have "after_prefix 16 ?h = ?h"
    using hex_start_digits [OF sub] by (auto simp: after_prefix_def hex_start_def split: if_splits)
  then have "parse_integer 16 ?h = Some (False, digits_value 16 ?h)"
    using sub hex_char_facts hex_print_loop_nonempty [OF assms]
    by (intro parse_integer_plain) (auto simp: list_all_iff subset_iff)
  then show ?thesis
    using unat_bound [of w] by (simp add: stoull_def digits_value_hex_print)
qed

end
