(* ===== verification/Memory_Control.thy ===== *)
theory Memory_Control
  imports Kernel_Contract File_System "HOL-Library.Multiset"
begin

unbundle bit_operations_syntax

text \<open>
  \<open>Core::MemoryControl\<close> of \<open>src/memory_control.hpp\<close> and \<open>src/memory_control.cpp\<close>: reading and
  writing the memory of a tracee, by \<open>process_vm_readv\<close> and \<open>process_vm_writev\<close> with ptrace as the
  fall-back, and the parser of \<open>/proc/pid/maps\<close>.  What the breakpoint manager relies on is the
  locale \<open>tracee_memory\<close>, interpreted on these definitions under the kernel's contract.
\<close>

section \<open>Reading and writing\<close>

text \<open>
  A buffer is the list of its bytes, its length the \<open>size\<close> argument.  \<open>bytes_read\<close> is the loop
  variable; a word is copied to the buffer in the byte order of the host, cut at the end.
\<close>

function read_memory_ptrace_loop ::
  "'w os \<Rightarrow> pid \<Rightarrow> u64 \<Rightarrow> nat \<Rightarrow> nat \<Rightarrow> bytes \<Rightarrow> 'w \<Rightarrow> bool \<times> bytes \<times> 'w" where
  "read_memory_ptrace_loop os pid address n bytes_read buffer w =
     (if bytes_read < n then
        (case ptrace_wrapper os (PTRACE_PEEKDATA (address + of_nat bytes_read)) pid w of
           (ok, reply, w1) \<Rightarrow>
             if \<not> ok then (False, buffer, w1)
             else
               (let copy_size = min 8 (n - bytes_read);
                    word_bytes = host_bytes (os_little_endian os) 8 (reply_ret reply)
                in read_memory_ptrace_loop os pid address n (bytes_read + copy_size)
                     (splice bytes_read (take copy_size word_bytes) buffer) w1))
      else (True, buffer, w))"
  by pat_completeness auto
termination
  by (relation "measure (\<lambda>(os, pid, address, n, bytes_read, buffer, w). n - bytes_read)") auto

declare read_memory_ptrace_loop.simps [simp del]

definition read_memory_ptrace ::
  "'w os \<Rightarrow> pid \<Rightarrow> u64 \<Rightarrow> bytes \<Rightarrow> 'w \<Rightarrow> bool \<times> bytes \<times> 'w" where
  "read_memory_ptrace os pid address buffer w =
     read_memory_ptrace_loop os pid address (length buffer) 0 buffer w"

text \<open>
  The call that stores the word passes \<open>reinterpret_cast<void*>(&word)\<close>, the address of the local
  variable, where the system call takes the value.  The word assembled from the buffer is computed
  as the code does, and not used.
\<close>

function write_memory_ptrace_loop ::
  "'w os \<Rightarrow> pid \<Rightarrow> u64 \<Rightarrow> bytes \<Rightarrow> nat \<Rightarrow> 'w \<Rightarrow> bool \<times> 'w" where
  "write_memory_ptrace_loop os pid address buffer bytes_written w =
     (if bytes_written < length buffer then
        (let remain_size = length buffer - bytes_written;
             (ok, word, w1) =
               (if remain_size < 8 then
                  (case ptrace_wrapper os (PTRACE_PEEKDATA (address + of_nat bytes_written)) pid w of
                     (ok, reply, w1) \<Rightarrow> (ok, reply_ret reply, w1))
                else (True, 0, w))
         in if \<not> ok then (False, w1)
            else
              (let copy_size = min 8 remain_size;
                   word = (host_word (os_little_endian os)
                     (splice 0 (take copy_size (drop bytes_written buffer))
                       (host_bytes (os_little_endian os) 8 word)) :: u64)
               in case ptrace_wrapper os
                    (PTRACE_POKEDATA (address + of_nat bytes_written) (os_word_address os)) pid w1 of
                    (ok2, _, w2) \<Rightarrow>
                      if \<not> ok2 then (False, w2)
                      else write_memory_ptrace_loop os pid address buffer (bytes_written + copy_size) w2))
      else (True, w))"
  by pat_completeness auto
termination
  by (relation "measure (\<lambda>(os, pid, address, buffer, bytes_written, w). length buffer - bytes_written)") auto

declare write_memory_ptrace_loop.simps [simp del]

definition write_memory_ptrace :: "'w os \<Rightarrow> pid \<Rightarrow> u64 \<Rightarrow> bytes \<Rightarrow> 'w \<Rightarrow> bool \<times> 'w" where
  "write_memory_ptrace os pid address buffer w =
     write_memory_ptrace_loop os pid address buffer 0 w"

definition read_memory :: "'w os \<Rightarrow> pid \<Rightarrow> u64 \<Rightarrow> bytes \<Rightarrow> 'w \<Rightarrow> bool \<times> bytes \<times> 'w" where
  "read_memory os pid address buffer w =
     (let ((ret, data), w1) = os_vm_readv os pid address (length buffer) w;
          buffer1 = splice 0 data buffer
      in if ret = int (length buffer) then (True, buffer1, w1)
         else read_memory_ptrace os pid address buffer1 w1)"

definition write_memory :: "'w os \<Rightarrow> pid \<Rightarrow> u64 \<Rightarrow> bytes \<Rightarrow> 'w \<Rightarrow> bool \<times> 'w" where
  "write_memory os pid address buffer w =
     (let (ret, w1) = os_vm_writev os pid address buffer w
      in if ret = int (length buffer) then (True, w1)
         else write_memory_ptrace os pid address buffer w1)"

section \<open>Facts about the loops\<close>

lemma ptrace_wrapper_iff:
  "ptrace_wrapper os req pid w = (ok, reply, w') \<longleftrightarrow>
     os_ptrace os req pid w = (reply, w') \<and> ok = reply_ok reply"
  by (auto simp: ptrace_wrapper_def reply_ok_def split: prod.splits)

lemma take_mem_read: "k \<le> n \<Longrightarrow> take k (mem_read m a n) = mem_read m a k"
  using mem_read_add [of m a k "n - k"] by simp

lemma peeked_bytes:
  "c \<le> 8 \<Longrightarrow> take c (host_bytes le 8 (host_word le (mem_read m a 8) :: u64)) = mem_read m a c"
  by (simp add: take_mem_read)

lemma read_loop_sound:
  assumes "peekdata_contract os view"
    and "read_memory_ptrace_loop os pid a n k buf w = (ok, buf', w')"
    and "length buf = n" and "k \<le> n"
  shows "view w' = view w \<and> length buf' = n \<and> take k buf' = take k buf
    \<and> (ok \<and> k < n \<longrightarrow> (\<exists>s. k_space (view w) pid = Some s
         \<and> drop k buf' = mem_read (k_mem (view w) s) (a + of_nat k) (n - k)))"
  using assms
proof (induction os pid a n k buf w arbitrary: ok buf' w' rule: read_memory_ptrace_loop.induct)
  case (1 os pid a n k buf w)
  show ?case
  proof (cases "k < n")
    case False
    with 1 show ?thesis by (simp add: read_memory_ptrace_loop.simps)
  next
    case True
    obtain ok1 r w1 where peek: "ptrace_wrapper os (PTRACE_PEEKDATA (a + of_nat k)) pid w = (ok1, r, w1)"
      by (metis prod_cases3)
    then have osp: "os_ptrace os (PTRACE_PEEKDATA (a + of_nat k)) pid w = (r, w1)"
      and ok1: "ok1 = reply_ok r"
      by (simp_all add: ptrace_wrapper_iff)
    note sound = peek_sound [OF "1.prems"(1) osp]
    show ?thesis
    proof (cases ok1)
      case False
      with 1 True peek sound(1) show ?thesis
        by (simp add: read_memory_ptrace_loop.simps [of os pid a n k])
    next
      case okT: True
      define c where "c = min 8 (n - k)"
      define ws where "ws = take c (host_bytes (os_little_endian os) 8 (reply_ret r))"
      define buf1 where "buf1 = splice k ws buf"
      obtain s where s: "k_space (view w) pid = Some s"
          and rr: "reply_ret r = host_word (os_little_endian os) (mem_read (k_mem (view w) s) (a + of_nat k) 8)"
        using sound(2) okT ok1 by blast
      have c: "c \<le> 8" "0 < c" "k + c \<le> n" using True by (auto simp: c_def)
      have ws: "ws = mem_read (k_mem (view w) s) (a + of_nat k) c"
        by (simp add: ws_def rr take_mem_read c(1))
      have len1: "length buf1 = n" and take1: "take (k + c) buf1 = take k buf @ ws"
        using c "1.prems"(3) by (simp_all add: buf1_def splice_def ws)
      have loop: "read_memory_ptrace_loop os pid a n (k + c) buf1 w1 = (ok, buf', w')"
        using "1.prems"(2) True peek okT
        by (simp add: read_memory_ptrace_loop.simps [of os pid a n k] Let_def c_def ws_def buf1_def)
      have ih: "view w' = view w1 \<and> length buf' = n \<and> take (k + c) buf' = take (k + c) buf1
          \<and> (ok \<and> k + c < n \<longrightarrow> (\<exists>s. k_space (view w1) pid = Some s
             \<and> drop (k + c) buf' = mem_read (k_mem (view w1) s) (a + of_nat (k + c)) (n - (k + c))))"
      proof (rule "1.IH" [OF True peek [symmetric] refl _ c_def refl, folded ws_def buf1_def])
        show "\<not> \<not> ok1" using okT by simp
        show "read_memory_ptrace_loop os pid a n (k + c) buf1 w1 = (ok, buf', w')" by (rule loop)
      qed (use "1.prems"(1) len1 c in auto)
      have takek: "take k buf' = take k buf"
      proof -
        have "take k buf' = take k (take (k + c) buf')" by simp
        also have "\<dots> = take k (take k buf @ ws)" using ih take1 by simp
        also have "\<dots> = take k buf" using "1.prems"(3,4) by simp
        finally show ?thesis .
      qed
      have mid: "drop k buf' = ws @ drop (k + c) buf'"
      proof -
        have "drop k (take (k + c) buf') = ws"
          using ih take1 "1.prems"(3,4) by simp
        then have "take c (drop k buf') = ws" by (simp add: drop_take)
        then show ?thesis by (metis append_take_drop_id drop_drop add.commute)
      qed
      have "drop k buf' = mem_read (k_mem (view w) s) (a + of_nat k) (n - k)" if ok
      proof (cases "k + c < n")
        case True
        with ih that s sound(1) have "drop (k + c) buf' =
            mem_read (k_mem (view w) s) (a + of_nat k + of_nat c) (n - (k + c))"
          by (simp add: add.assoc) 
        moreover have "n - k = c + (n - (k + c))" using c by simp
        ultimately show ?thesis using mid ws by (metis mem_read_add)
      next
        case False
        then have "c = n - k" "drop (k + c) buf' = []" using c ih by auto
        then show ?thesis using mid ws by simp
      qed
      with s ih takek sound(1) True show ?thesis by auto
    qed
  qed
qed

lemma read_memory_sound:
  assumes "memory_contract os view" and "read_memory os pid a buf w = (ok, buf', w')"
  shows "view w' = view w" and "length buf' = length buf"
    and "ok \<Longrightarrow> buf \<noteq> [] \<Longrightarrow>
           \<exists>s. k_space (view w) pid = Some s \<and> buf' = mem_read (k_mem (view w) s) a (length buf)"
    and "k_space (view w) pid = Some s \<Longrightarrow> on_range (k_readable (view w) s) a (length buf) \<Longrightarrow> ok"
proof -
  obtain ret data w1 where rv: "os_vm_readv os pid a (length buf) w = ((ret, data), w1)"
    by (metis prod.exhaust)
  note vm = readv_sound [OF _ rv, of view]
  have c: "vm_readv_contract os view" "peekdata_contract os view"
    using assms(1) by (simp_all add: memory_contract_def)
  have len: "length (splice 0 data buf) = length buf"
    using vm(2) c(1) by simp
  have fast: "ok \<and> buf' = splice 0 data buf \<and> w' = w1" if "ret = int (length buf)"
    using that assms(2) rv by (simp add: read_memory_def)
  have slow: "read_memory_ptrace_loop os pid a (length buf) 0 (splice 0 data buf) w1 = (ok, buf', w')"
    if "ret \<noteq> int (length buf)"
    using that assms(2) rv len by (simp add: read_memory_def read_memory_ptrace_def)
  note loop = read_loop_sound [OF c(2) slow len]
  show "view w' = view w" "length buf' = length buf"
    using fast loop vm(1) c(1) len by (cases "ret = int (length buf)"; simp)+
  show "\<exists>s. k_space (view w) pid = Some s \<and> buf' = mem_read (k_mem (view w) s) a (length buf)"
    if "ok" "buf \<noteq> []"
  proof (cases "ret = int (length buf)")
    case True
    with fast that vm(3) c(1) show ?thesis by (auto simp: splice_all)
  next
    case False
    with loop that vm(1) c(1) show ?thesis by simp
  qed
  show ok if "k_space (view w) pid = Some s" "on_range (k_readable (view w) s) a (length buf)"
    using vm(4) [OF c(1) that] fast by simp
qed

lemma write_memory_fast:
  assumes "memory_contract os view" and "write_memory os pid a bs w = (ok, w')" and "bs \<noteq> []"
    and "k_space (view w) pid = Some s" and "on_range (k_writable (view w) s) a (length bs)"
  shows "ok" and "view w' = put_mem s a bs (view w)"
proof -
  obtain ret w1 where wv: "os_vm_writev os pid a bs w = (ret, w1)"
    by (metis prod.exhaust)
  have c: "vm_writev_contract os view" using assms(1) by (simp add: memory_contract_def)
  note vm = writev_sound [OF c wv]
  have "ret = int (length bs)" using vm(2) assms(4,5) by simp
  moreover from this have "view w1 = put_mem s a bs (view w)"
    using vm(1) assms(3,4) by auto
  ultimately show "ok" and "view w' = put_mem s a bs (view w)"
    using assms(2) wv by (simp_all add: write_memory_def)
qed

text \<open>
  The fall-back on less than a word: the peek only reads, and what is stored at the address are the
  eight bytes of the local variable's address, whatever the buffer holds.
\<close>

lemma write_memory_slow:
  assumes "memory_contract os view" and "write_memory os pid a bs w = (ok, w')"
    and "bs \<noteq> []" and "length bs \<le> 8"
    and "k_space (view w) pid = Some s" and "\<not> k_writable (view w) s a"
    and "k_stopped (view w) pid" and "on_range (k_mapped (view w) s) a 8"
  shows "ok \<and> view w' =
           put_mem s a (host_bytes (os_little_endian os) 8 (os_word_address os)) (view w)"
proof -
  obtain ret w1 where wv: "os_vm_writev os pid a bs w = (ret, w1)"
    by (metis prod.exhaust)
  have c: "vm_writev_contract os view" "peekdata_contract os view" "pokedata_contract os view"
    using assms(1) by (simp_all add: memory_contract_def)
  have ret: "ret \<noteq> int (length bs)" "view w1 = view w"
    using writev_sound(3) [OF c(1) wv assms(5,6,3)] by auto
  have loop: "write_memory_ptrace_loop os pid a bs 0 w1 = (ok, w')"
    using assms(2) wv ret by (simp add: write_memory_def write_memory_ptrace_def)
  have poke: "view w3 = put_mem s a (host_bytes (os_little_endian os) 8 (os_word_address os)) (view w)
      \<and> reply_ok r3"
    if "os_ptrace os (PTRACE_POKEDATA a (os_word_address os)) pid w2 = (r3, w3)" "view w2 = view w"
    for w2 r3 w3
    using poke_sound [OF c(3) that(1)] that(2) assms(5,7,8) by auto
  have fin: "write_memory_ptrace_loop os pid a bs (length bs) w3 = (True, w3)" for w3
    by (simp add: write_memory_ptrace_loop.simps)
  show ?thesis
  proof (cases "length bs < 8")
    case True
    obtain ok2 r2 w2 where pk: "ptrace_wrapper os (PTRACE_PEEKDATA a) pid w1 = (ok2, r2, w2)"
      by (metis prod_cases3)
    obtain ok3 r3 w3 where pw:
        "ptrace_wrapper os (PTRACE_POKEDATA a (os_word_address os)) pid w2 = (ok3, r3, w3)"
      by (metis prod_cases3)
    from pk have "view w2 = view w" "ok2"
      using peek_sound(1,3) [OF c(2)] ret(2) assms(5,7,8) by (auto simp: ptrace_wrapper_iff)
    then show ?thesis
      using loop pk pw poke [of w2 r3 w3] True assms(3) fin [of w3]
      by (simp add: write_memory_ptrace_loop.simps [of os pid a bs 0] ptrace_wrapper_iff Let_def)
  next
    case False
    with assms(4) have len: "length bs = 8" by simp
    obtain ok3 r3 w3 where pw:
        "ptrace_wrapper os (PTRACE_POKEDATA a (os_word_address os)) pid w1 = (ok3, r3, w3)"
      by (metis prod_cases3)
    then have "ok3" and v3: "view w3 = put_mem s a
        (host_bytes (os_little_endian os) 8 (os_word_address os)) (view w)"
      using poke [of w1 r3 w3] ret(2) by (simp_all add: ptrace_wrapper_iff)
    then have "ok \<and> w' = w3"
      using loop fin [of w3] assms(3) len pw
      by (simp add: write_memory_ptrace_loop.simps [of os pid a bs 0] Let_def)
    with v3 show ?thesis by simp
  qed
qed

section \<open>The interface\<close>

locale tracee_memory =
  fixes contract :: "'w os \<Rightarrow> ('w \<Rightarrow> kstate) \<Rightarrow> bool"
    and rd :: "'w os \<Rightarrow> pid \<Rightarrow> u64 \<Rightarrow> bytes \<Rightarrow> 'w \<Rightarrow> bool \<times> bytes \<times> 'w"
    and wr :: "'w os \<Rightarrow> pid \<Rightarrow> u64 \<Rightarrow> bytes \<Rightarrow> 'w \<Rightarrow> bool \<times> 'w"
  assumes law_rd_view: "contract os view \<Longrightarrow> rd os p a buf w = (ok, buf', w') \<Longrightarrow> view w' = view w"
    and law_rd: "contract os view \<Longrightarrow> rd os p a buf w = (True, buf', w') \<Longrightarrow> buf \<noteq> [] \<Longrightarrow>
      \<exists>s. k_space (view w) p = Some s \<and> buf' = mem_read (k_mem (view w) s) a (length buf)"
    and law_rd_total: "contract os view \<Longrightarrow> rd os p a buf w = (ok, buf', w') \<Longrightarrow>
      k_space (view w) p = Some s \<Longrightarrow> on_range (k_readable (view w) s) a (length buf) \<Longrightarrow> ok"
    and law_wr: "contract os view \<Longrightarrow> wr os p a bs w = (ok, w') \<Longrightarrow> bs \<noteq> [] \<Longrightarrow>
      k_space (view w) p = Some s \<Longrightarrow> on_range (k_writable (view w) s) a (length bs) \<Longrightarrow>
      ok \<and> view w' = put_mem s a bs (view w)"
begin

text \<open>What was written is what is read.\<close>

lemma read_back:
  assumes "contract os view" and "wr os p a bs w = (ok1, w1)" and "rd os p a buf w1 = (True, buf', w2)"
    and "k_space (view w) p = Some s" and "on_range (k_writable (view w) s) a (length bs)"
    and "length buf = length bs" and "bs \<noteq> []" and "length bs < 2 ^ 64"
  shows "buf' = bs"
proof -
  have "view w1 = put_mem s a bs (view w)"
    using law_wr [OF assms(1,2,7,4,5)] by simp
  then show ?thesis
    using law_rd [OF assms(1,3)] assms(4,6,7,8) mem_write_read_same [of bs] by fastforce
qed

text \<open>Saving the bytes at an address, writing others and writing the saved ones back changes nothing.\<close>

lemma save_patch_restore:
  assumes "contract os view" and "rd os p a buf w = (True, saved, w1)" and "wr os p a bs w1 = (ok2, w2)"
    and "wr os p a saved w3 = (ok4, w4)" and "view w3 = view w2"
    and "k_space (view w) p = Some s" and "on_range (k_writable (view w) s) a (length bs)"
    and "length buf = length bs" and "bs \<noteq> []"
  shows "ok4 \<and> view w4 = view w"
proof -
  have v1: "view w1 = view w" using assms(1,2) by (rule law_rd_view)
  have saved: "saved = mem_read (k_mem (view w) s) a (length bs)"
    using law_rd [OF assms(1,2)] assms(6,8,9) by fastforce
  have v3: "view w3 = put_mem s a bs (view w)"
    using law_wr [OF assms(1,3,9)] assms(5,6,7) v1 by simp
  have "saved \<noteq> []" using saved assms(9) by (metis length_mem_read length_0_conv)
  then have "ok4 \<and> view w4 = put_mem s a saved (view w3)"
    using law_wr [OF assms(1,4)] assms(6,7) saved v3 by simp
  moreover have "put_mem s a saved (put_mem s a bs (view w)) = view w"
    by (simp add: put_mem_def saved mem_write_restore)
  ultimately show ?thesis using v3 by simp
qed

end

interpretation mc: tracee_memory memory_contract read_memory write_memory
  by unfold_locales (auto dest: read_memory_sound write_memory_fast)

section \<open>The memory map\<close>

record memory_region =
  start_address :: u64
  end_address :: u64
  region_size :: u64
  permissions :: string
  region_offset :: u64
  device :: string
  inode :: u64
  pathname :: string

definition is_readable :: "memory_region \<Rightarrow> bool" where
  "is_readable r \<longleftrightarrow> CHR ''r'' \<in> set (permissions r)"

definition is_writable :: "memory_region \<Rightarrow> bool" where
  "is_writable r \<longleftrightarrow> CHR ''w'' \<in> set (permissions r)"

definition is_executable :: "memory_region \<Rightarrow> bool" where
  "is_executable r \<longleftrightarrow> CHR ''x'' \<in> set (permissions r)"

definition is_private :: "memory_region \<Rightarrow> bool" where
  "is_private r \<longleftrightarrow> CHR ''p'' \<in> set (permissions r)"

definition is_shared :: "memory_region \<Rightarrow> bool" where
  "is_shared r \<longleftrightarrow> CHR ''s'' \<in> set (permissions r)"

text \<open>The format \<open>{:016x}\<close>.\<close>

definition hex_016 :: "u64 \<Rightarrow> string" where
  "hex_016 v = map (\<lambda>i. hex_digits ! unat (drop_bit (4 * i) v AND 15)) (rev [0..<16])"

definition region_to_string :: "memory_region \<Rightarrow> string" where
  "region_to_string r =
     hex_016 (start_address r) @ ''-'' @ hex_016 (end_address r) @ '' '' @ permissions r @ '' '' @ pathname r"

definition region_contains :: "memory_region \<Rightarrow> u64 \<Rightarrow> bool" where
  "region_contains r address \<longleftrightarrow> start_address r \<le> address \<and> address < end_address r"

text \<open>One \<open>iss >> token\<close>: the token, empty at the end of the text, and what is left.\<close>

definition next_token :: "string \<Rightarrow> string \<times> string" where
  "next_token s =
     (let rest = dropWhile is_space s
      in (takeWhile (\<lambda>c. \<not> is_space c) rest, dropWhile (\<lambda>c. \<not> is_space c) rest))"

definition find_char :: "char \<Rightarrow> string \<Rightarrow> nat option" where
  "find_char c s =
     (let i = length (takeWhile (\<lambda>x. x \<noteq> c) s) in if i < length s then Some i else None)"

text \<open>The region of a line, \<open>None\<close> where the parser returns false, an exception of \<open>stoull\<close> as an error.\<close>

definition parse_maps_line :: "string \<Rightarrow> cxx_error + memory_region option" where
  "parse_maps_line line =
     (let (address_range, s1) = next_token line in
      case find_char CHR ''-'' address_range of
        None \<Rightarrow> Inr None
      | Some hyphen \<Rightarrow>
     (case stoull 16 (take hyphen address_range) of Inl e \<Rightarrow> Inl e | Inr start \<Rightarrow>
      case stoull 16 (drop (hyphen + 1) address_range) of Inl e \<Rightarrow> Inl e | Inr end_ \<Rightarrow>
        let sz = end_ - start in
        if sz = 0 then Inr None
        else if end_ \<le> start then Inr None
        else
          (let (perms, s2) = next_token s1;
               (offset_str, s3) = next_token s2 in
           case stoull 16 offset_str of Inl e \<Rightarrow> Inl e | Inr offset \<Rightarrow>
           let (dev, s4) = next_token s3;
               (inode_str, s5) = next_token s4 in
           case stoull 10 inode_str of Inl e \<Rightarrow> Inl e | Inr ino \<Rightarrow>
           let path = takeWhile (\<lambda>c. c \<noteq> newline) (dropWhile is_space s5) in
           Inr (Some \<lparr>start_address = start, end_address = end_, region_size = sz,
             permissions = perms, region_offset = offset, device = dev, inode = ino,
             pathname = (if path = [] then ''[anonymous]'' else path)\<rparr>))))"

fun parse_maps_lines :: "string list \<Rightarrow> cxx_error + memory_region list" where
  "parse_maps_lines [] = Inr []"
| "parse_maps_lines (line # ls) =
     (if line = [] then parse_maps_lines ls
      else case parse_maps_line line of
          Inl e \<Rightarrow> Inl e
        | Inr None \<Rightarrow> parse_maps_lines ls
        | Inr (Some region) \<Rightarrow>
            (case parse_maps_lines ls of Inl e \<Rightarrow> Inl e | Inr rs \<Rightarrow> Inr (region # rs)))"

definition get_memory_regions :: "'w os \<Rightarrow> pid \<Rightarrow> 'w \<Rightarrow> (cxx_error + memory_region list) \<times> 'w" where
  "get_memory_regions os pid w =
     (let (maps_file, w1) = file_open os (proc_path pid ''maps'') w in
      if \<not> is_open maps_file then (Inr [], w1)
      else
        (let (ls, _) = read_lines maps_file in
         case parse_maps_lines ls of
           Inl e \<Rightarrow> (Inl e, w1)
         | Inr regions \<Rightarrow> (Inr (sort_key start_address regions), w1)))"

definition region_valid :: "memory_region \<Rightarrow> bool" where
  "region_valid r \<longleftrightarrow> start_address r < end_address r
     \<and> region_size r = end_address r - start_address r \<and> pathname r \<noteq> []"

lemma parse_maps_line_valid: "parse_maps_line line = Inr (Some r) \<Longrightarrow> region_valid r"
  by (auto simp: parse_maps_line_def region_valid_def Let_def
      split: prod.splits option.splits sum.splits if_splits)

lemma parse_maps_lines_valid: "parse_maps_lines ls = Inr rs \<Longrightarrow> list_all region_valid rs"
  by (induction ls arbitrary: rs)
    (auto split: if_splits sum.splits option.splits dest: parse_maps_line_valid)

text \<open>A line the way the kernel prints it, with single spaces between the fields.\<close>

definition hex_text :: "u64 \<Rightarrow> string" where
  "hex_text w = the (num_to_hex_str w False)"

definition print_maps_line :: "memory_region \<Rightarrow> string" where
  "print_maps_line r =
     hex_text (start_address r) @ ''-'' @ hex_text (end_address r) @ '' '' @ permissions r @ '' '' @
     hex_text (region_offset r) @ '' '' @ device r @ '' '' @ show_nat (unat (inode r)) @ '' '' @ pathname r"

lemma hex_text_facts:
  "set (hex_text w) \<subseteq> set hex_digits" "hex_text w \<noteq> []" "stoull 16 (hex_text w) = Inr w"
proof -
  show "set (hex_text w) \<subseteq> set hex_digits"
    using set_hex_print_loop [of w]
    by (simp add: hex_text_def num_to_hex_str_def Let_def) (simp add: hex_digits_def)
  show "hex_text w \<noteq> []"
    using hex_print_loop_nonempty [of w] by (simp add: hex_text_def num_to_hex_str_def Let_def)
  show "stoull 16 (hex_text w) = Inr w"
  proof (cases "w = 0")
    case True
    then show ?thesis
      by (simp add: hex_text_def num_to_hex_str_def stoull_def parse_integer_def after_prefix_def
          is_space_def char_code_def digit_in_def hex_digit_def digits_value_def)
  next
    case False
    then show ?thesis by (simp add: hex_text_def num_to_hex_str_def Let_def stoull_hex_print)
  qed
qed

definition token :: "string \<Rightarrow> bool" where
  "token t \<longleftrightarrow> t \<noteq> [] \<and> list_all (\<lambda>c. \<not> is_space c) t"

lemma token_hex_text: "token (hex_text w)"
  using hex_text_facts(1,2) [of w] hex_char_facts by (auto simp: token_def list_all_iff)

lemma token_show_nat: "token (show_nat n)"
  using digits_show_nat [of n] digit_10_hex by (auto simp: token_def list_all_iff)

lemma token_append: "token t \<Longrightarrow> token u \<Longrightarrow> token (t @ u)"
  by (simp add: token_def)

lemma next_token_space: "token t \<Longrightarrow> next_token (t @ CHR '' '' # s) = (t, CHR '' '' # s)"
proof -
  assume t: "token t"
  have sp: "is_space (CHR '' '')" by (simp add: is_space_def char_code_def)
  from t have "dropWhile is_space (t @ CHR '' '' # s) = t @ CHR '' '' # s"
    by (cases t) (auto simp: token_def)
  moreover from t have "takeWhile (\<lambda>c. \<not> is_space c) (t @ CHR '' '' # s) = t"
    "dropWhile (\<lambda>c. \<not> is_space c) (t @ CHR '' '' # s) = CHR '' '' # s"
    using sp by (simp_all add: token_def list_all_iff takeWhile_tail dropWhile_append3)
  ultimately show ?thesis by (simp add: next_token_def)
qed

lemma next_token_skip: "next_token (CHR '' '' # s) = next_token s"
  by (simp add: next_token_def is_space_def char_code_def)

lemma find_char_here: "c \<notin> set a \<Longrightarrow> find_char c (a @ c # b) = Some (length a)"
proof -
  assume "c \<notin> set a"
  then have "takeWhile (\<lambda>x. x \<noteq> c) (a @ c # b) = a" by (auto simp: takeWhile_tail)
  then show ?thesis by (simp add: find_char_def)
qed

section \<open>Properties\<close>

text \<open>
  C22: a read that reports success has filled the buffer with the tracee's bytes at the address, by
  either path, whatever the buffer held; a read never changes the tracee, and one of readable memory
  succeeds.
\<close>

theorem read_memory_correct:
  assumes "memory_contract os view" and "read_memory os pid a buf w = (ok, buf', w')" and "buf \<noteq> []"
  shows "view w' = view w \<and> length buf' = length buf
    \<and> (ok \<longrightarrow> (\<exists>s. k_space (view w) pid = Some s \<and> buf' = mem_read (k_mem (view w) s) a (length buf)))
    \<and> (\<forall>s. k_space (view w) pid = Some s \<and> on_range (k_readable (view w) s) a (length buf) \<longrightarrow> ok)"
  using read_memory_sound [OF assms(1,2)] assms(3) by blast

theorem read_memory_correct_witness:
  "read_memory sim_os 100 0x1000 [0, 0, 0] demo_kernel = (True, [0x1F, 0x1F, 0x1F], demo_kernel)
     \<and> (\<exists>s. k_space (id demo_kernel) 100 = Some s
          \<and> [0x1F, 0x1F, 0x1F] = mem_read (k_mem (id demo_kernel) s) 0x1000 (length [0 :: u8, 0, 0]))"
proof -
  have run: "read_memory sim_os 100 0x1000 [0, 0, 0] demo_kernel = (True, [0x1F, 0x1F, 0x1F], demo_kernel)"
    by (simp add: read_memory_def sim_vm_readv_def demo_kernel_def on_range_def mem_read_def
        splice_def upt_rec)
  from read_memory_correct [OF sim_memory_contract run] run show ?thesis by simp
qed



text \<open>
  where the first byte cannot be written directly (a code page), a write of up to a word falls
  back to ptrace, reports success and leaves in the tracee the eight bytes of the address of the
  debugger's local variable: the data of the caller has no influence on the result.
\<close>

theorem write_memory_fallback_stores_pointer:
  assumes "memory_contract os view" and "write_memory os pid a bs w = (ok, w')"
    and "bs \<noteq> []" and "length bs \<le> 8"
    and "k_space (view w) pid = Some s" and "\<not> k_writable (view w) s a"
    and "k_stopped (view w) pid" and "on_range (k_mapped (view w) s) a 8"
  shows "ok \<and> mem_read (k_mem (view w') s) a 8 =
           host_bytes (os_little_endian os) 8 (os_word_address os)"
  using write_memory_slow [OF assms]
    mem_write_read_same [of "host_bytes (os_little_endian os) 8 (os_word_address os)"] by simp

theorem write_memory_fallback_witness:
  "fst (write_memory sim_os 100 0x1000 [0, 0, 0x20, 0xD4] demo_kernel)
     \<and> mem_read (k_mem (id (snd (write_memory sim_os 100 0x1000 [0, 0, 0x20, 0xD4] demo_kernel))) 0) 0x1000 8
         = host_bytes True 8 (0x7FC0001000 :: u64)"
proof -
  obtain ok w' where run: "write_memory sim_os 100 0x1000 [0, 0, 0x20, 0xD4] demo_kernel = (ok, w')"
    by (metis prod.exhaust)
  show ?thesis
    using write_memory_fallback_stores_pointer [OF sim_memory_contract run, of 0] run
    by (simp add: demo_kernel_def on_range_def upt_rec)
qed



text \<open>
  C31: the memory map of a process comes back in ascending order of the start addresses, each region
  with its end above its start, its size the difference and a name, and it holds the regions of
  the file's lines, each as often as it is there.
\<close>

theorem get_memory_regions_sorted:
  assumes "get_memory_regions os pid w = (Inr rs, w')"
  shows "sorted (map start_address rs) \<and> list_all region_valid rs
    \<and> (\<forall>f w1. file_open os (proc_path pid ''maps'') w = (f, w1) \<and> is_open f \<longrightarrow>
         (\<exists>parsed. parse_maps_lines (fst (read_lines f)) = Inr parsed \<and> mset rs = mset parsed))"
proof -
  obtain f w1 where fo: "file_open os (proc_path pid ''maps'') w = (f, w1)"
    by (metis prod.exhaust)
  show ?thesis
  proof (cases "is_open f")
    case False
    with assms fo show ?thesis by (simp add: get_memory_regions_def)
  next
    case True
    with assms fo obtain parsed where "parse_maps_lines (fst (read_lines f)) = Inr parsed"
        "rs = sort_key start_address parsed"
      by (auto simp: get_memory_regions_def split: prod.splits sum.splits)
    with fo parse_maps_lines_valid show ?thesis by (fastforce simp: list_all_iff)
  qed
qed

theorem get_memory_regions_sorted_witness:
  "\<exists>rs w'. get_memory_regions (sim_os\<lparr>os_open_file := \<lambda>_ st. (Some ''5000-6000 rw-p 0 00:00 0'', st)\<rparr>) 100 demo_kernel
       = (Inr rs, w') \<and> rs \<noteq> [] \<and> sorted (map start_address rs)"
proof -
  let ?os = "sim_os\<lparr>os_open_file := \<lambda>_ st. (Some ''5000-6000 rw-p 0 00:00 0'', st)\<rparr>"
  let ?r = "\<lparr>start_address = 0x5000, end_address = 0x6000, region_size = 0x1000,
     permissions = ''rw-p'', region_offset = 0, device = ''00:00'', inode = 0, pathname = ''[anonymous]''\<rparr>"
  have run: "get_memory_regions ?os 100 demo_kernel = (Inr [?r], demo_kernel)"
    by (simp add: get_memory_regions_def file_open_def file_open_as_def check_directory_type_def open_path_def
        is_open_def stream_defs split_lines.simps(2) newline_def
        parse_maps_line_def next_token_def is_space_def char_code_def find_char_def stoull_def
        parse_integer_def after_prefix_def digit_in_def hex_digit_def digits_value_def sim_os_def)
  from get_memory_regions_sorted [OF run] run show ?thesis by blast
qed

end
