(* ===== verification/Register_Names.thy ===== *)
theory Register_Names
  imports Kernel_Contract
begin

text \<open>
  The register enumerations of \<open>src/register_control.hpp\<close> and their names in
  \<open>src/register_control.cpp\<close>.  An enumerator's integer value is its index, \<open>static_cast\<close> from an
  integer is the position in the list of all enumerators, and the comparisons of enumerators are
  those of their indices, as instances of \<open>linorder\<close>.  The conversions between a register and its
  name are three copies of one pattern: the locale \<open>name_table\<close> has their laws, once.
\<close>

section \<open>Enumerations\<close>

datatype gp_register =
    X0 | X1 | X2 | X3 | X4 | X5 | X6 | X7
  | X8 | X9 | X10 | X11 | X12 | X13 | X14 | X15
  | X16 | X17 | X18 | X19 | X20 | X21 | X22 | X23
  | X24 | X25 | X26 | X27 | X28 | X29 | X30 | SP
  | PC | PSTATE | GPR_MAX_REGISTERS | GPR_INVALID

datatype fp_register =
    V0 | V1 | V2 | V3 | V4 | V5 | V6 | V7
  | V8 | V9 | V10 | V11 | V12 | V13 | V14 | V15
  | V16 | V17 | V18 | V19 | V20 | V21 | V22 | V23
  | V24 | V25 | V26 | V27 | V28 | V29 | V30 | V31
  | FPSR | FPCR | FPR_MAX_REGISTERS | FPR_INVALID

datatype db_register =
    DBG0 | DBG1 | DBG2 | DBG3 | DBG4 | DBG5 | DBG6 | DBG7
  | DBG8 | DBG9 | DBG10 | DBG11 | DBG12 | DBG13 | DBG14 | DBG15
  | DBG_INFO | DBR_MAX_REGISTERS | DBR_INVALID

primrec gpr_index :: "gp_register \<Rightarrow> nat" where
  "gpr_index X0 = 0" | "gpr_index X1 = 1" | "gpr_index X2 = 2" | "gpr_index X3 = 3"
| "gpr_index X4 = 4" | "gpr_index X5 = 5" | "gpr_index X6 = 6" | "gpr_index X7 = 7"
| "gpr_index X8 = 8" | "gpr_index X9 = 9" | "gpr_index X10 = 10" | "gpr_index X11 = 11"
| "gpr_index X12 = 12" | "gpr_index X13 = 13" | "gpr_index X14 = 14" | "gpr_index X15 = 15"
| "gpr_index X16 = 16" | "gpr_index X17 = 17" | "gpr_index X18 = 18" | "gpr_index X19 = 19"
| "gpr_index X20 = 20" | "gpr_index X21 = 21" | "gpr_index X22 = 22" | "gpr_index X23 = 23"
| "gpr_index X24 = 24" | "gpr_index X25 = 25" | "gpr_index X26 = 26" | "gpr_index X27 = 27"
| "gpr_index X28 = 28" | "gpr_index X29 = 29" | "gpr_index X30 = 30" | "gpr_index SP = 31"
| "gpr_index PC = 32" | "gpr_index PSTATE = 33" | "gpr_index GPR_MAX_REGISTERS = 34" | "gpr_index GPR_INVALID = 35"

primrec fpr_index :: "fp_register \<Rightarrow> nat" where
  "fpr_index V0 = 0" | "fpr_index V1 = 1" | "fpr_index V2 = 2" | "fpr_index V3 = 3"
| "fpr_index V4 = 4" | "fpr_index V5 = 5" | "fpr_index V6 = 6" | "fpr_index V7 = 7"
| "fpr_index V8 = 8" | "fpr_index V9 = 9" | "fpr_index V10 = 10" | "fpr_index V11 = 11"
| "fpr_index V12 = 12" | "fpr_index V13 = 13" | "fpr_index V14 = 14" | "fpr_index V15 = 15"
| "fpr_index V16 = 16" | "fpr_index V17 = 17" | "fpr_index V18 = 18" | "fpr_index V19 = 19"
| "fpr_index V20 = 20" | "fpr_index V21 = 21" | "fpr_index V22 = 22" | "fpr_index V23 = 23"
| "fpr_index V24 = 24" | "fpr_index V25 = 25" | "fpr_index V26 = 26" | "fpr_index V27 = 27"
| "fpr_index V28 = 28" | "fpr_index V29 = 29" | "fpr_index V30 = 30" | "fpr_index V31 = 31"
| "fpr_index FPSR = 32" | "fpr_index FPCR = 33" | "fpr_index FPR_MAX_REGISTERS = 34" | "fpr_index FPR_INVALID = 35"

primrec dbr_index :: "db_register \<Rightarrow> nat" where
  "dbr_index DBG0 = 0" | "dbr_index DBG1 = 1" | "dbr_index DBG2 = 2" | "dbr_index DBG3 = 3"
| "dbr_index DBG4 = 4" | "dbr_index DBG5 = 5" | "dbr_index DBG6 = 6" | "dbr_index DBG7 = 7"
| "dbr_index DBG8 = 8" | "dbr_index DBG9 = 9" | "dbr_index DBG10 = 10" | "dbr_index DBG11 = 11"
| "dbr_index DBG12 = 12" | "dbr_index DBG13 = 13" | "dbr_index DBG14 = 14" | "dbr_index DBG15 = 15"
| "dbr_index DBG_INFO = 16" | "dbr_index DBR_MAX_REGISTERS = 17" | "dbr_index DBR_INVALID = 18"

definition gpr_enumerators :: "gp_register list" where
  "gpr_enumerators =
    [X0, X1, X2, X3, X4, X5, X6, X7,
     X8, X9, X10, X11, X12, X13, X14, X15,
     X16, X17, X18, X19, X20, X21, X22, X23,
     X24, X25, X26, X27, X28, X29, X30, SP,
     PC, PSTATE, GPR_MAX_REGISTERS, GPR_INVALID]"

definition fpr_enumerators :: "fp_register list" where
  "fpr_enumerators =
    [V0, V1, V2, V3, V4, V5, V6, V7,
     V8, V9, V10, V11, V12, V13, V14, V15,
     V16, V17, V18, V19, V20, V21, V22, V23,
     V24, V25, V26, V27, V28, V29, V30, V31,
     FPSR, FPCR, FPR_MAX_REGISTERS, FPR_INVALID]"

definition dbr_enumerators :: "db_register list" where
  "dbr_enumerators =
    [DBG0, DBG1, DBG2, DBG3, DBG4, DBG5, DBG6, DBG7,
     DBG8, DBG9, DBG10, DBG11, DBG12, DBG13, DBG14, DBG15,
     DBG_INFO, DBR_MAX_REGISTERS, DBR_INVALID]"

lemma length_gpr_enumerators [simp]: "length gpr_enumerators = 36"
  by (simp add: gpr_enumerators_def)

lemma gpr_enumerator_index [simp]: "gpr_enumerators ! gpr_index r = r"
  by (cases r) (simp_all add: gpr_enumerators_def)

lemma gpr_index_bound: "gpr_index r < 36"
  by (cases r) simp_all

lemma gpr_index_inject: "gpr_index r = gpr_index s \<longleftrightarrow> r = s"
  by (metis gpr_enumerator_index)

lemma map_gpr_index: "map gpr_index gpr_enumerators = [0..<36]"
  by (simp add: gpr_enumerators_def upt_rec)

lemma gpr_index_enumerator [simp]: "i < 36 \<Longrightarrow> gpr_index (gpr_enumerators ! i) = i"
  using nth_map [of i gpr_enumerators gpr_index] by (simp add: map_gpr_index)

instantiation gp_register :: linorder
begin

definition less_eq_gp_register :: "gp_register \<Rightarrow> gp_register \<Rightarrow> bool" where
  "r \<le> s \<longleftrightarrow> gpr_index r \<le> gpr_index s"

definition less_gp_register :: "gp_register \<Rightarrow> gp_register \<Rightarrow> bool" where
  "r < s \<longleftrightarrow> gpr_index r < gpr_index s"

instance
  by standard (auto simp: less_eq_gp_register_def less_gp_register_def gpr_index_inject)

end

lemma length_fpr_enumerators [simp]: "length fpr_enumerators = 36"
  by (simp add: fpr_enumerators_def)

lemma fpr_enumerator_index [simp]: "fpr_enumerators ! fpr_index r = r"
  by (cases r) (simp_all add: fpr_enumerators_def)

lemma fpr_index_bound: "fpr_index r < 36"
  by (cases r) simp_all

lemma fpr_index_inject: "fpr_index r = fpr_index s \<longleftrightarrow> r = s"
  by (metis fpr_enumerator_index)

lemma map_fpr_index: "map fpr_index fpr_enumerators = [0..<36]"
  by (simp add: fpr_enumerators_def upt_rec)

lemma fpr_index_enumerator [simp]: "i < 36 \<Longrightarrow> fpr_index (fpr_enumerators ! i) = i"
  using nth_map [of i fpr_enumerators fpr_index] by (simp add: map_fpr_index)

instantiation fp_register :: linorder
begin

definition less_eq_fp_register :: "fp_register \<Rightarrow> fp_register \<Rightarrow> bool" where
  "r \<le> s \<longleftrightarrow> fpr_index r \<le> fpr_index s"

definition less_fp_register :: "fp_register \<Rightarrow> fp_register \<Rightarrow> bool" where
  "r < s \<longleftrightarrow> fpr_index r < fpr_index s"

instance
  by standard (auto simp: less_eq_fp_register_def less_fp_register_def fpr_index_inject)

end

lemma length_dbr_enumerators [simp]: "length dbr_enumerators = 19"
  by (simp add: dbr_enumerators_def)

lemma dbr_enumerator_index [simp]: "dbr_enumerators ! dbr_index r = r"
  by (cases r) (simp_all add: dbr_enumerators_def)

lemma dbr_index_bound: "dbr_index r < 19"
  by (cases r) simp_all

lemma dbr_index_inject: "dbr_index r = dbr_index s \<longleftrightarrow> r = s"
  by (metis dbr_enumerator_index)

lemma map_dbr_index: "map dbr_index dbr_enumerators = [0..<19]"
  by (simp add: dbr_enumerators_def upt_rec)

lemma dbr_index_enumerator [simp]: "i < 19 \<Longrightarrow> dbr_index (dbr_enumerators ! i) = i"
  using nth_map [of i dbr_enumerators dbr_index] by (simp add: map_dbr_index)

instantiation db_register :: linorder
begin

definition less_eq_db_register :: "db_register \<Rightarrow> db_register \<Rightarrow> bool" where
  "r \<le> s \<longleftrightarrow> dbr_index r \<le> dbr_index s"

definition less_db_register :: "db_register \<Rightarrow> db_register \<Rightarrow> bool" where
  "r < s \<longleftrightarrow> dbr_index r < dbr_index s"

instance
  by standard (auto simp: less_eq_db_register_def less_db_register_def dbr_index_inject)

end

section \<open>Names\<close>

definition gpr_names :: "string list" where
  "gpr_names =
    [''x0'', ''x1'', ''x2'', ''x3'', ''x4'', ''x5'', ''x6'', ''x7'',
     ''x8'', ''x9'', ''x10'', ''x11'', ''x12'', ''x13'', ''x14'', ''x15'',
     ''x16'', ''x17'', ''x18'', ''x19'', ''x20'', ''x21'', ''x22'', ''x23'',
     ''x24'', ''x25'', ''x26'', ''x27'', ''x28'', ''x29'', ''x30'', ''sp'',
     ''pc'', ''pstate'']"

definition fpr_names :: "string list" where
  "fpr_names =
    [''v0'', ''v1'', ''v2'', ''v3'', ''v4'', ''v5'', ''v6'', ''v7'',
     ''v8'', ''v9'', ''v10'', ''v11'', ''v12'', ''v13'', ''v14'', ''v15'',
     ''v16'', ''v17'', ''v18'', ''v19'', ''v20'', ''v21'', ''v22'', ''v23'',
     ''v24'', ''v25'', ''v26'', ''v27'', ''v28'', ''v29'', ''v30'', ''v31'',
     ''fpsr'', ''fpcr'']"

definition dbg_names :: "string list" where
  "dbg_names =
    [''dbg0'', ''dbg1'', ''dbg2'', ''dbg3'', ''dbg4'', ''dbg5'', ''dbg6'', ''dbg7'',
     ''dbg8'', ''dbg9'', ''dbg10'', ''dbg11'', ''dbg12'', ''dbg13'', ''dbg14'', ''dbg15'',
     ''dbg_info'']"

text \<open>The loop over a table of names, which compares C strings; no entry of the tables is null.\<close>

fun name_index :: "string list \<Rightarrow> string \<Rightarrow> nat option" where
  "name_index [] name = None"
| "name_index (n # ns) name = (if n = c_str name then Some 0 else map_option Suc (name_index ns name))"

definition gpr2str :: "gp_register \<Rightarrow> string" where
  "gpr2str reg = (if gpr_index reg < gpr_index GPR_MAX_REGISTERS then gpr_names ! gpr_index reg else ''unknown'')"

definition fpr2str :: "fp_register \<Rightarrow> string" where
  "fpr2str reg = (if fpr_index reg < fpr_index FPR_MAX_REGISTERS then fpr_names ! fpr_index reg else ''unknown'')"

definition dbg2str :: "db_register \<Rightarrow> string" where
  "dbg2str reg = (if dbr_index reg < dbr_index DBR_MAX_REGISTERS then dbg_names ! dbr_index reg else ''unknown'')"

definition str2gpr :: "string \<Rightarrow> gp_register" where
  "str2gpr name = (case name_index gpr_names name of Some i \<Rightarrow> gpr_enumerators ! i | None \<Rightarrow> GPR_INVALID)"

definition str2fpr :: "string \<Rightarrow> fp_register" where
  "str2fpr name = (case name_index fpr_names name of Some i \<Rightarrow> fpr_enumerators ! i | None \<Rightarrow> FPR_INVALID)"

definition str2dbg :: "string \<Rightarrow> db_register" where
  "str2dbg name = (case name_index dbg_names name of Some i \<Rightarrow> dbr_enumerators ! i | None \<Rightarrow> DBR_INVALID)"

lemma name_index_Some_iff:
  "distinct ns \<Longrightarrow> name_index ns name = Some i \<longleftrightarrow> i < length ns \<and> ns ! i = c_str name"
proof (induction ns arbitrary: i)
  case Nil
  then show ?case by simp
next
  case (Cons n ns)
  show ?case
  proof (cases "n = c_str name")
    case True
    then have "c_str name \<notin> set ns" using Cons.prems by simp
    with True show ?thesis by (cases i) (use nth_mem in fastforce)+
  next
    case False
    with Cons show ?thesis by (cases i) simp_all
  qed
qed

lemma name_index_None_iff: "name_index ns name = None \<longleftrightarrow> c_str name \<notin> set ns"
  by (induction ns) auto

locale name_table =
  fixes names :: "string list"
    and enumerator :: "nat \<Rightarrow> 'r"
    and index :: "'r \<Rightarrow> nat"
    and invalid :: 'r
    and to_str :: "'r \<Rightarrow> string"
    and of_str :: "string \<Rightarrow> 'r"
  assumes law_distinct: "distinct names"
    and law_c_str: "n \<in> set names \<Longrightarrow> c_str n = n"
    and law_index: "i < length names \<Longrightarrow> index (enumerator i) = i"
    and law_enumerator: "index r < length names \<Longrightarrow> enumerator (index r) = r"
    and law_invalid: "length names \<le> index invalid"
    and law_to_str: "to_str r = (if index r < length names then names ! index r else ''unknown'')"
    and law_of_str: "of_str s = (case name_index names s of Some i \<Rightarrow> enumerator i | None \<Rightarrow> invalid)"
begin

lemma of_to_str: "index r < length names \<Longrightarrow> of_str (to_str r) = r"
  using name_index_Some_iff [OF law_distinct, of "names ! index r" "index r"]
  by (simp add: law_to_str law_of_str law_c_str law_enumerator)

lemma to_of_str: "of_str s \<noteq> invalid \<Longrightarrow> to_str (of_str s) = c_str s"
  using name_index_Some_iff [OF law_distinct, of s]
  by (auto simp: law_to_str law_of_str law_index split: option.splits)

lemma of_str_invalid: "of_str s = invalid \<longleftrightarrow> c_str s \<notin> set names"
proof -
  have "enumerator i \<noteq> invalid" if "i < length names" for i
    using law_index [OF that] law_invalid that by auto
  then show ?thesis
    using name_index_Some_iff [OF law_distinct, of s]
    by (auto simp: law_of_str simp flip: name_index_None_iff split: option.splits)
qed

lemma of_str_bound: "of_str s \<noteq> invalid \<Longrightarrow> index (of_str s) < length names"
  using name_index_Some_iff [OF law_distinct, of s] by (auto simp: law_of_str law_index split: option.splits)

end

lemma gpr_names_facts:
  "length gpr_names = 34" "distinct gpr_names" "list_all (\<lambda>n. c_str n = n) gpr_names"
  by code_simp+

lemma fpr_names_facts:
  "length fpr_names = 34" "distinct fpr_names" "list_all (\<lambda>n. c_str n = n) fpr_names"
  by code_simp+

lemma dbg_names_facts:
  "length dbg_names = 17" "distinct dbg_names" "list_all (\<lambda>n. c_str n = n) dbg_names"
  by code_simp+

interpretation gpr_table: name_table gpr_names "(!) gpr_enumerators" gpr_index GPR_INVALID gpr2str str2gpr
  using gpr_names_facts by unfold_locales (simp_all add: list_all_iff gpr2str_def str2gpr_def)

interpretation fpr_table: name_table fpr_names "(!) fpr_enumerators" fpr_index FPR_INVALID fpr2str str2fpr
  using fpr_names_facts by unfold_locales (simp_all add: list_all_iff fpr2str_def str2fpr_def)

interpretation dbg_table: name_table dbg_names "(!) dbr_enumerators" dbr_index DBR_INVALID dbg2str str2dbg
  using dbg_names_facts by unfold_locales (simp_all add: list_all_iff dbg2str_def str2dbg_def)

end
