(* ===== verification/Register_Control.thy ===== *)
theory Register_Control
  imports Register_Names
begin

unbundle bit_operations_syntax

text \<open>
  \<open>Core::RegisterControl\<close> of \<open>src/register_control.hpp\<close> and \<open>src/register_control.cpp\<close>: the
  register sets of a stopped thread, read and written as a whole by ptrace and one register at a
  time through a pointer into the structure.  A pointer is a datatype that says which member it
  points to.  What the breakpoint manager uses of it is the locale \<open>debug_registers\<close>.
\<close>

section \<open>Pointers into the register sets\<close>

datatype gpr_pointer = Ptr_regs nat | Ptr_sp | Ptr_pc | Ptr_pstate

primrec gpr_load :: "user_pt_regs \<Rightarrow> gpr_pointer \<Rightarrow> u64" where
  "gpr_load regs (Ptr_regs i) = pt_regs regs ! i"
| "gpr_load regs Ptr_sp = pt_sp regs"
| "gpr_load regs Ptr_pc = pt_pc regs"
| "gpr_load regs Ptr_pstate = pt_pstate regs"

primrec gpr_store :: "gpr_pointer \<Rightarrow> u64 \<Rightarrow> user_pt_regs \<Rightarrow> user_pt_regs" where
  "gpr_store (Ptr_regs i) v regs = regs\<lparr>pt_regs := (pt_regs regs)[i := v]\<rparr>"
| "gpr_store Ptr_sp v regs = regs\<lparr>pt_sp := v\<rparr>"
| "gpr_store Ptr_pc v regs = regs\<lparr>pt_pc := v\<rparr>"
| "gpr_store Ptr_pstate v regs = regs\<lparr>pt_pstate := v\<rparr>"

definition get_gpr_pointer :: "gp_register \<Rightarrow> gpr_pointer option" where
  "get_gpr_pointer reg =
     (if X0 \<le> reg \<and> reg \<le> X30 then Some (Ptr_regs (gpr_index reg))
      else case reg of SP \<Rightarrow> Some Ptr_sp | PC \<Rightarrow> Some Ptr_pc | PSTATE \<Rightarrow> Some Ptr_pstate | _ \<Rightarrow> None)"

text \<open>\<open>std::variant<__uint128_t, uint32_t>\<close> and the variant of the pointers to them.\<close>

datatype fpr_value = Val128 u128 | Val32 u32

datatype fpr_pointer = Ptr128_vregs nat | Ptr32_fpsr | Ptr32_fpcr

primrec fpr_load :: "user_fpsimd_state \<Rightarrow> fpr_pointer \<Rightarrow> fpr_value" where
  "fpr_load fpr (Ptr128_vregs i) = Val128 (fp_vregs fpr ! i)"
| "fpr_load fpr Ptr32_fpsr = Val32 (fp_fpsr fpr)"
| "fpr_load fpr Ptr32_fpcr = Val32 (fp_fpcr fpr)"

text \<open>A store through the pointer; \<open>None\<close> where the alternatives of pointer and value differ.\<close>

fun fpr_store :: "fpr_pointer \<Rightarrow> fpr_value \<Rightarrow> user_fpsimd_state \<Rightarrow> user_fpsimd_state option" where
  "fpr_store (Ptr128_vregs i) (Val128 v) fpr = Some (fpr\<lparr>fp_vregs := (fp_vregs fpr)[i := v]\<rparr>)"
| "fpr_store Ptr32_fpsr (Val32 v) fpr = Some (fpr\<lparr>fp_fpsr := v\<rparr>)"
| "fpr_store Ptr32_fpcr (Val32 v) fpr = Some (fpr\<lparr>fp_fpcr := v\<rparr>)"
| "fpr_store _ _ fpr = None"

definition get_fpr_pointer :: "fp_register \<Rightarrow> fpr_pointer option" where
  "get_fpr_pointer reg =
     (if V0 \<le> reg \<and> reg \<le> V31 then Some (Ptr128_vregs (fpr_index reg))
      else case reg of FPCR \<Rightarrow> Some Ptr32_fpcr | FPSR \<Rightarrow> Some Ptr32_fpsr | _ \<Rightarrow> None)"

text \<open>The pair of pointers of a debug register; the address pointer of \<open>DBG_INFO\<close> is null.\<close>

datatype dbg_ctrl_pointer = Ptr_ctrl nat | Ptr_info

definition get_dbg_pointer :: "db_register \<Rightarrow> (nat option \<times> dbg_ctrl_pointer) option" where
  "get_dbg_pointer reg =
     (if DBG0 \<le> reg \<and> reg \<le> DBG15 then Some (Some (dbr_index reg), Ptr_ctrl (dbr_index reg))
      else case reg of DBG_INFO \<Rightarrow> Some (None, Ptr_info) | _ \<Rightarrow> None)"

primrec ctrl_load :: "user_hwdebug_state \<Rightarrow> dbg_ctrl_pointer \<Rightarrow> u32" where
  "ctrl_load dbg (Ptr_ctrl i) = snd (dbg_regs dbg ! i)"
| "ctrl_load dbg Ptr_info = dbg_info dbg"

primrec ctrl_store :: "dbg_ctrl_pointer \<Rightarrow> u32 \<Rightarrow> user_hwdebug_state \<Rightarrow> user_hwdebug_state" where
  "ctrl_store (Ptr_ctrl i) v dbg = dbg\<lparr>dbg_regs := (dbg_regs dbg)[i := (fst (dbg_regs dbg ! i), v)]\<rparr>"
| "ctrl_store Ptr_info v dbg = dbg\<lparr>dbg_info := v\<rparr>"

definition addr_store :: "nat \<Rightarrow> u64 \<Rightarrow> user_hwdebug_state \<Rightarrow> user_hwdebug_state" where
  "addr_store i v dbg = dbg\<lparr>dbg_regs := (dbg_regs dbg)[i := (v, snd (dbg_regs dbg ! i))]\<rparr>"

section \<open>Offsets\<close>

text \<open>Offsets of the AArch64 structures, as \<open>offsetof\<close> gives them.\<close>

definition get_gpr_offset :: "gp_register \<Rightarrow> u64 option" where
  "get_gpr_offset reg =
     (if X0 \<le> reg \<and> reg \<le> X30 then Some (of_nat (gpr_index reg * 8))
      else case reg of SP \<Rightarrow> Some 248 | PC \<Rightarrow> Some 256 | PSTATE \<Rightarrow> Some 264 | _ \<Rightarrow> None)"

definition get_fpr_offset :: "fp_register \<Rightarrow> u64 option" where
  "get_fpr_offset reg =
     (if V0 \<le> reg \<and> reg \<le> V31 then Some (of_nat (fpr_index reg * 16))
      else case reg of FPSR \<Rightarrow> Some 512 | FPCR \<Rightarrow> Some 516 | _ \<Rightarrow> None)"

section \<open>Whole register sets\<close>

text \<open>
  The caller passes a structure of the set it asks for, and the kernel fills that one: another set
  in a successful reply does not occur, and is read as no value.
\<close>

definition ptrace_get_regset :: "'w os \<Rightarrow> pid \<Rightarrow> register_type \<Rightarrow> 'w \<Rightarrow> bool \<times> regset option \<times> 'w" where
  "ptrace_get_regset os tid type w =
     (case ptrace_wrapper os (PTRACE_GETREGSET type) tid w of (ok, reply, w') \<Rightarrow> (ok, reply_regset reply, w'))"

definition ptrace_set_regset :: "'w os \<Rightarrow> pid \<Rightarrow> regset \<Rightarrow> register_type \<Rightarrow> 'w \<Rightarrow> bool \<times> 'w" where
  "ptrace_set_regset os tid data type w =
     (case ptrace_wrapper os (PTRACE_SETREGSET type data) tid w of (ok, reply, w') \<Rightarrow> (ok, w'))"

definition get_all_gpr :: "'w os \<Rightarrow> pid \<Rightarrow> 'w \<Rightarrow> user_pt_regs option \<times> 'w" where
  "get_all_gpr os tid w =
     (case ptrace_get_regset os tid RT_GPR w of
        (True, Some (Gpr_set regs), w') \<Rightarrow> (Some regs, w')
      | (_, _, w') \<Rightarrow> (None, w'))"

definition set_all_gpr :: "'w os \<Rightarrow> pid \<Rightarrow> user_pt_regs \<Rightarrow> 'w \<Rightarrow> bool \<times> 'w" where
  "set_all_gpr os tid regs w = ptrace_set_regset os tid (Gpr_set regs) RT_GPR w"

definition get_all_fpr :: "'w os \<Rightarrow> pid \<Rightarrow> 'w \<Rightarrow> user_fpsimd_state option \<times> 'w" where
  "get_all_fpr os tid w =
     (case ptrace_get_regset os tid RT_FPR w of
        (True, Some (Fpr_set fpr), w') \<Rightarrow> (Some fpr, w')
      | (_, _, w') \<Rightarrow> (None, w'))"

definition set_all_fpr :: "'w os \<Rightarrow> pid \<Rightarrow> user_fpsimd_state \<Rightarrow> 'w \<Rightarrow> bool \<times> 'w" where
  "set_all_fpr os tid fpr w = ptrace_set_regset os tid (Fpr_set fpr) RT_FPR w"

definition get_all_dbg :: "'w os \<Rightarrow> pid \<Rightarrow> 'w \<Rightarrow> user_hwdebug_state option \<times> 'w" where
  "get_all_dbg os tid w =
     (case ptrace_get_regset os tid RT_DBG w of
        (True, Some (Dbg_set dbg), w') \<Rightarrow> (Some dbg, w')
      | (_, _, w') \<Rightarrow> (None, w'))"

definition set_all_dbg :: "'w os \<Rightarrow> pid \<Rightarrow> user_hwdebug_state \<Rightarrow> 'w \<Rightarrow> bool \<times> 'w" where
  "set_all_dbg os tid dbg w = ptrace_set_regset os tid (Dbg_set dbg) RT_DBG w"

section \<open>Single registers\<close>

definition get_gpr :: "'w os \<Rightarrow> pid \<Rightarrow> gp_register \<Rightarrow> 'w \<Rightarrow> u64 option \<times> 'w" where
  "get_gpr os tid reg w =
     (case get_all_gpr os tid w of
        (None, w1) \<Rightarrow> (None, w1)
      | (Some gpr, w1) \<Rightarrow>
          (case get_gpr_pointer reg of None \<Rightarrow> (None, w1) | Some ptr \<Rightarrow> (Some (gpr_load gpr ptr), w1)))"

definition set_gpr :: "'w os \<Rightarrow> pid \<Rightarrow> gp_register \<Rightarrow> u64 \<Rightarrow> 'w \<Rightarrow> bool \<times> 'w" where
  "set_gpr os tid reg value w =
     (case get_all_gpr os tid w of
        (None, w1) \<Rightarrow> (False, w1)
      | (Some gpr, w1) \<Rightarrow>
          (case get_gpr_pointer reg of
             None \<Rightarrow> (False, w1)
           | Some ptr \<Rightarrow> set_all_gpr os tid (gpr_store ptr value gpr) w1))"

definition get_fpr :: "'w os \<Rightarrow> pid \<Rightarrow> fp_register \<Rightarrow> 'w \<Rightarrow> fpr_value option \<times> 'w" where
  "get_fpr os tid reg w =
     (case get_all_fpr os tid w of
        (None, w1) \<Rightarrow> (None, w1)
      | (Some fpr, w1) \<Rightarrow>
          (case get_fpr_pointer reg of None \<Rightarrow> (None, w1) | Some ptr \<Rightarrow> (Some (fpr_load fpr ptr), w1)))"

definition set_fpr :: "'w os \<Rightarrow> pid \<Rightarrow> fp_register \<Rightarrow> fpr_value \<Rightarrow> 'w \<Rightarrow> bool \<times> 'w" where
  "set_fpr os tid reg value w =
     (case get_all_fpr os tid w of
        (None, w1) \<Rightarrow> (False, w1)
      | (Some fpr, w1) \<Rightarrow>
          (case get_fpr_pointer reg of
             None \<Rightarrow> (False, w1)
           | Some ptr \<Rightarrow>
               (case fpr_store ptr value fpr of
                  None \<Rightarrow> (False, w1)
                | Some fpr' \<Rightarrow> set_all_fpr os tid fpr' w1)))"

definition get_dbg :: "'w os \<Rightarrow> pid \<Rightarrow> db_register \<Rightarrow> 'w \<Rightarrow> (u64 \<times> u32) option \<times> 'w" where
  "get_dbg os tid reg w =
     (case get_all_dbg os tid w of
        (None, w1) \<Rightarrow> (None, w1)
      | (Some dbg, w1) \<Rightarrow>
          (case get_dbg_pointer reg of
             None \<Rightarrow> (None, w1)
           | Some (Some i, ctrl) \<Rightarrow> (Some (fst (dbg_regs dbg ! i), ctrl_load dbg ctrl), w1)
           | Some (None, ctrl) \<Rightarrow> (Some (0, ctrl_load dbg ctrl), w1)))"

definition set_dbg :: "'w os \<Rightarrow> pid \<Rightarrow> db_register \<Rightarrow> u64 \<times> u32 \<Rightarrow> 'w \<Rightarrow> bool \<times> 'w" where
  "set_dbg os tid reg value w =
     (case get_all_dbg os tid w of
        (None, w1) \<Rightarrow> (False, w1)
      | (Some dbg, w1) \<Rightarrow>
          (case get_dbg_pointer reg of
             None \<Rightarrow> (False, w1)
           | Some (Some i, ctrl) \<Rightarrow>
               set_all_dbg os tid (ctrl_store ctrl (snd value) (addr_store i (fst value) dbg)) w1
           | Some (None, ctrl) \<Rightarrow> set_all_dbg os tid (ctrl_store ctrl (snd value) dbg) w1))"

section \<open>Facts\<close>

lemmas enum_le = less_eq_gp_register_def less_eq_fp_register_def less_eq_db_register_def

lemma get_gpr_pointer_iff:
  "get_gpr_pointer reg = Some ptr \<longleftrightarrow>
     (gpr_index reg < 31 \<and> ptr = Ptr_regs (gpr_index reg)) \<or> (reg = SP \<and> ptr = Ptr_sp)
     \<or> (reg = PC \<and> ptr = Ptr_pc) \<or> (reg = PSTATE \<and> ptr = Ptr_pstate)"
  by (cases reg) (auto simp: get_gpr_pointer_def enum_le)

lemma get_gpr_pointer_valid: "reg < GPR_MAX_REGISTERS \<Longrightarrow> \<exists>ptr. get_gpr_pointer reg = Some ptr"
  by (cases reg) (simp_all add: get_gpr_pointer_def enum_le less_gp_register_def)

lemma get_gpr_pointer_inj:
  "get_gpr_pointer r = Some p \<Longrightarrow> get_gpr_pointer s = Some p \<Longrightarrow> r = s"
  by (auto simp: get_gpr_pointer_iff gpr_index_inject)

lemma gpr_load_store:
  assumes "get_gpr_pointer reg = Some ptr" and "get_gpr_pointer reg' = Some ptr'"
    and "length (pt_regs regs) = 31"
  shows "gpr_load (gpr_store ptr v regs) ptr' = (if reg' = reg then v else gpr_load regs ptr')"
proof (cases "reg' = reg")
  case True
  with assms show ?thesis by (auto simp: get_gpr_pointer_iff)
next
  case False
  with assms have "ptr' \<noteq> ptr" by (auto dest: get_gpr_pointer_inj)
  with False show ?thesis by (cases ptr; cases ptr') auto
qed

lemma gpr_store_wf [simp]: "length (pt_regs (gpr_store ptr v regs)) = length (pt_regs regs)"
  by (cases ptr) simp_all

lemma get_fpr_pointer_iff:
  "get_fpr_pointer reg = Some ptr \<longleftrightarrow>
     (fpr_index reg < 32 \<and> ptr = Ptr128_vregs (fpr_index reg)) \<or> (reg = FPSR \<and> ptr = Ptr32_fpsr)
     \<or> (reg = FPCR \<and> ptr = Ptr32_fpcr)"
  by (cases reg) (auto simp: get_fpr_pointer_def enum_le)

lemma get_fpr_pointer_inj:
  "get_fpr_pointer r = Some p \<Longrightarrow> get_fpr_pointer s = Some p \<Longrightarrow> r = s"
  by (auto simp: get_fpr_pointer_iff fpr_index_inject)

lemma fpr_load_store:
  assumes "get_fpr_pointer reg = Some ptr" and "get_fpr_pointer reg' = Some ptr'"
    and "length (fp_vregs fpr) = 32" and "fpr_store ptr v fpr = Some fpr'"
  shows "fpr_load fpr' ptr' = (if reg' = reg then v else fpr_load fpr ptr')"
proof (cases "reg' = reg")
  case True
  with assms show ?thesis by (cases v) (auto simp: get_fpr_pointer_iff)
next
  case False
  with assms have "ptr' \<noteq> ptr" by (auto dest: get_fpr_pointer_inj)
  with assms(4) False show ?thesis by (cases ptr; cases ptr'; cases v) auto
qed

lemma fpr_store_wf: "fpr_store ptr v fpr = Some fpr' \<Longrightarrow> length (fp_vregs fpr') = length (fp_vregs fpr)"
  by (cases ptr; cases v) auto

lemma get_dbg_pointer_slot:
  "dbr_index reg < 16 \<Longrightarrow> get_dbg_pointer reg = Some (Some (dbr_index reg), Ptr_ctrl (dbr_index reg))"
  by (cases reg) (simp_all add: get_dbg_pointer_def enum_le)

lemma ptrace_get_regset_contract:
  assumes "regset_contract os view" and "ptrace_get_regset os tid t w = (ok, rs, w')"
  shows "view w' = view w" and "ok \<Longrightarrow> rs = regset_of (view w) t tid"
    and "k_stopped (view w) tid \<Longrightarrow> regset_of (view w) t tid \<noteq> None \<Longrightarrow> ok"
proof -
  obtain r where "os_ptrace os (PTRACE_GETREGSET t) tid w = (r, w')" "ok = reply_ok r" "rs = reply_regset r"
    using assms(2) by (auto simp: ptrace_get_regset_def ptrace_wrapper_def reply_ok_def split: prod.splits)
  with assms(1) show "view w' = view w" "ok \<Longrightarrow> rs = regset_of (view w) t tid"
    "k_stopped (view w) tid \<Longrightarrow> regset_of (view w) t tid \<noteq> None \<Longrightarrow> ok"
    unfolding regset_contract_def by blast+
qed

lemma ptrace_set_regset_contract:
  assumes "regset_contract os view" and "ptrace_set_regset os tid v (regset_type v) w = (ok, w')"
    and "regset_wf v"
  shows "regs_frame (view w) (view w')"
    and "ok \<Longrightarrow> view w' = put_regset tid v (view w)" and "k_stopped (view w) tid \<Longrightarrow> ok"
proof -
  obtain r where "os_ptrace os (PTRACE_SETREGSET (regset_type v) v) tid w = (r, w')" "ok = reply_ok r"
    using assms(2) by (auto simp: ptrace_set_regset_def ptrace_wrapper_def reply_ok_def split: prod.splits)
  with assms(1,3) show "regs_frame (view w) (view w')"
    "ok \<Longrightarrow> view w' = put_regset tid v (view w)" "k_stopped (view w) tid \<Longrightarrow> ok"
    unfolding regset_contract_def by blast+
qed

lemma get_all_gpr_contract:
  assumes "regset_contract os view" and "get_all_gpr os tid w = (r, w')"
  shows "view w' = view w" and "r = Some g \<Longrightarrow> g = k_gpr (view w) tid"
    and "k_stopped (view w) tid \<Longrightarrow> r = Some (k_gpr (view w) tid)"
proof -
  obtain ok rs w1 where c: "ptrace_get_regset os tid RT_GPR w = (ok, rs, w1)" by (metis prod_cases3)
  note f = ptrace_get_regset_contract [OF assms(1) c, unfolded regset_of_def register_type.case]
  show "view w' = view w" "r = Some g \<Longrightarrow> g = k_gpr (view w) tid"
    "k_stopped (view w) tid \<Longrightarrow> r = Some (k_gpr (view w) tid)"
    using assms(2) c f by (auto simp: get_all_gpr_def split: bool.splits option.splits regset.splits)
qed

lemma get_all_fpr_contract:
  assumes "regset_contract os view" and "get_all_fpr os tid w = (r, w')"
  shows "view w' = view w" and "r = Some g \<Longrightarrow> g = k_fpr (view w) tid"
    and "k_stopped (view w) tid \<Longrightarrow> r = Some (k_fpr (view w) tid)"
proof -
  obtain ok rs w1 where c: "ptrace_get_regset os tid RT_FPR w = (ok, rs, w1)" by (metis prod_cases3)
  note f = ptrace_get_regset_contract [OF assms(1) c, unfolded regset_of_def register_type.case]
  show "view w' = view w" "r = Some g \<Longrightarrow> g = k_fpr (view w) tid"
    "k_stopped (view w) tid \<Longrightarrow> r = Some (k_fpr (view w) tid)"
    using assms(2) c f by (auto simp: get_all_fpr_def split: bool.splits option.splits regset.splits)
qed

lemma get_all_dbg_contract:
  assumes "regset_contract os view" and "get_all_dbg os tid w = (r, w')"
  shows "view w' = view w" and "r = Some g \<Longrightarrow> g = k_dbg (view w) tid"
    and "k_stopped (view w) tid \<Longrightarrow> r = Some (k_dbg (view w) tid)"
proof -
  obtain ok rs w1 where c: "ptrace_get_regset os tid RT_DBG w = (ok, rs, w1)" by (metis prod_cases3)
  note f = ptrace_get_regset_contract [OF assms(1) c, unfolded regset_of_def register_type.case]
  show "view w' = view w" "r = Some g \<Longrightarrow> g = k_dbg (view w) tid"
    "k_stopped (view w) tid \<Longrightarrow> r = Some (k_dbg (view w) tid)"
    using assms(2) c f by (auto simp: get_all_dbg_def split: bool.splits option.splits regset.splits)
qed

lemma set_all_gpr_contract:
  assumes "regset_contract os view" and "set_all_gpr os tid g w = (ok, w')" and "length (pt_regs g) = 31"
  shows "regs_frame (view w) (view w')" and "ok \<Longrightarrow> view w' = put_regset tid (Gpr_set g) (view w)" and "k_stopped (view w) tid \<Longrightarrow> ok"
  using ptrace_set_regset_contract [OF assms(1), of tid "Gpr_set g" w ok w'] assms(2,3)
  unfolding set_all_gpr_def by simp_all

lemma set_all_fpr_contract:
  assumes "regset_contract os view" and "set_all_fpr os tid f w = (ok, w')" and "length (fp_vregs f) = 32"
  shows "regs_frame (view w) (view w')" and "ok \<Longrightarrow> view w' = put_regset tid (Fpr_set f) (view w)" and "k_stopped (view w) tid \<Longrightarrow> ok"
  using ptrace_set_regset_contract [OF assms(1), of tid "Fpr_set f" w ok w'] assms(2,3)
  unfolding set_all_fpr_def by simp_all

lemma set_all_dbg_contract:
  assumes "regset_contract os view" and "set_all_dbg os tid d w = (ok, w')" and "length (dbg_regs d) = 16"
  shows "regs_frame (view w) (view w')" and "ok \<Longrightarrow> view w' = put_dbg tid d (view w)" and "k_stopped (view w) tid \<Longrightarrow> ok"
  using ptrace_set_regset_contract [OF assms(1), of tid "Dbg_set d" w ok w'] assms(2,3)
  unfolding set_all_dbg_def by (simp_all add: put_regset_def)

section \<open>The debug registers as their users see them\<close>

definition dbg_slot :: "kstate \<Rightarrow> pid \<Rightarrow> nat \<Rightarrow> u64 \<times> u32" where
  "dbg_slot st tid i = dbg_regs (k_dbg st tid) ! i"

definition put_slot :: "pid \<Rightarrow> nat \<Rightarrow> u64 \<times> u32 \<Rightarrow> kstate \<Rightarrow> kstate" where
  "put_slot tid i v st = put_dbg tid ((k_dbg st tid)\<lparr>dbg_regs := (dbg_regs (k_dbg st tid))[i := v]\<rparr>) st"

lemma kstate_wf_dbg: "kstate_wf st \<Longrightarrow> length (dbg_regs (k_dbg st p)) = 16"
  by (simp add: kstate_wf_def)

lemma put_slot_simps [simp]:
  "k_space (put_slot p i v st) = k_space st" "k_mem (put_slot p i v st) = k_mem st"
  "k_mapped (put_slot p i v st) = k_mapped st" "k_readable (put_slot p i v st) = k_readable st"
  "k_writable (put_slot p i v st) = k_writable st" "k_stopped (put_slot p i v st) = k_stopped st"
  "k_gpr (put_slot p i v st) = k_gpr st" "k_fpr (put_slot p i v st) = k_fpr st"
  "k_dbg_slots (put_slot p i v st) = k_dbg_slots st"
  by (simp_all add: put_slot_def)

lemma dbg_slot_put_slot:
  assumes "kstate_wf st" and "j < 16"
  shows "dbg_slot (put_slot p i v st) p' j =
    (if p' = p \<and> j = i \<and> i < k_dbg_slots st then v else dbg_slot st p' j)"
  using assms kstate_wf_dbg [OF assms(1), of p]
  by (auto simp: dbg_slot_def put_slot_def put_dbg_def nth_append kstate_wf_def)

lemma kstate_wf_put_slot [simp]: "kstate_wf st \<Longrightarrow> kstate_wf (put_slot p i v st)"
  by (simp add: put_slot_def kstate_wf_dbg)

locale debug_registers =
  fixes contract :: "'w os \<Rightarrow> ('w \<Rightarrow> kstate) \<Rightarrow> bool"
    and get :: "'w os \<Rightarrow> pid \<Rightarrow> 'r \<Rightarrow> 'w \<Rightarrow> (u64 \<times> u32) option \<times> 'w"
    and set :: "'w os \<Rightarrow> pid \<Rightarrow> 'r \<Rightarrow> u64 \<times> u32 \<Rightarrow> 'w \<Rightarrow> bool \<times> 'w"
    and index :: "'r \<Rightarrow> nat"
  assumes law_get_view: "contract os view \<Longrightarrow> get os p r w = (y, w') \<Longrightarrow> view w' = view w"
    and law_get: "contract os view \<Longrightarrow> get os p r w = (Some x, w') \<Longrightarrow> index r < 16 \<Longrightarrow>
      x = dbg_slot (view w) p (index r)"
    and law_get_total: "contract os view \<Longrightarrow> get os p r w = (y, w') \<Longrightarrow> index r < 16 \<Longrightarrow>
      k_stopped (view w) p \<Longrightarrow> y \<noteq> None"
    and law_set_frame: "contract os view \<Longrightarrow> kstate_wf (view w) \<Longrightarrow> set os p r v w = (ok, w') \<Longrightarrow>
      regs_frame (view w) (view w')"
    and law_set: "contract os view \<Longrightarrow> kstate_wf (view w) \<Longrightarrow> set os p r v w = (True, w') \<Longrightarrow>
      index r < 16 \<Longrightarrow> view w' = put_slot p (index r) v (view w)"
    and law_set_total: "contract os view \<Longrightarrow> kstate_wf (view w) \<Longrightarrow> set os p r v w = (ok, w') \<Longrightarrow>
      index r < 16 \<Longrightarrow> k_stopped (view w) p \<Longrightarrow> ok"
begin

text \<open>What is set is what a later \<open>get\<close> returns, where the processor has the register.\<close>

lemma get_after_set:
  assumes "contract os view" and "kstate_wf (view w)" and "set os p r v w = (True, w1)"
    and "get os p r' w1 = (Some x, w2)" and "index r < k_dbg_slots (view w)" and "index r' < 16"
  shows "x = (if index r' = index r then v else dbg_slot (view w) p (index r'))"
proof -
  have "index r < 16" using assms(2,5) by (simp add: kstate_wf_def)
  then have "view w1 = put_slot p (index r) v (view w)"
    using law_set assms(1,2,3) by blast
  moreover have "x = dbg_slot (view w1) p (index r')"
    using law_get assms(1,4,6) by blast
  ultimately show ?thesis
    using assms(2,5,6) by (simp add: dbg_slot_put_slot)
qed

text \<open>A read-modify-write changes the one register of the one thread, and no memory.\<close>

lemma modify:
  assumes "contract os view" and "kstate_wf (view w)" and "get os p r w = (Some x, w1)"
    and "set os p r (f x) w1 = (True, w2)" and "index r < 16"
  shows "view w2 = put_slot p (index r) (f (dbg_slot (view w) p (index r))) (view w)"
proof -
  have "view w1 = view w" "x = dbg_slot (view w) p (index r)"
    using law_get_view law_get assms(1,3,5) by blast+
  with law_set [OF assms(1) _ assms(4,5)] assms(2) show ?thesis by simp
qed

lemma get_then_set_frame:
  assumes "contract os view" and "kstate_wf (view w)" and "get os p r w = (x, w1)"
    and "set os p r v w1 = (ok, w2)"
  shows "regs_frame (view w) (view w2)"
  using law_set_frame [OF assms(1) _ assms(4)] law_get_view [OF assms(1,3)] assms(2) by simp

end

lemma get_dbg_cases:
  "dbr_index reg < 16 \<Longrightarrow> get_dbg os tid reg w =
     (case get_all_dbg os tid w of (None, w1) \<Rightarrow> (None, w1)
      | (Some d, w1) \<Rightarrow> (Some (dbg_regs d ! dbr_index reg), w1))"
  by (auto simp: get_dbg_def get_dbg_pointer_slot split: prod.splits option.splits)

lemma set_dbg_cases:
  "dbr_index reg < 16 \<Longrightarrow> set_dbg os tid reg v w =
     (case get_all_dbg os tid w of (None, w1) \<Rightarrow> (False, w1)
      | (Some d, w1) \<Rightarrow>
          set_all_dbg os tid (d\<lparr>dbg_regs := (dbg_regs d)[dbr_index reg := v]\<rparr>) w1)"
  by (cases "dbr_index reg < length (dbg_regs (the (fst (get_all_dbg os tid w))))")
    (auto simp: set_dbg_def get_dbg_pointer_slot addr_store_def list_update_beyond not_less
      split: prod.splits option.splits)

lemma get_dbg_view:
  assumes "regset_contract os view" and "get_dbg os tid reg w = (x, w')"
  shows "view w' = view w"
  using assms get_all_dbg_contract(1) [OF assms(1)]
  by (auto simp: get_dbg_def split: prod.splits option.splits)

lemma set_dbg_frame:
  assumes "regset_contract os view" and "kstate_wf (view w)" and "set_dbg os tid reg v w = (ok, w')"
  shows "regs_frame (view w) (view w')"
proof -
  obtain r w1 where g: "get_all_dbg os tid w = (r, w1)" by (metis prod.exhaust)
  note c = get_all_dbg_contract [OF assms(1) g]
  show ?thesis
  proof (cases "r = None \<or> get_dbg_pointer reg = None")
    case True
    with assms(3) g c(1) show ?thesis by (auto simp: set_dbg_def split: option.splits)
  next
    case False
    then obtain d where d: "r = Some d" "length (dbg_regs d) = 16"
      using c(2) kstate_wf_dbg [OF assms(2), of tid] by (cases r) auto
    obtain d' where "set_all_dbg os tid d' w1 = (ok, w')" "length (dbg_regs d') = 16"
    proof -
      obtain i ctrl where p: "get_dbg_pointer reg = Some (i, ctrl)" using False by auto
      have l: "length (dbg_regs (ctrl_store ctrl x e)) = length (dbg_regs e)" for x e
        by (cases ctrl) simp_all
      show ?thesis
        using that assms(3) g d p by (cases i) (auto simp: set_dbg_def l addr_store_def)
    qed
    then show ?thesis using set_all_dbg_contract(1) [OF assms(1)] c(1) by metis
  qed
qed

interpretation dr: debug_registers regset_contract get_dbg set_dbg dbr_index
proof unfold_locales
  fix os :: "'w os" and view p r w
  assume C: "regset_contract os view"
  obtain g w1 where g: "get_all_dbg os p w = (g, w1)" by (metis prod.exhaust)
  note c = get_all_dbg_contract [OF C g]
  show "view w' = view w" if "get_dbg os p r w = (x, w')" for x w'
    by (rule get_dbg_view [OF C that])
  show "x = dbg_slot (view w) p (dbr_index r)" if "get_dbg os p r w = (Some x, w')" "dbr_index r < 16" for x w'
    using that(1) g c(2) by (cases g) (auto simp: get_dbg_cases [OF that(2)] dbg_slot_def)
  show "x \<noteq> None" if "get_dbg os p r w = (x, w')" "dbr_index r < 16" "k_stopped (view w) p" for x w'
    using that(1) g c(3) [OF that(3)] by (auto simp: get_dbg_cases [OF that(2)])
  assume wf: "kstate_wf (view w)"
  show "regs_frame (view w) (view w')" if "set_dbg os p r v w = (ok, w')" for v ok w'
    by (rule set_dbg_frame [OF C wf that])
  have len: "length (dbg_regs (k_dbg (view w) p)) = 16" using wf by (rule kstate_wf_dbg)
  show "view w' = put_slot p (dbr_index r) v (view w)"
    if "set_dbg os p r v w = (True, w')" "dbr_index r < 16" for v w'
  proof (cases g)
    case None
    with that(1) g show ?thesis by (simp add: set_dbg_cases [OF that(2)])
  next
    case (Some d)
    with that(1) g c(2) have
        "set_all_dbg os p (k_dbg (view w) p\<lparr>dbg_regs := (dbg_regs (k_dbg (view w) p))[dbr_index r := v]\<rparr>) w1
          = (True, w')"
      by (simp add: set_dbg_cases [OF that(2)])
    from set_all_dbg_contract(2) [OF C this] show ?thesis
      by (simp add: put_slot_def len c(1))
  qed
  show ok if "set_dbg os p r v w = (ok, w')" "dbr_index r < 16" "k_stopped (view w) p" for v ok w'
  proof -
    have "set_all_dbg os p (k_dbg (view w) p\<lparr>dbg_regs := (dbg_regs (k_dbg (view w) p))[dbr_index r := v]\<rparr>) w1
          = (ok, w')"
      using that(1) g c(3) [OF that(3)] by (simp add: set_dbg_cases [OF that(2)])
    from set_all_dbg_contract(3) [OF C this] show ?thesis
      by (simp add: len c(1) that(3))
  qed
qed

section \<open>Properties\<close>

lemma get_gpr_stopped:
  assumes "regset_contract os view" and "k_stopped (view w) tid" and "get_gpr_pointer reg = Some ptr"
    and "get_gpr os tid reg w = (x, w')"
  shows "x = Some (gpr_load (k_gpr (view w) tid) ptr) \<and> view w' = view w"
proof -
  obtain r w1 where g: "get_all_gpr os tid w = (r, w1)" by (metis prod.exhaust)
  show ?thesis
    using get_all_gpr_contract(1,3) [OF assms(1) g] assms g by (simp add: get_gpr_def)
qed

lemma set_gpr_stopped:
  assumes "regset_contract os view" and "kstate_wf (view w)" and "k_stopped (view w) tid"
    and "get_gpr_pointer reg = Some ptr" and "set_gpr os tid reg v w = (ok, w')"
  shows "ok \<and> view w' = put_regset tid (Gpr_set (gpr_store ptr v (k_gpr (view w) tid))) (view w)"
proof -
  obtain r w1 where g: "get_all_gpr os tid w = (r, w1)" by (metis prod.exhaust)
  note c = get_all_gpr_contract(1,3) [OF assms(1) g]
  have "set_all_gpr os tid (gpr_store ptr v (k_gpr (view w) tid)) w1 = (ok, w')"
    using assms(4,5) g c(2) [OF assms(3)] by (simp add: set_gpr_def)
  from set_all_gpr_contract(2,3) [OF assms(1) this] show ?thesis
    using assms(2,3) c(1) by (simp add: kstate_wf_def)
qed

lemma get_fpr_stopped:
  assumes "regset_contract os view" and "k_stopped (view w) tid" and "get_fpr_pointer reg = Some ptr"
    and "get_fpr os tid reg w = (x, w')"
  shows "x = Some (fpr_load (k_fpr (view w) tid) ptr) \<and> view w' = view w"
proof -
  obtain r w1 where g: "get_all_fpr os tid w = (r, w1)" by (metis prod.exhaust)
  show ?thesis
    using get_all_fpr_contract(1,3) [OF assms(1) g] assms g by (simp add: get_fpr_def)
qed

lemma set_fpr_stopped:
  assumes "regset_contract os view" and "kstate_wf (view w)" and "k_stopped (view w) tid"
    and "get_fpr_pointer reg = Some ptr" and "set_fpr os tid reg v w = (ok, w')"
  shows "case fpr_store ptr v (k_fpr (view w) tid) of
      None \<Rightarrow> \<not> ok \<and> view w' = view w
    | Some f \<Rightarrow> ok \<and> view w' = put_regset tid (Fpr_set f) (view w)"
proof -
  obtain r w1 where g: "get_all_fpr os tid w = (r, w1)" by (metis prod.exhaust)
  note c = get_all_fpr_contract(1,3) [OF assms(1) g]
  show ?thesis
  proof (cases "fpr_store ptr v (k_fpr (view w) tid)")
    case None
    with assms(4,5) g c(1) c(2) [OF assms(3)] show ?thesis by (simp add: set_fpr_def)
  next
    case (Some f)
    with assms(4,5) g c(2) [OF assms(3)] have s: "set_all_fpr os tid f w1 = (ok, w')"
      by (simp add: set_fpr_def)
    have "length (fp_vregs f) = 32" using fpr_store_wf [OF Some] assms(2) by (simp add: kstate_wf_def)
    with set_all_fpr_contract(2,3) [OF assms(1) s] Some assms(3) c(1) show ?thesis by simp
  qed
qed

lemma put_regset_frame [simp]:
  "k_mem (put_regset p v st) = k_mem st" "k_stopped (put_regset p v st) = k_stopped st"
  "k_gpr (put_regset p (Gpr_set g) st) = (k_gpr st)(p := g)"
  "k_fpr (put_regset p (Gpr_set g) st) = k_fpr st" "k_dbg (put_regset p (Gpr_set g) st) = k_dbg st"
  "k_fpr (put_regset p (Fpr_set f) st) = (k_fpr st)(p := f)"
  "k_gpr (put_regset p (Fpr_set f) st) = k_gpr st" "k_dbg (put_regset p (Fpr_set f) st) = k_dbg st"
  by (cases v; simp add: put_regset_def)+

text \<open>
  Writing a general purpose register of a stopped thread succeeds and a later read gives the
  written value for that register and the old one for every other register; the other threads'
  registers, the other register sets and the memory are as before.
\<close>

theorem set_gpr_get_gpr:
  assumes "regset_contract os view" and "kstate_wf (view w)" and "k_stopped (view w) tid"
    and "reg < GPR_MAX_REGISTERS" and "reg' < GPR_MAX_REGISTERS"
    and "set_gpr os tid reg v w = (ok, w1)" and "get_gpr os tid reg' w1 = (x, w2)"
  shows "ok \<and> x = (if reg' = reg then Some v else fst (get_gpr os tid reg' w))
    \<and> (\<forall>t. t \<noteq> tid \<longrightarrow> k_gpr (view w2) t = k_gpr (view w) t)
    \<and> k_fpr (view w2) = k_fpr (view w) \<and> k_dbg (view w2) = k_dbg (view w)
    \<and> k_mem (view w2) = k_mem (view w)"
proof -
  obtain ptr ptr' where p: "get_gpr_pointer reg = Some ptr" "get_gpr_pointer reg' = Some ptr'"
    using get_gpr_pointer_valid assms(4,5) by blast
  obtain y w3 where old: "get_gpr os tid reg' w = (y, w3)" by (metis prod.exhaust)
  have s: "ok \<and> view w1 = put_regset tid (Gpr_set (gpr_store ptr v (k_gpr (view w) tid))) (view w)"
    by (rule set_gpr_stopped [OF assms(1-3) p(1) assms(6)])
  then have "k_stopped (view w1) tid" using assms(3) by simp
  note g = get_gpr_stopped [OF assms(1) this p(2) assms(7)]
  note o = get_gpr_stopped [OF assms(1,3) p(2) old]
  show ?thesis
    using s g o old assms(2) gpr_load_store [OF p] by (simp add: kstate_wf_def)
qed

theorem set_gpr_get_gpr_witness:
  "fst (set_gpr sim_os 100 PC 0x1000 demo_kernel)
   \<and> fst (get_gpr sim_os 100 PC (snd (set_gpr sim_os 100 PC 0x1000 demo_kernel))) = Some 0x1000"
  using set_gpr_get_gpr [OF sim_regset_contract, of demo_kernel 100 PC PC "0x1000"
      "fst (set_gpr sim_os 100 PC 0x1000 demo_kernel)" "snd (set_gpr sim_os 100 PC 0x1000 demo_kernel)"
      "fst (get_gpr sim_os 100 PC (snd (set_gpr sim_os 100 PC 0x1000 demo_kernel)))"
      "snd (get_gpr sim_os 100 PC (snd (set_gpr sim_os 100 PC 0x1000 demo_kernel)))"]
    demo_kernel_wf
  by (simp add: less_gp_register_def demo_kernel_def)

text \<open>
  Writing a floating point register of a stopped thread: with a value of the register's width it
  succeeds and a later read gives that value, every other register keeping its own; with a value of
  the other width it fails and nothing changes.
\<close>

theorem set_fpr_get_fpr:
  assumes "regset_contract os view" and "kstate_wf (view w)" and "k_stopped (view w) tid"
    and "get_fpr_pointer reg = Some ptr" and "get_fpr_pointer reg' = Some ptr'"
    and "set_fpr os tid reg v w = (ok, w1)" and "get_fpr os tid reg' w1 = (x, w2)"
  shows "(case (reg \<le> V31, v) of (True, Val128 _) \<Rightarrow> ok | (False, Val32 _) \<Rightarrow> ok | _ \<Rightarrow> \<not> ok)
    \<and> x = (if ok \<and> reg' = reg then Some v else fst (get_fpr os tid reg' w))
    \<and> (\<not> ok \<longrightarrow> view w2 = view w)
    \<and> k_gpr (view w2) = k_gpr (view w) \<and> k_mem (view w2) = k_mem (view w)"
proof -
  obtain y w3 where old: "get_fpr os tid reg' w = (y, w3)" by (metis prod.exhaust)
  note s = set_fpr_stopped [OF assms(1-4,6)]
  have w1: "k_stopped (view w1) tid" using s assms(3) by (simp split: option.splits)
  note g = get_fpr_stopped [OF assms(1) w1 assms(5,7)]
  note o = get_fpr_stopped [OF assms(1,3,5) old]
  have t: "(case (reg \<le> V31, v) of (True, Val128 _) \<Rightarrow> True | (False, Val32 _) \<Rightarrow> True | _ \<Rightarrow> False)
      = (fpr_store ptr v (k_fpr (view w) tid) \<noteq> None)"
    using assms(4) by (cases v) (auto simp: get_fpr_pointer_iff enum_le)
  have len: "length (fp_vregs (k_fpr (view w) tid)) = 32" using assms(2) by (simp add: kstate_wf_def)
  show ?thesis
  proof (cases "fpr_store ptr v (k_fpr (view w) tid)")
    case None
    with s g o old t show ?thesis by (cases v) (auto split: bool.splits)
  next
    case (Some f)
    with s g o old t fpr_load_store [OF assms(4,5) len Some] show ?thesis
      by (cases v) (auto split: bool.splits)
  qed
qed

theorem set_fpr_get_fpr_witness:
  "fst (get_fpr sim_os 101 FPCR (snd (set_fpr sim_os 101 FPCR (Val32 7) demo_kernel))) = Some (Val32 7)"
  using set_fpr_get_fpr [OF sim_regset_contract, of demo_kernel 101 FPCR Ptr32_fpcr FPCR Ptr32_fpcr "Val32 7"
      "fst (set_fpr sim_os 101 FPCR (Val32 7) demo_kernel)" "snd (set_fpr sim_os 101 FPCR (Val32 7) demo_kernel)"
      "fst (get_fpr sim_os 101 FPCR (snd (set_fpr sim_os 101 FPCR (Val32 7) demo_kernel)))"
      "snd (get_fpr sim_os 101 FPCR (snd (set_fpr sim_os 101 FPCR (Val32 7) demo_kernel)))"]
    demo_kernel_wf
  by (simp add: enum_le demo_kernel_def get_fpr_pointer_def)

text \<open>
  Writing a debug register pair of a stopped thread succeeds; a later read of any pair gives the
  written values where the processor has the register and the old ones elsewhere, and no memory,
  other register set or other thread is touched.
\<close>

theorem set_dbg_get_dbg:
  assumes "regset_contract os view" and "kstate_wf (view w)" and "k_stopped (view w) tid"
    and "dbr_index reg < 16" and "dbr_index reg' < 16"
    and "set_dbg os tid reg v w = (ok, w1)" and "get_dbg os tid reg' w1 = (x, w2)"
  shows "ok \<and> x = (if reg' = reg \<and> dbr_index reg < k_dbg_slots (view w) then Some v
                else fst (get_dbg os tid reg' w))
    \<and> k_mem (view w2) = k_mem (view w) \<and> k_gpr (view w2) = k_gpr (view w)
    \<and> (\<forall>t. t \<noteq> tid \<longrightarrow> k_dbg (view w2) t = k_dbg (view w) t)"
proof -
  obtain y w3 where old: "get_dbg os tid reg' w = (y, w3)" by (metis prod.exhaust)
  have ok: ok by (rule dr.law_set_total [OF assms(1,2,6,4,3)])
  with assms(6) have "set_dbg os tid reg v w = (True, w1)" by simp
  from dr.law_set [OF assms(1,2) this assms(4)]
  have w1: "view w1 = put_slot tid (dbr_index reg) v (view w)" .
  have st: "k_stopped (view w1) tid" using w1 assms(3) by simp
  have y: "y = Some (dbg_slot (view w) tid (dbr_index reg'))"
    using dr.law_get_total [OF assms(1) old assms(5,3)] dr.law_get [OF assms(1) _ assms(5)] old by auto
  have x: "x = Some (dbg_slot (view w1) tid (dbr_index reg'))"
    using dr.law_get_total [OF assms(1,7,5) st] dr.law_get [OF assms(1) _ assms(5)] assms(7) by auto
  have w2: "view w2 = view w1" using dr.law_get_view [OF assms(1,7)] .
  show ?thesis
    using ok x y old w1 w2 dbg_slot_put_slot [OF assms(2,5), of tid "dbr_index reg" v tid]
    by (auto simp: dbr_index_inject put_slot_def put_dbg_def)
qed

theorem set_dbg_get_dbg_witness:
  "fst (get_dbg sim_os 100 DBG3 (snd (set_dbg sim_os 100 DBG3 (0x1000, 0x41) demo_kernel))) = Some (0x1000, 0x41)
   \<and> fst (get_dbg sim_os 100 DBG4 (snd (set_dbg sim_os 100 DBG4 (0x1000, 0x41) demo_kernel))) = Some (0, 0)"
  using set_dbg_get_dbg [OF sim_regset_contract, of demo_kernel 100 DBG3 DBG3 "(0x1000, 0x41)"
      "fst (set_dbg sim_os 100 DBG3 (0x1000, 0x41) demo_kernel)" "snd (set_dbg sim_os 100 DBG3 (0x1000, 0x41) demo_kernel)"
      "fst (get_dbg sim_os 100 DBG3 (snd (set_dbg sim_os 100 DBG3 (0x1000, 0x41) demo_kernel)))"
      "snd (get_dbg sim_os 100 DBG3 (snd (set_dbg sim_os 100 DBG3 (0x1000, 0x41) demo_kernel)))"]
    set_dbg_get_dbg [OF sim_regset_contract, of demo_kernel 100 DBG4 DBG4 "(0x1000, 0x41)"
      "fst (set_dbg sim_os 100 DBG4 (0x1000, 0x41) demo_kernel)" "snd (set_dbg sim_os 100 DBG4 (0x1000, 0x41) demo_kernel)"
      "fst (get_dbg sim_os 100 DBG4 (snd (set_dbg sim_os 100 DBG4 (0x1000, 0x41) demo_kernel)))"
      "snd (get_dbg sim_os 100 DBG4 (snd (set_dbg sim_os 100 DBG4 (0x1000, 0x41) demo_kernel)))"]
    demo_kernel_wf
  by (simp add: demo_kernel_def get_dbg_cases get_all_dbg_def ptrace_get_regset_def
      ptrace_wrapper_def regset_of_def zero_dbg_def reply_word_def)

text \<open>
  C39: The tables of register names: a register that can be accessed is found again from its printed
  name, and a name is taken for the invalid register exactly when its C string is in no table.
\<close>

theorem register_names_roundtrip:
  "(gpr_index g < 34 \<longrightarrow> str2gpr (gpr2str g) = g)
   \<and> (fpr_index f < 34 \<longrightarrow> str2fpr (fpr2str f) = f)
   \<and> (dbr_index d < 17 \<longrightarrow> str2dbg (dbg2str d) = d)
   \<and> (str2gpr s = GPR_INVALID \<longleftrightarrow> c_str s \<notin> set gpr_names)
   \<and> (str2fpr s = FPR_INVALID \<longleftrightarrow> c_str s \<notin> set fpr_names)
   \<and> (str2dbg s = DBR_INVALID \<longleftrightarrow> c_str s \<notin> set dbg_names)"
  using gpr_table.of_to_str [of g] fpr_table.of_to_str [of f] dbg_table.of_to_str [of d]
    gpr_table.of_str_invalid [of s] fpr_table.of_str_invalid [of s] dbg_table.of_str_invalid [of s]
  by (simp add: gpr_names_facts fpr_names_facts dbg_names_facts)

theorem register_names_roundtrip_witness: "str2gpr (gpr2str PC) = PC \<and> str2fpr (fpr2str FPCR) = FPCR"
  using register_names_roundtrip [of PC FPCR DBG0 "[]"] by simp

text \<open>A register has an offset in its structure exactly when it has a pointer into it.\<close>

lemma register_offsets:
  "(get_gpr_offset g = None) = (get_gpr_pointer g = None)"
  "(get_fpr_offset f = None) = (get_fpr_pointer f = None)"
  by (cases g, simp_all add: get_gpr_offset_def get_gpr_pointer_def enum_le)
    (cases f, simp_all add: get_fpr_offset_def get_fpr_pointer_def enum_le)

end
