(* ===== verification/Json_Status.thy ===== *)
theory Json_Status
  imports Andbg_Prelude
begin

text \<open>
  The values the parts of the program exchange: JSON documents (the data model of
  \<open>nlohmann::json\<close>) and \<open>Base::Status\<close> of \<open>src/status.hpp\<close>.  The text of a status message is
  made by the \<open>fmt\<close> and JSON libraries, so a message is kept as what they are given: the
  literal, by an English gloss, or the document; the renderer is a parameter where text matters.
  A call \<open>success("...")\<close> without arguments resolves to the overload for JSON, which is no template, so
  that its literal becomes a JSON string; with arguments, and for \<open>fail\<close>, it is a format.
\<close>

section \<open>JSON documents\<close>

text \<open>
  Objects keep their members in the order of iteration.  A floating point number is kept by its
  integral part, which is all the program reads of one.
\<close>

datatype json =
    JNull
  | JBool bool
  | JInt int
  | JFloat int
  | JString string
  | JArray "json list"
  | JObject "(string \<times> json) list"

fun json_member :: "json \<Rightarrow> string \<Rightarrow> json option" where
  "json_member (JObject ms) k = map_of ms k"
| "json_member _ k = None"

definition json_contains :: "json \<Rightarrow> string \<Rightarrow> bool" where
  "json_contains j k \<longleftrightarrow> json_member j k \<noteq> None"

fun is_number :: "json \<Rightarrow> bool" where
  "is_number (JInt _) = True"
| "is_number (JFloat _) = True"
| "is_number _ = False"

fun is_string :: "json \<Rightarrow> bool" where
  "is_string (JString _) = True"
| "is_string _ = False"

section \<open>Status\<close>

datatype status_type = SUCCESS | FAIL

datatype message =
    Note string          \<comment> \<open>a format literal, by its gloss, with its arguments left to the library\<close>
  | Plain string         \<comment> \<open>the text itself\<close>
  | Dumped json          \<comment> \<open>\<open>json.dump()\<close>\<close>

record status =
  m_type :: status_type
  m_string :: message

definition status_fail :: "message \<Rightarrow> status" where
  "status_fail msg = \<lparr>m_type = FAIL, m_string = msg\<rparr>"

definition status_success :: "message \<Rightarrow> status" where
  "status_success msg = \<lparr>m_type = SUCCESS, m_string = msg\<rparr>"

definition is_success :: "status \<Rightarrow> bool" where
  "is_success s \<longleftrightarrow> m_type s = SUCCESS"

definition is_fail :: "status \<Rightarrow> bool" where
  "is_fail s \<longleftrightarrow> m_type s = FAIL"

definition status_to_string :: "(message \<Rightarrow> string) \<Rightarrow> status \<Rightarrow> string" where
  "status_to_string render s =
     (if is_success s then ''success| '' else ''fail| '') @ render (m_string s)"

lemma is_success_simps [simp]:
  "is_success (status_success m)" "\<not> is_success (status_fail m)"
  "is_fail (status_fail m)" "\<not> is_fail (status_success m)"
  by (simp_all add: is_success_def is_fail_def status_fail_def status_success_def)

lemma not_is_success [simp]: "(\<not> is_success s) = is_fail s"
  by (cases "m_type s") (simp_all add: is_success_def is_fail_def)

lemma not_is_fail [simp]: "(\<not> is_fail s) = is_success s"
  by (cases "m_type s") (simp_all add: is_success_def is_fail_def)

end
