(* ===== verification/Breakpoint_Manager.thy ===== *)
theory Breakpoint_Manager
  imports Memory_Control Register_Control Json_Status
begin

unbundle bit_operations_syntax

text \<open>
  \<open>Core::BreakpointManager\<close> of \<open>src/breakpoint_manager.hpp\<close> and \<open>src/breakpoint_manager.cpp\<close>:
  software breakpoints, which replace an instruction of the tracee by \<open>BRK\<close>, and hardware
  breakpoints, which take a debug register.  Every operation takes and returns the manager's
  members and the world; \<open>Inl\<close> is an exception.  The invariant \<open>bm_wf\<close> and the properties that
  hold whatever the kernel answers are at the end of this theory; what the operations do to the
  tracee's memory and registers is in \<open>Breakpoint_Effects\<close>.
\<close>

section \<open>Breakpoints\<close>

datatype breakpoint_type = SOFTWARE | HARDWARE_EXECUTION | HARDWARE_WRITE | HARDWARE_READWRITE

record breakpoint =
  bp_id :: int
  bp_tid :: pid
  bp_address :: u64
  bp_type :: breakpoint_type
  bp_enabled :: bool
  original_instruction :: u32
  hardware_register :: db_register

definition BRK_OPCODE :: u32 where
  "BRK_OPCODE = 0xD4200000"

definition make_breakpoint :: "int \<Rightarrow> pid \<Rightarrow> u64 \<Rightarrow> breakpoint_type \<Rightarrow> cxx_error + breakpoint" where
  "make_breakpoint bid tid address type =
     (if tid < 1 then Inl Invalid_argument
      else if address AND 3 \<noteq> 0 then Inl Invalid_argument
      else Inr \<lparr>bp_id = bid, bp_tid = tid, bp_address = address, bp_type = type, bp_enabled = False,
        original_instruction = 0, hardware_register = DBR_INVALID\<rparr>)"

definition same_breakpoint :: "breakpoint \<Rightarrow> breakpoint \<Rightarrow> bool" where
  "same_breakpoint b other \<longleftrightarrow> bp_id b = bp_id other"

section \<open>The manager\<close>

record breakpoint_manager =
  m_breakpoints :: "(int, breakpoint) umap"
  m_tid_breakpoints_map :: "(pid, int uset) umap"
  m_address_breakpoint_map :: "(u64, int) umap"
  m_free_hardware_registers :: "(pid, db_register uset) umap"
  m_hardware_registers_count :: "(pid, int) umap"
  m_next_breakpoint_id :: int

definition BreakpointManager :: breakpoint_manager where
  "BreakpointManager = \<lparr>m_breakpoints = um_empty, m_tid_breakpoints_map = um_empty,
     m_address_breakpoint_map = um_empty, m_free_hardware_registers = um_empty,
     m_hardware_registers_count = um_empty, m_next_breakpoint_id = 1\<rparr>"

definition DBGBCR_ENABLE :: u64 where "DBGBCR_ENABLE = 1"
definition DBGBCR_TYPE_EXECUTION :: u64 where "DBGBCR_TYPE_EXECUTION = 0"
definition DBGBCR_TYPE_WRITE :: u64 where "DBGBCR_TYPE_WRITE = push_bit 1 1"
definition DBGBCR_TYPE_READWRITE :: u64 where "DBGBCR_TYPE_READWRITE = push_bit 1 2"
definition DBGBCR_EL0 :: u64 where "DBGBCR_EL0 = push_bit 6 1"
definition DBGBCR_MATCH_FULL :: u64 where "DBGBCR_MATCH_FULL = 0"

definition INT_MAX :: int where "INT_MAX = 2 ^ 31 - 1"

text \<open>
  The identifier is taken before the constructor can throw.  \<open>m_next_breakpoint_id_++\<close> at the
  largest \<open>int\<close> is a signed overflow.
\<close>

definition new_breakpoint ::
  "pid \<Rightarrow> u64 \<Rightarrow> breakpoint_type \<Rightarrow> u32 \<Rightarrow> breakpoint_manager \<Rightarrow> (cxx_error + int) \<times> breakpoint_manager" where
  "new_breakpoint tid address type instruction m =
     (if m_next_breakpoint_id m = INT_MAX then (Inl Undefined_behaviour, m) else
      let breakpoint_id = m_next_breakpoint_id m;
          m1 = m\<lparr>m_next_breakpoint_id := breakpoint_id + 1\<rparr>
      in case make_breakpoint breakpoint_id tid address type of
           Inl e \<Rightarrow> (Inl e, m1)
         | Inr b \<Rightarrow>
             (let b' = b\<lparr>bp_enabled := True, original_instruction := instruction\<rparr> in
              (Inr breakpoint_id,
               m1\<lparr>m_breakpoints := um_emplace breakpoint_id b' (m_breakpoints m1),
                  m_tid_breakpoints_map := um_assign tid
                    (us_insert breakpoint_id (um_get [] (m_tid_breakpoints_map m1) tid))
                    (m_tid_breakpoints_map m1),
                  m_address_breakpoint_map := um_assign address breakpoint_id (m_address_breakpoint_map m1)\<rparr>)))"

definition check_duplicate_breakpoint :: "u64 \<Rightarrow> breakpoint_manager \<Rightarrow> bool" where
  "check_duplicate_breakpoint address m =
     list_ex (\<lambda>b. bp_address b = address) (um_values (m_breakpoints m))"

section \<open>Debug registers of a thread\<close>

definition test_address :: u64 where "test_address = 0x10000000"

definition test_control :: u32 where
  "test_control = ucast (DBGBCR_ENABLE OR DBGBCR_TYPE_EXECUTION OR DBGBCR_EL0 OR DBGBCR_MATCH_FULL)"

text \<open>The loops over the sixteen register pairs and over the registers that were found.\<close>

definition fill_test_values :: "user_hwdebug_state \<Rightarrow> user_hwdebug_state" where
  "fill_test_values dbg =
     fold (\<lambda>i d. d\<lparr>dbg_regs := (dbg_regs d)[i := (test_address, test_control)]\<rparr>) [0..<16] dbg"

definition count_verified :: "pid \<Rightarrow> user_hwdebug_state \<Rightarrow> (pid, int) umap \<Rightarrow> (pid, int) umap" where
  "count_verified tid verify_dbg counts =
     fold (\<lambda>i c. if dbg_regs verify_dbg ! i = (test_address, test_control)
                 then um_assign tid (um_get 0 c tid + 1) c else c) [0..<16] counts"

definition free_registers ::
  "pid \<Rightarrow> nat \<Rightarrow> (pid, db_register uset) umap \<Rightarrow> (pid, db_register uset) umap" where
  "free_registers tid n regs =
     fold (\<lambda>i f. um_assign tid (us_insert (dbr_enumerators ! i) (um_get [] f tid)) f) [0..<n] regs"

definition init_hardware_register ::
  "'w os \<Rightarrow> pid \<Rightarrow> breakpoint_manager \<Rightarrow> 'w \<Rightarrow> status \<times> breakpoint_manager \<times> 'w" where
  "init_hardware_register os tid m w =
     (if um_find (m_hardware_registers_count m) tid \<noteq> None
      then (status_success (Dumped (JString ''already initialised'')), m, w) else
      let m1 = m\<lparr>m_hardware_registers_count := um_assign tid 0 (m_hardware_registers_count m)\<rparr>;
          (orign_dbg_opt, w1) = get_all_dbg os tid w
      in case orign_dbg_opt of
           None \<Rightarrow> (status_fail (Note ''cannot get the debug registers''), m1, w1)
         | Some orign_dbg \<Rightarrow>
      let (submitted, w2) = set_all_dbg os tid (fill_test_values orign_dbg) w1 in
      if \<not> submitted then
        (let (_, w3) = set_all_dbg os tid orign_dbg w2
         in (status_fail (Note ''cannot submit the test values''), m1, w3))
      else
      let (verify_dbg_opt, w3) = get_all_dbg os tid w2
      in case verify_dbg_opt of
           None \<Rightarrow>
             (let (_, w4) = set_all_dbg os tid orign_dbg w3
              in (status_fail (Note ''cannot get the debug registers to verify''), m1, w4))
         | Some verify_dbg \<Rightarrow>
      let m2 = m1\<lparr>m_hardware_registers_count :=
                 count_verified tid verify_dbg (m_hardware_registers_count m1)\<rparr>;
          (restored, w4) = set_all_dbg os tid orign_dbg w3
      in if \<not> restored then (status_fail (Note ''cannot restore the debug registers''), m2, w4)
         else (status_success (Dumped (JString ''init_hardware_register done'')),
           m2\<lparr>m_free_hardware_registers :=
             free_registers tid (nat (um_get 0 (m_hardware_registers_count m2) tid))
               (m_free_hardware_registers m2)\<rparr>, w4))"

definition get_hardware_registers_count ::
  "'w os \<Rightarrow> pid \<Rightarrow> breakpoint_manager \<Rightarrow> 'w \<Rightarrow> int \<times> breakpoint_manager \<times> 'w" where
  "get_hardware_registers_count os tid m w =
     (case init_hardware_register os tid m w of
        (st, m1, w1) \<Rightarrow>
          if is_success st
          then (um_get 0 (m_hardware_registers_count m1) tid,
                m1\<lparr>m_hardware_registers_count := um_touch 0 (m_hardware_registers_count m1) tid\<rparr>, w1)
          else (-1, m1, w1))"

section \<open>Setting breakpoints\<close>

definition set_software_breakpoint ::
  "'w os \<Rightarrow> pid \<Rightarrow> u64 \<Rightarrow> breakpoint_manager \<Rightarrow> 'w \<Rightarrow> (cxx_error + int) \<times> breakpoint_manager \<times> 'w" where
  "set_software_breakpoint os tid address m w =
     (if address AND 3 \<noteq> 0 then (Inl Invalid_argument, m, w)
      else if check_duplicate_breakpoint address m then (Inr (-1), m, w)
      else
      (case read_memory os tid address (host_bytes (os_little_endian os) 4 (0 :: u32)) w of
         (ok, buffer, w1) \<Rightarrow>
           if \<not> ok then (Inr (-1), m, w1)
           else
           (case write_memory os tid address (host_bytes (os_little_endian os) 4 BRK_OPCODE) w1 of
              (ok2, w2) \<Rightarrow>
                if \<not> ok2 then (Inr (-1), m, w2)
                else
                  (case new_breakpoint tid address SOFTWARE (host_word (os_little_endian os) buffer) m of
                     (r, m1) \<Rightarrow> (r, m1, w2)))))"

text \<open>The control word of a hardware breakpoint; \<open>None\<close> is the default case of the switch.\<close>

definition hardware_control :: "breakpoint_type \<Rightarrow> u64 option" where
  "hardware_control type =
     (let control = DBGBCR_ENABLE OR DBGBCR_EL0 OR DBGBCR_MATCH_FULL
      in case type of
           HARDWARE_EXECUTION \<Rightarrow> Some (control OR DBGBCR_TYPE_EXECUTION)
         | HARDWARE_WRITE \<Rightarrow> Some (control OR DBGBCR_TYPE_WRITE)
         | HARDWARE_READWRITE \<Rightarrow> Some (control OR DBGBCR_TYPE_READWRITE)
         | SOFTWARE \<Rightarrow> None)"

definition take_register :: "pid \<Rightarrow> db_register \<Rightarrow> breakpoint_manager \<Rightarrow> breakpoint_manager" where
  "take_register tid reg m = m\<lparr>m_free_hardware_registers :=
     um_assign tid (us_erase reg (um_get [] (m_free_hardware_registers m) tid)) (m_free_hardware_registers m)\<rparr>"

definition return_register :: "pid \<Rightarrow> db_register \<Rightarrow> breakpoint_manager \<Rightarrow> breakpoint_manager" where
  "return_register tid reg m = m\<lparr>m_free_hardware_registers :=
     um_assign tid (us_insert reg (um_get [] (m_free_hardware_registers m) tid)) (m_free_hardware_registers m)\<rparr>"

text \<open>\<open>m_breakpoints_[id].hardware_register = reg\<close>; \<open>new_breakpoint\<close> has just put the entry there.\<close>

definition store_register :: "int \<Rightarrow> db_register \<Rightarrow> breakpoint_manager \<Rightarrow> breakpoint_manager" where
  "store_register bid reg m =
     (case um_find (m_breakpoints m) bid of
        None \<Rightarrow> m
      | Some b \<Rightarrow> m\<lparr>m_breakpoints := um_assign bid (b\<lparr>hardware_register := reg\<rparr>) (m_breakpoints m)\<rparr>)"

text \<open>
  The free set is looked at before \<open>init_hardware_register\<close> fills it.  The register is a
  \<open>uint32_t\<close>, so the control word is cut to 32 bits.
\<close>

definition set_hardware_breakpoint ::
  "'w os \<Rightarrow> pid \<Rightarrow> u64 \<Rightarrow> breakpoint_type \<Rightarrow> breakpoint_manager \<Rightarrow> 'w \<Rightarrow>
     (cxx_error + int) \<times> breakpoint_manager \<times> 'w" where
  "set_hardware_breakpoint os tid address type m w =
     (if address AND 3 \<noteq> 0 then (Inl Invalid_argument, m, w)
      else if check_duplicate_breakpoint address m then (Inr (-1), m, w)
      else
      let m1 = m\<lparr>m_free_hardware_registers := um_touch [] (m_free_hardware_registers m) tid\<rparr>
      in if um_get [] (m_free_hardware_registers m1) tid = [] then (Inr (-1), m1, w)
      else
      (case init_hardware_register os tid m1 w of
         (st, m2, w1) \<Rightarrow>
           if is_fail st then (Inr (-1), m2, w1)
           else
           (let reg = us_begin os (int \<circ> dbr_index) (um_get [] (m_free_hardware_registers m2) tid);
                m3 = take_register tid reg m2
            in case hardware_control type of
                 None \<Rightarrow> (Inr (-1), m3, w1)
               | Some control \<Rightarrow>
                   (case set_dbg os tid reg (address, ucast control) w1 of
                      (ok, w2) \<Rightarrow>
                        if \<not> ok then (Inr (-1), return_register tid reg m3, w2)
                        else
                          (case new_breakpoint tid address type 0 m3 of
                             (Inl e, m4) \<Rightarrow> (Inl e, m4, w2)
                           | (Inr bid, m4) \<Rightarrow> (Inr bid, store_register bid reg m4, w2))))))"

section \<open>Removing, enabling and disabling\<close>

text \<open>The last lines of \<open>remove_breakpoint\<close>; \<open>m_address_breakpoint_map_\<close> keeps its entry.\<close>

definition forget_breakpoint :: "int \<Rightarrow> breakpoint \<Rightarrow> breakpoint_manager \<Rightarrow> breakpoint_manager" where
  "forget_breakpoint breakpoint_id b m =
     (let ids = us_erase (bp_id b) (um_get [] (m_tid_breakpoints_map m) (bp_tid b));
          tids = um_assign (bp_tid b) ids (m_tid_breakpoints_map m)
      in m\<lparr>m_tid_breakpoints_map := (if ids = [] then um_erase (bp_tid b) tids else tids),
           m_breakpoints := um_erase breakpoint_id (m_breakpoints m)\<rparr>)"

definition clear_enable :: "u32 \<Rightarrow> u32" where
  "clear_enable control = ucast ((ucast control :: u64) AND NOT DBGBCR_ENABLE)"

definition set_enable :: "u32 \<Rightarrow> u32" where
  "set_enable control = ucast ((ucast control :: u64) OR DBGBCR_ENABLE)"

text \<open>
  The message of a successful removal is made from the reference to the breakpoint after its node
  has been erased; the text of a message is not part of the model.
\<close>

definition remove_breakpoint ::
  "'w os \<Rightarrow> int \<Rightarrow> breakpoint_manager \<Rightarrow> 'w \<Rightarrow> status \<times> breakpoint_manager \<times> 'w" where
  "remove_breakpoint os breakpoint_id m w =
     (case um_find (m_breakpoints m) breakpoint_id of
        None \<Rightarrow> (status_fail (Note ''no such breakpoint''), m, w)
      | Some b \<Rightarrow>
          if bp_type b = SOFTWARE then
            (case write_memory os (bp_tid b) (bp_address b)
                    (host_bytes (os_little_endian os) 4 (original_instruction b)) w of
               (ok, w1) \<Rightarrow>
                 if \<not> ok then (status_fail (Note ''cannot restore the instruction''), m, w1)
                 else (status_success (Note ''removed''), forget_breakpoint breakpoint_id b m, w1))
          else if hardware_register b \<noteq> DBR_INVALID then
            (let (dbg_opt, w1) = get_dbg os (bp_tid b) (hardware_register b) w;
                 w2 = (case dbg_opt of
                         None \<Rightarrow> w1
                       | Some (address, control) \<Rightarrow>
                           snd (set_dbg os (bp_tid b) (hardware_register b) (address, clear_enable control) w1))
             in (status_success (Note ''removed''),
                 forget_breakpoint breakpoint_id b (return_register (bp_tid b) (hardware_register b) m), w2))
          else (status_success (Note ''removed''), forget_breakpoint breakpoint_id b m, w))"

definition put_breakpoint :: "int \<Rightarrow> breakpoint \<Rightarrow> breakpoint_manager \<Rightarrow> breakpoint_manager" where
  "put_breakpoint breakpoint_id b m =
     m\<lparr>m_breakpoints := um_assign breakpoint_id b (m_breakpoints m)\<rparr>"

definition enable :: "'w os \<Rightarrow> int \<Rightarrow> breakpoint_manager \<Rightarrow> 'w \<Rightarrow> status \<times> breakpoint_manager \<times> 'w" where
  "enable os breakpoint_id m w =
     (case um_find (m_breakpoints m) breakpoint_id of
        None \<Rightarrow> (status_fail (Note ''enable: no such breakpoint''), m, w)
      | Some b \<Rightarrow>
          (let enabled = (status_success (Note ''enabled''),
                 put_breakpoint breakpoint_id (b\<lparr>bp_enabled := True\<rparr>) m) in
          if bp_enabled b then (status_success (Note ''already enabled''), m, w)
          else if bp_type b = SOFTWARE then
            (case write_memory os (bp_tid b) (bp_address b)
                    (host_bytes (os_little_endian os) 4 BRK_OPCODE) w of
               (ok, w1) \<Rightarrow>
                 if \<not> ok then (status_fail (Note ''cannot write the breakpoint instruction''), m, w1)
                 else (fst enabled, snd enabled, w1))
          else if hardware_register b \<noteq> DBR_INVALID then
            (case get_dbg os (bp_tid b) (hardware_register b) w of
               (None, w1) \<Rightarrow> (status_fail (Note ''cannot get the debug register''), m, w1)
             | (Some (address, control), w1) \<Rightarrow>
                 (case set_dbg os (bp_tid b) (hardware_register b) (address, set_enable control) w1 of
                    (ok, w2) \<Rightarrow>
                      if \<not> ok then (status_fail (Note ''cannot update the control register''), m, w2)
                      else (fst enabled, snd enabled, w2)))
          else (fst enabled, snd enabled, w)))"

definition disable :: "'w os \<Rightarrow> int \<Rightarrow> breakpoint_manager \<Rightarrow> 'w \<Rightarrow> status \<times> breakpoint_manager \<times> 'w" where
  "disable os breakpoint_id m w =
     (case um_find (m_breakpoints m) breakpoint_id of
        None \<Rightarrow> (status_fail (Note ''disable: no such breakpoint''), m, w)
      | Some b \<Rightarrow>
          (let disabled = (status_success (Note ''disabled''),
                 put_breakpoint breakpoint_id (b\<lparr>bp_enabled := False\<rparr>) m) in
          if \<not> bp_enabled b then (status_success (Note ''already disabled''), m, w)
          else if bp_type b = SOFTWARE then
            (case write_memory os (bp_tid b) (bp_address b)
                    (host_bytes (os_little_endian os) 4 (original_instruction b)) w of
               (ok, w1) \<Rightarrow>
                 if \<not> ok then (status_fail (Note ''cannot restore the instruction''), m, w1)
                 else (fst disabled, snd disabled, w1))
          else if hardware_register b \<noteq> DBR_INVALID then
            (case get_dbg os (bp_tid b) (hardware_register b) w of
               (None, w1) \<Rightarrow> (status_fail (Note ''cannot get the debug register''), m, w1)
             | (Some (address, control), w1) \<Rightarrow>
                 (case set_dbg os (bp_tid b) (hardware_register b) (address, clear_enable control) w1 of
                    (ok, w2) \<Rightarrow>
                      if \<not> ok then (status_fail (Note ''cannot update the control register''), m, w2)
                      else (fst disabled, snd disabled, w2)))
          else (fst disabled, snd disabled, w)))"

section \<open>Looking breakpoints up\<close>

definition get_breakpoints :: "breakpoint_manager \<Rightarrow> breakpoint list" where
  "get_breakpoints m = um_values (m_breakpoints m)"

definition get_breakpoints_of :: "pid \<Rightarrow> breakpoint_manager \<Rightarrow> breakpoint list" where
  "get_breakpoints_of tid m =
     (case um_find (m_tid_breakpoints_map m) tid of
        None \<Rightarrow> []
      | Some ids \<Rightarrow> List.map_filter (um_find (m_breakpoints m)) ids)"

definition get_breakpoint :: "int \<Rightarrow> breakpoint_manager \<Rightarrow> breakpoint option" where
  "get_breakpoint breakpoint_id m = um_find (m_breakpoints m) breakpoint_id"

text \<open>The overload on addresses follows the iterator exactly when it is \<open>end()\<close>.\<close>

definition get_breakpoint_at :: "u64 \<Rightarrow> breakpoint_manager \<Rightarrow> cxx_error + breakpoint option" where
  "get_breakpoint_at address m =
     (case um_find (m_address_breakpoint_map m) address of
        None \<Rightarrow> Inl Undefined_behaviour
      | Some _ \<Rightarrow> Inr None)"

section \<open>The invariant\<close>

text \<open>
  Identifiers are handed out once; both indices agree with the table, so that no two breakpoints
  share an address; a debug register of a thread is free or belongs to one breakpoint, and there are
  at most sixteen.
\<close>

definition table_ok :: "(int \<Rightarrow> breakpoint option) \<Rightarrow> int \<Rightarrow> bool" where
  "table_ok B n \<longleftrightarrow> 0 < n \<and> n \<le> INT_MAX \<and> (\<forall>i b. B i = Some b \<longrightarrow>
     bp_id b = i \<and> 0 < i \<and> i < n \<and> 0 < bp_tid b \<and> insn_aligned (bp_address b))"

definition addresses_ok :: "(int \<Rightarrow> breakpoint option) \<Rightarrow> (u64 \<Rightarrow> int option) \<Rightarrow> bool" where
  "addresses_ok B A \<longleftrightarrow> (\<forall>i b. B i = Some b \<longrightarrow> A (bp_address b) = Some i)"

definition threads_ok :: "(int \<Rightarrow> breakpoint option) \<Rightarrow> (pid \<Rightarrow> int list) \<Rightarrow> bool" where
  "threads_ok B I \<longleftrightarrow> (\<forall>t. distinct (I t) \<and> (\<forall>i. i \<in> set (I t) \<longleftrightarrow> (\<exists>b. B i = Some b \<and> bp_tid b = t)))"

definition registers_ok ::
  "(int \<Rightarrow> breakpoint option) \<Rightarrow> (pid \<Rightarrow> db_register list) \<Rightarrow> (pid \<Rightarrow> int) \<Rightarrow> bool" where
  "registers_ok B F C \<longleftrightarrow>
     (\<forall>t. distinct (F t) \<and> (\<forall>r \<in> set (F t). int (dbr_index r) < C t) \<and> 0 \<le> C t \<and> C t \<le> 16)
     \<and> (\<forall>i b. B i = Some b \<longrightarrow> (bp_type b = SOFTWARE) = (hardware_register b = DBR_INVALID))
     \<and> (\<forall>i b. B i = Some b \<and> hardware_register b \<noteq> DBR_INVALID \<longrightarrow>
          int (dbr_index (hardware_register b)) < C (bp_tid b) \<and> hardware_register b \<notin> set (F (bp_tid b)))
     \<and> (\<forall>i j b c. B i = Some b \<and> B j = Some c \<and> bp_tid b = bp_tid c \<and> hardware_register b \<noteq> DBR_INVALID
          \<and> hardware_register b = hardware_register c \<longrightarrow> i = j)"

definition bm_wf :: "breakpoint_manager \<Rightarrow> bool" where
  "bm_wf m \<longleftrightarrow> um_wf (m_breakpoints m)
     \<and> table_ok (um_find (m_breakpoints m)) (m_next_breakpoint_id m)
     \<and> addresses_ok (um_find (m_breakpoints m)) (um_find (m_address_breakpoint_map m))
     \<and> threads_ok (um_find (m_breakpoints m)) (um_get [] (m_tid_breakpoints_map m))
     \<and> (\<forall>t. um_find (m_tid_breakpoints_map m) t \<noteq> Some [])
     \<and> registers_ok (um_find (m_breakpoints m)) (um_get [] (m_free_hardware_registers m))
         (um_get 0 (m_hardware_registers_count m))
     \<and> (\<forall>t. um_find (m_hardware_registers_count m) t = None \<longrightarrow> um_get [] (m_free_hardware_registers m) t = [])"

lemma bm_wf_initial: "bm_wf BreakpointManager"
  by (simp add: bm_wf_def BreakpointManager_def table_ok_def addresses_ok_def threads_ok_def
      registers_ok_def INT_MAX_def)

lemma table_ok_add:
  "table_ok B n \<Longrightarrow> bp_id b = n \<Longrightarrow> 0 < bp_tid b \<Longrightarrow> insn_aligned (bp_address b) \<Longrightarrow> n < INT_MAX \<Longrightarrow>
     table_ok (B(n \<mapsto> b)) (n + 1)"
  by (fastforce simp: table_ok_def intro: less_imp_le)

lemma table_ok_next: "table_ok B n \<Longrightarrow> n < INT_MAX \<Longrightarrow> table_ok B (n + 1)"
  by (fastforce simp: table_ok_def intro: less_imp_le)

lemma table_ok_erase: "table_ok B n \<Longrightarrow> table_ok (B(i := None)) n"
  by (auto simp: table_ok_def)

lemma table_fresh: "table_ok B n \<Longrightarrow> B n = None"
  by (cases "B n") (auto simp: table_ok_def)

lemma addresses_ok_add:
  "addresses_ok B A \<Longrightarrow> (\<forall>i c. B i = Some c \<longrightarrow> bp_address c \<noteq> bp_address b) \<Longrightarrow>
     addresses_ok (B(n \<mapsto> b)) (A(bp_address b \<mapsto> n))"
  by (auto simp: addresses_ok_def)

lemma addresses_ok_erase: "addresses_ok B A \<Longrightarrow> addresses_ok (B(i := None)) A"
  by (auto simp: addresses_ok_def)

lemma threads_ok_add:
  "threads_ok B I \<Longrightarrow> B n = None \<Longrightarrow> threads_ok (B(n \<mapsto> b)) (I(bp_tid b := us_insert n (I (bp_tid b))))"
  unfolding threads_ok_def by simp

lemma threads_ok_erase:
  "threads_ok B I \<Longrightarrow> B n = Some b \<Longrightarrow> threads_ok (B(n := None)) (I(bp_tid b := us_erase n (I (bp_tid b))))"
  unfolding threads_ok_def by auto

lemma registers_ok_add_software:
  "registers_ok B F C \<Longrightarrow> bp_type b = SOFTWARE \<Longrightarrow> hardware_register b = DBR_INVALID \<Longrightarrow>
     registers_ok (B(n \<mapsto> b)) F C"
  unfolding registers_ok_def by (auto split: if_splits)

lemma registers_ok_erase:
  "registers_ok B F C \<Longrightarrow> registers_ok (B(n := None)) F C"
  unfolding registers_ok_def by auto

lemma registers_ok_take:
  "registers_ok B F C \<Longrightarrow> registers_ok B (F(t := us_erase r (F t))) C"
  unfolding registers_ok_def by auto

lemma registers_ok_add_hardware:
  assumes "registers_ok B F C" and "bp_type b \<noteq> SOFTWARE" and "hardware_register b \<noteq> DBR_INVALID"
    and "int (dbr_index (hardware_register b)) < C (bp_tid b)"
    and "hardware_register b \<notin> set (F (bp_tid b))"
    and "\<And>i c. B i = Some c \<Longrightarrow> bp_tid c = bp_tid b \<Longrightarrow> hardware_register c \<noteq> hardware_register b"
  shows "registers_ok (B(n \<mapsto> b)) F C"
proof -
  have u: "i = j" if "(B(n \<mapsto> b)) i = Some x" "(B(n \<mapsto> b)) j = Some y" "bp_tid x = bp_tid y"
      "hardware_register x \<noteq> DBR_INVALID" "hardware_register x = hardware_register y" for i j x y
  proof -
    note bi = that(1)
    consider "i = n" "x = b" | "i \<noteq> n" "B i = Some x" using bi by (cases "i = n") auto
    then show ?thesis
    proof cases
      case 1
      with that(2,3,5) assms(6) [of j y] show ?thesis by (cases "j = n") auto
    next
      case 2
      with that assms(6) [of i x] show ?thesis
        using assms(1) unfolding registers_ok_def by (cases "j = n") auto
    qed
  qed
  show ?thesis
    unfolding registers_ok_def
  proof (intro conjI)
    show "\<forall>t. distinct (F t) \<and> (\<forall>r\<in>set (F t). int (dbr_index r) < C t) \<and> 0 \<le> C t \<and> C t \<le> 16"
      using assms(1) by (simp add: registers_ok_def)
    show "\<forall>i ba. (B(n \<mapsto> b)) i = Some ba \<longrightarrow> (bp_type ba = SOFTWARE) = (hardware_register ba = DBR_INVALID)"
      using assms(1-3) by (simp add: registers_ok_def)
    show "\<forall>i ba. (B(n \<mapsto> b)) i = Some ba \<and> hardware_register ba \<noteq> DBR_INVALID \<longrightarrow>
        int (dbr_index (hardware_register ba)) < C (bp_tid ba) \<and> hardware_register ba \<notin> set (F (bp_tid ba))"
      using assms(1,4,5) unfolding registers_ok_def by auto
    show "\<forall>i j ba c. (B(n \<mapsto> b)) i = Some ba \<and> (B(n \<mapsto> b)) j = Some c \<and> bp_tid ba = bp_tid c
        \<and> hardware_register ba \<noteq> DBR_INVALID \<and> hardware_register ba = hardware_register c \<longrightarrow> i = j"
      using u by blast
  qed
qed

lemma registers_ok_return:
  assumes "registers_ok B F C" and "int (dbr_index r) < C t"
    and "\<And>i c. B i = Some c \<Longrightarrow> bp_tid c = t \<Longrightarrow> hardware_register c \<noteq> r"
  shows "registers_ok B (F(t := us_insert r (F t))) C"
  using assms unfolding registers_ok_def by auto

lemma registers_ok_unused:
  "registers_ok B F C \<Longrightarrow> r \<in> set (F t) \<Longrightarrow> r \<noteq> DBR_INVALID \<Longrightarrow> B i = Some c \<Longrightarrow> bp_tid c = t \<Longrightarrow>
     hardware_register c \<noteq> r"
  unfolding registers_ok_def by metis

lemma registers_ok_erased_unused:
  "registers_ok B F C \<Longrightarrow> B n = Some b \<Longrightarrow> hardware_register b \<noteq> DBR_INVALID \<Longrightarrow>
     (B(n := None)) i = Some c \<Longrightarrow> bp_tid c = bp_tid b \<Longrightarrow> hardware_register c \<noteq> hardware_register b"
  unfolding registers_ok_def by (metis fun_upd_apply option.distinct(1))

lemma registers_ok_init:
  assumes "registers_ok B F C" and "C t = 0" and "0 \<le> c" and "c \<le> 16"
    and "distinct fs" and "\<forall>r \<in> set fs. int (dbr_index r) < c"
  shows "registers_ok B (F(t := fs)) (C(t := c))"
proof -
  have none: "hardware_register b = DBR_INVALID" if "B i = Some b" "bp_tid b = t" for i b
    using assms(1,2) that unfolding registers_ok_def by (metis of_nat_less_0_iff)
  show ?thesis
    using assms none unfolding registers_ok_def by (auto split: if_splits)
qed

lemma um_get_fun [container_simps]:
  "um_get d (um_assign k v m) = (um_get d m)(k := v)" "um_get d (um_erase k m) = (um_get d m)(k := d)"
  "um_get d (um_touch d m k) = um_get d m"
  by (auto simp: fun_eq_iff)

section \<open>Initialising the registers of a thread\<close>

lemma fill_test_values_regs:
  assumes "length (dbg_regs d) = 16"
  shows "fill_test_values d = d\<lparr>dbg_regs := replicate 16 (test_address, test_control)\<rparr>"
proof -
  have "fold (\<lambda>i d. d\<lparr>dbg_regs := (dbg_regs d)[i := v]\<rparr>) [0..<n] d
      = d\<lparr>dbg_regs := replicate n v @ drop n (dbg_regs d)\<rparr>" if "n \<le> 16" for n and v :: "u64 \<times> u32"
    using that
  proof (induction n)
    case 0
    then show ?case by simp
  next
    case (Suc n)
    then have "drop n (dbg_regs d) = dbg_regs d ! n # drop (Suc n) (dbg_regs d)"
      using assms by (simp add: Cons_nth_drop_Suc)
    with Suc show ?case
      by (simp add: list_update_append replicate_append_same)
  qed
  from this [of 16] show ?thesis
    using assms by (simp add: fill_test_values_def)
qed

lemma count_verified_other: "t \<noteq> tid \<Longrightarrow> um_find (count_verified tid v c) t = um_find c t"
proof -
  have "um_find (fold (\<lambda>i c. if P i then um_assign tid (um_get 0 c tid + 1) c else c) xs c) t = um_find c t"
    if "t \<noteq> tid" for P xs and c :: "(pid, int) umap"
    using that by (induction xs arbitrary: c) auto
  then show "t \<noteq> tid \<Longrightarrow> ?thesis" by (simp add: count_verified_def)
qed

lemma count_verified_same:
  "um_get 0 (count_verified tid v c) tid =
     um_get 0 c tid + int (length (filter (\<lambda>i. dbg_regs v ! i = (test_address, test_control)) [0..<16]))"
proof -
  have "um_get 0 (fold (\<lambda>i c. if P i then um_assign tid (um_get 0 c tid + 1) c else c) xs c) tid
      = um_get 0 c tid + int (length (filter P xs))" for P xs and c :: "(pid, int) umap"
    by (induction xs arbitrary: c) auto
  then show ?thesis by (simp add: count_verified_def)
qed

lemma count_verified_known: "um_find c tid \<noteq> None \<Longrightarrow> um_find (count_verified tid v c) tid \<noteq> None"
proof -
  have "um_find (fold (\<lambda>i c. if P i then um_assign tid (um_get 0 c tid + 1) c else c) xs c) tid \<noteq> None"
    if "um_find c tid \<noteq> None" for P xs and c :: "(pid, int) umap"
    using that by (induction xs arbitrary: c) auto
  then show "um_find c tid \<noteq> None \<Longrightarrow> ?thesis" by (simp only: count_verified_def)
qed

lemma count_verified_get:
  "um_get 0 (count_verified tid v c) = (um_get 0 c)(tid :=
     um_get 0 c tid + int (length (filter (\<lambda>i. dbg_regs v ! i = (test_address, test_control)) [0..<16])))"
  using count_verified_other [of _ tid v c] count_verified_same [of tid v c]
  by (auto simp: fun_eq_iff um_get_def)

lemma free_registers_get:
  "um_get [] (free_registers tid n f) =
     (um_get [] f)(tid := fold (\<lambda>i. us_insert (dbr_enumerators ! i)) [0..<n] (um_get [] f tid))"
  by (induction n) (auto simp: free_registers_def um_get_fun fun_eq_iff)

lemma fold_us_insert:
  "set (fold (\<lambda>i. us_insert (g i)) [0..<n] s) = set s \<union> g ` {0..<n}"
  "distinct s \<Longrightarrow> distinct (fold (\<lambda>i. us_insert (g i)) [0..<n] s)"
  by (induction n) (auto simp: atLeast0_lessThan_Suc)

lemma bm_wf_init:
  assumes "bm_wf m" and "um_find (m_hardware_registers_count m) tid = None"
    and "m' = m\<lparr>m_hardware_registers_count := C', m_free_hardware_registers := F'\<rparr>"
    and "um_get 0 C' = (um_get 0 (m_hardware_registers_count m))(tid := c)" and "0 \<le> c" and "c \<le> 16"
    and "\<And>t. um_find C' t = None \<Longrightarrow> t \<noteq> tid \<and> um_find (m_hardware_registers_count m) t = None"
    and "um_get [] F' = (um_get [] (m_free_hardware_registers m))(tid := fs)"
    and "distinct fs" and "\<forall>r \<in> set fs. int (dbr_index r) < c"
  shows "bm_wf m'"
proof -
  have "um_get 0 (m_hardware_registers_count m) tid = 0" using assms(2) by (simp add: um_get_def)
  with assms registers_ok_init [of _ _ _ tid c fs] show ?thesis by (auto simp: bm_wf_def)
qed

lemma init_hardware_register_wf:
  assumes "bm_wf m" and "init_hardware_register os tid m w = (st, m', w')"
  shows "bm_wf m' \<and> m_breakpoints m' = m_breakpoints m \<and> m_next_breakpoint_id m' = m_next_breakpoint_id m"
proof (cases "um_find (m_hardware_registers_count m) tid")
  case (Some c)
  with assms show ?thesis by (simp add: init_hardware_register_def)
next
  case None
  let ?c1 = "um_assign tid 0 (m_hardware_registers_count m)"
  let ?m1 = "m\<lparr>m_hardware_registers_count := ?c1\<rparr>"
  have F: "um_get [] (m_free_hardware_registers m) tid = []"
    using assms(1) None by (simp add: bm_wf_def)
  have wf1: "bm_wf ?m1"
    by (rule bm_wf_init [OF assms(1) None, where C' = "?c1"
          and F' = "m_free_hardware_registers m" and c = 0 and fs = "[]"])
      (auto simp: um_get_fun F split: if_splits)
  define found :: "user_hwdebug_state \<Rightarrow> nat" where "found v = length (filter (\<lambda>i. dbg_regs v ! i = (test_address, test_control)) [0..<16])" for v
  have found: "found v \<le> 16" for v
    using length_filter_le [of _ "[0..<16]"] by (simp add: found_def)
  have C2: "um_get 0 (count_verified tid v ?c1)
      = (um_get 0 (m_hardware_registers_count m))(tid := int (found v))" for v
    by (simp add: count_verified_get um_get_fun found_def)
  have K2: "t \<noteq> tid \<and> um_find (m_hardware_registers_count m) t = None"
    if "um_find (count_verified tid v ?c1) t = None" for t v
    using that count_verified_known [of "?c1" tid v]
    by (cases "t = tid") (auto simp: count_verified_other)
  have wf2: "bm_wf (?m1\<lparr>m_hardware_registers_count := count_verified tid v ?c1\<rparr>)" for v
    by (rule bm_wf_init [OF assms(1) None, where C' = "count_verified tid v ?c1"
          and F' = "m_free_hardware_registers m" and c = "int (found v)" and fs = "[]"])
      (use found in \<open>auto simp: C2 F dest: K2\<close>)
  have wf3: "bm_wf (?m1\<lparr>m_hardware_registers_count := count_verified tid v ?c1,
      m_free_hardware_registers := free_registers tid (found v) (m_free_hardware_registers m)\<rparr>)" for v
    by (rule bm_wf_init [OF assms(1) None, where C' = "count_verified tid v ?c1"
          and F' = "free_registers tid (found v) (m_free_hardware_registers m)" and c = "int (found v)"
          and fs = "fold (\<lambda>i. us_insert (dbr_enumerators ! i)) [0..<found v] []"])
      (use found [of v] in \<open>auto simp: C2 F free_registers_get fold_us_insert dest: K2\<close>)
  show ?thesis
    using assms(2) None wf1 wf2 wf3
    by (auto simp: init_hardware_register_def Let_def C2 split: prod.splits option.splits if_splits)
qed

section \<open>Every operation keeps the invariant\<close>

lemma no_duplicate:
  assumes "bm_wf m" and "\<not> check_duplicate_breakpoint a m" and "um_find (m_breakpoints m) i = Some c"
  shows "bp_address c \<noteq> a"
  using assms hm.val_found [of "m_breakpoints m" i c]
  by (auto simp: check_duplicate_breakpoint_def list_ex_iff bm_wf_def)

text \<open>The cases of \<open>new_breakpoint\<close>: nothing but the counter changes, or one entry is added everywhere.\<close>

lemma new_breakpoint_cases:
  assumes "new_breakpoint tid a ty ins m = (r, m')"
  obtains (failed) e where "r = Inl e" "m' = m \<or> m_next_breakpoint_id m \<noteq> INT_MAX
        \<and> m' = m\<lparr>m_next_breakpoint_id := m_next_breakpoint_id m + 1\<rparr>"
  | (added) n where "r = Inr n" "n = m_next_breakpoint_id m" "n \<noteq> INT_MAX" "1 \<le> tid" "insn_aligned a"
      "m' = m\<lparr>m_next_breakpoint_id := n + 1,
          m_breakpoints := um_emplace n \<lparr>bp_id = n, bp_tid = tid, bp_address = a, bp_type = ty, bp_enabled = True,
             original_instruction = ins, hardware_register = DBR_INVALID\<rparr> (m_breakpoints m),
          m_tid_breakpoints_map := um_assign tid (us_insert n (um_get [] (m_tid_breakpoints_map m) tid))
             (m_tid_breakpoints_map m),
          m_address_breakpoint_map := um_assign a n (m_address_breakpoint_map m)\<rparr>"
  using assms that
  by (auto simp: new_breakpoint_def make_breakpoint_def Let_def insn_aligned_def split: if_splits)

lemma bm_wf_next:
  "bm_wf m \<Longrightarrow> m_next_breakpoint_id m \<noteq> INT_MAX \<Longrightarrow>
     bm_wf (m\<lparr>m_next_breakpoint_id := m_next_breakpoint_id m + 1\<rparr>)"
  using table_ok_next [of "um_find (m_breakpoints m)" "m_next_breakpoint_id m"]
  by (auto simp: bm_wf_def table_ok_def)

lemma bm_wf_fresh: "bm_wf m \<Longrightarrow> um_find (m_breakpoints m) (m_next_breakpoint_id m) = None"
  by (auto simp: bm_wf_def intro: table_fresh)

text \<open>Adding the breakpoint \<open>b\<close> to all three containers.\<close>

lemma bm_wf_add:
  assumes "bm_wf m" and "\<And>i c. um_find (m_breakpoints m) i = Some c \<Longrightarrow> bp_address c \<noteq> bp_address b"
    and "n = m_next_breakpoint_id m" and "n \<noteq> INT_MAX"
    and "bp_id b = n" and "0 < bp_tid b" and "insn_aligned (bp_address b)"
    and "um_find bps = (um_find (m_breakpoints m))(n \<mapsto> b)" and "um_wf bps"
    and "registers_ok ((um_find (m_breakpoints m))(n \<mapsto> b)) (um_get [] (m_free_hardware_registers m))
           (um_get 0 (m_hardware_registers_count m))"
  shows "bm_wf (m\<lparr>m_next_breakpoint_id := n + 1, m_breakpoints := bps,
      m_tid_breakpoints_map := um_assign (bp_tid b) (us_insert n (um_get [] (m_tid_breakpoints_map m) (bp_tid b)))
        (m_tid_breakpoints_map m),
      m_address_breakpoint_map := um_assign (bp_address b) n (m_address_breakpoint_map m)\<rparr>)"
proof -
  have "n < INT_MAX" using assms(1,3,4) by (auto simp: bm_wf_def table_ok_def)
  moreover have "us_insert n s \<noteq> []" for s by (auto simp: us_insert_def)
  ultimately show ?thesis
    using assms table_ok_add [of "um_find (m_breakpoints m)" n b]
      addresses_ok_add [of "um_find (m_breakpoints m)" "um_find (m_address_breakpoint_map m)" b n]
      threads_ok_add [of "um_find (m_breakpoints m)" "um_get [] (m_tid_breakpoints_map m)" n b]
      bm_wf_fresh [OF assms(1)]
    by (auto simp: bm_wf_def um_get_fun)
qed

lemma new_breakpoint_wf:
  assumes "bm_wf m" and "\<not> check_duplicate_breakpoint a m"
    and "new_breakpoint tid a SOFTWARE ins m = (r, m')"
  shows "bm_wf m'"
  using assms(3)
proof (cases rule: new_breakpoint_cases)
  case failed
  with assms(1) bm_wf_next show ?thesis by blast
next
  case (added n)
  define b where "b = \<lparr>bp_id = n, bp_tid = tid, bp_address = a, bp_type = SOFTWARE, bp_enabled = True,
    original_instruction = ins, hardware_register = DBR_INVALID\<rparr>"
  have bps: "um_find (um_emplace n b (m_breakpoints m)) = (um_find (m_breakpoints m))(n \<mapsto> b)"
    "um_wf (um_emplace n b (m_breakpoints m))"
    using bm_wf_fresh [OF assms(1)] assms(1) added(2) by (simp_all add: bm_wf_def)
  have "registers_ok ((um_find (m_breakpoints m))(n \<mapsto> b)) (um_get [] (m_free_hardware_registers m))
      (um_get 0 (m_hardware_registers_count m))"
    using assms(1) registers_ok_add_software by (simp add: bm_wf_def b_def)
  from bm_wf_add [OF assms(1) _ added(2,3) _ _ _ bps this] show ?thesis
    using no_duplicate [OF assms(1,2)] added(4,5,6) by (simp add: b_def)
qed

lemma new_hardware_breakpoint_wf:
  assumes "bm_wf m" and "\<not> check_duplicate_breakpoint a m" and "ty \<noteq> SOFTWARE" and "reg \<noteq> DBR_INVALID"
    and "reg \<notin> set (um_get [] (m_free_hardware_registers m) tid)"
    and "int (dbr_index reg) < um_get 0 (m_hardware_registers_count m) tid"
    and "\<And>i c. um_find (m_breakpoints m) i = Some c \<Longrightarrow> bp_tid c = tid \<Longrightarrow> hardware_register c \<noteq> reg"
    and "new_breakpoint tid a ty ins m = (r, m')"
  shows "case r of Inl _ \<Rightarrow> bm_wf m' | Inr n \<Rightarrow> bm_wf (store_register n reg m')"
  using assms(8)
proof (cases rule: new_breakpoint_cases)
  case failed
  with assms(1) bm_wf_next show ?thesis by auto
next
  case (added n)
  define b where "b = \<lparr>bp_id = n, bp_tid = tid, bp_address = a, bp_type = ty, bp_enabled = True,
    original_instruction = ins, hardware_register = reg\<rparr>"
  define bps where "bps = um_assign n b (um_emplace n (b\<lparr>hardware_register := DBR_INVALID\<rparr>) (m_breakpoints m))"
  have fresh: "um_find (m_breakpoints m) n = None" using bm_wf_fresh [OF assms(1)] added(2) by simp
  have bps: "um_find bps = (um_find (m_breakpoints m))(n \<mapsto> b)" "um_wf bps"
    using fresh assms(1) by (simp_all add: bm_wf_def bps_def)
  have "registers_ok ((um_find (m_breakpoints m))(n \<mapsto> b)) (um_get [] (m_free_hardware_registers m))
      (um_get 0 (m_hardware_registers_count m))"
    by (rule registers_ok_add_hardware) (use assms(1,3-7) in \<open>auto simp: bm_wf_def b_def\<close>)
  from bm_wf_add [OF assms(1) _ added(2,3) _ _ _ bps this]
  have "bm_wf (m\<lparr>m_next_breakpoint_id := n + 1, m_breakpoints := bps,
      m_tid_breakpoints_map := um_assign tid (us_insert n (um_get [] (m_tid_breakpoints_map m) tid))
        (m_tid_breakpoints_map m),
      m_address_breakpoint_map := um_assign a n (m_address_breakpoint_map m)\<rparr>)"
    using no_duplicate [OF assms(1,2)] added(4,5) by (simp add: b_def)
  moreover have "store_register n reg m' = m\<lparr>m_next_breakpoint_id := n + 1, m_breakpoints := bps,
      m_tid_breakpoints_map := um_assign tid (us_insert n (um_get [] (m_tid_breakpoints_map m) tid))
        (m_tid_breakpoints_map m),
      m_address_breakpoint_map := um_assign a n (m_address_breakpoint_map m)\<rparr>"
    using fresh by (simp add: added(6) store_register_def bps_def b_def)
  ultimately show ?thesis using added(1) by simp
qed

lemma bm_wf_touch_free: "bm_wf (m\<lparr>m_free_hardware_registers := um_touch [] F t\<rparr>)
    = bm_wf (m\<lparr>m_free_hardware_registers := F\<rparr>)"
  by (simp add: bm_wf_def um_get_fun)

lemma bm_wf_take: "bm_wf m \<Longrightarrow> bm_wf (take_register tid reg m)"
  by (auto simp: bm_wf_def take_register_def um_get_fun us_erase_def intro: registers_ok_take [unfolded us_erase_def])

lemma bm_wf_return:
  assumes "bm_wf m" and "int (dbr_index reg) < um_get 0 (m_hardware_registers_count m) tid"
    and "\<And>i c. um_find (m_breakpoints m) i = Some c \<Longrightarrow> bp_tid c = tid \<Longrightarrow> hardware_register c \<noteq> reg"
  shows "bm_wf (return_register tid reg m)"
proof -
  have "um_find (m_hardware_registers_count m) tid \<noteq> None"
    using assms(2) by (cases "um_find (m_hardware_registers_count m) tid") (auto simp: um_get_def)
  then show ?thesis
    using assms registers_ok_return [of _ "um_get [] (m_free_hardware_registers m)" _ reg tid]
    by (auto simp: bm_wf_def return_register_def um_get_fun)
qed

lemma bm_wf_touch_count:
  assumes "bm_wf m" and "um_find (m_hardware_registers_count m) tid \<noteq> None"
  shows "bm_wf (m\<lparr>m_hardware_registers_count := um_touch 0 (m_hardware_registers_count m) tid\<rparr>)"
  using assms by (auto simp: um_touch_def um_emplace_def)

lemma bm_wf_forget:
  assumes "bm_wf m" and "um_find (m_breakpoints m) i = Some b"
  shows "bm_wf (forget_breakpoint i b m)"
proof -
  have "bp_id b = i" using assms by (auto simp: bm_wf_def table_ok_def)
  then show ?thesis
    using assms table_ok_erase addresses_ok_erase registers_ok_erase
      threads_ok_erase [of "um_find (m_breakpoints m)" "um_get [] (m_tid_breakpoints_map m)" i b]
    by (auto simp: bm_wf_def forget_breakpoint_def Let_def um_get_fun)
qed

lemma set_software_breakpoint_wf:
  assumes "bm_wf m" and "set_software_breakpoint os tid a m w = (r, m', w')"
  shows "bm_wf m'"
  using assms new_breakpoint_wf [OF assms(1)]
  by (auto simp: set_software_breakpoint_def split: if_splits prod.splits)

lemma remove_breakpoint_wf:
  assumes "bm_wf m" and "remove_breakpoint os i m w = (st, m', w')"
  shows "bm_wf m'"
proof (cases "um_find (m_breakpoints m) i")
  case None
  with assms show ?thesis by (simp add: remove_breakpoint_def)
next
  case (Some b)
  let ?F = "forget_breakpoint i b m"
  have wf: "bm_wf ?F" by (rule bm_wf_forget [OF assms(1) Some])
  have ret: "forget_breakpoint i b (return_register (bp_tid b) (hardware_register b) m)
      = return_register (bp_tid b) (hardware_register b) ?F"
    by (simp add: forget_breakpoint_def return_register_def Let_def)
  have "bm_wf (return_register (bp_tid b) (hardware_register b) ?F)" if h: "hardware_register b \<noteq> DBR_INVALID"
  proof (rule bm_wf_return [OF wf])
    have regs: "registers_ok (um_find (m_breakpoints m)) (um_get [] (m_free_hardware_registers m))
        (um_get 0 (m_hardware_registers_count m))"
      using assms(1) by (simp add: bm_wf_def)
    then show "int (dbr_index (hardware_register b)) < um_get 0 (m_hardware_registers_count ?F) (bp_tid b)"
      using Some h unfolding registers_ok_def forget_breakpoint_def Let_def by auto
    show "hardware_register c \<noteq> hardware_register b"
      if "um_find (m_breakpoints ?F) j = Some c" "bp_tid c = bp_tid b" for j c
      by (rule registers_ok_erased_unused [OF regs Some h, of j])
        (use that in \<open>simp_all add: forget_breakpoint_def Let_def\<close>)
  qed
  with assms Some wf ret show ?thesis
    by (auto simp: remove_breakpoint_def Let_def split: if_splits prod.splits)
qed

text \<open>Changing nothing but the flag of an entry.\<close>

lemma bm_wf_put:
  assumes "bm_wf m" and "um_find (m_breakpoints m) i = Some b"
  shows "bm_wf (put_breakpoint i (b\<lparr>bp_enabled := e\<rparr>) m)"
proof -
  let ?B = "um_find (m_breakpoints m)" let ?B' = "?B(i \<mapsto> b\<lparr>bp_enabled := e\<rparr>)"
  have same: "(\<exists>c. ?B' j = Some c \<and> P c) \<longleftrightarrow> (\<exists>c. ?B j = Some c \<and> P c)"
    if "\<And>c. P (c\<lparr>bp_enabled := e\<rparr>) = P c" for P j
    using assms(2) that by auto
  have "threads_ok ?B' I = threads_ok ?B I" for I
    using same [of "\<lambda>c. bp_tid c = _"] by (simp add: threads_ok_def)
  moreover have "table_ok ?B n \<Longrightarrow> table_ok ?B' n" "addresses_ok ?B A \<Longrightarrow> addresses_ok ?B' A" for n A
    using assms(2) by (auto simp: table_ok_def addresses_ok_def)
  moreover have "registers_ok ?B' F C" if r: "registers_ok ?B F C" for F C
  proof -
    have old: "\<exists>c. ?B j = Some c \<and> bp_tid c = bp_tid x \<and> hardware_register c = hardware_register x
        \<and> bp_type c = bp_type x" if "?B' j = Some x" for j x
      using that assms(2) by (auto split: if_splits)
    show ?thesis
      unfolding registers_ok_def
    proof (intro conjI allI impI)
      fix j k x y
      assume "?B' j = Some x \<and> ?B' k = Some y \<and> bp_tid x = bp_tid y \<and> hardware_register x \<noteq> DBR_INVALID
        \<and> hardware_register x = hardware_register y"
      with old [of j x] old [of k y] r show "j = k" unfolding registers_ok_def by metis
    qed (use r old in \<open>unfold registers_ok_def, metis+\<close>)
  qed
  ultimately show ?thesis
    using assms(1) by (simp add: bm_wf_def put_breakpoint_def)
qed

lemma enable_wf:
  assumes "bm_wf m" and "enable os i m w = (st, m', w')"
  shows "bm_wf m'"
  using assms bm_wf_put [OF assms(1)]
  by (auto simp: enable_def Let_def split: if_splits prod.splits option.splits)

lemma disable_wf:
  assumes "bm_wf m" and "disable os i m w = (st, m', w')"
  shows "bm_wf m'"
  using assms bm_wf_put [OF assms(1)]
  by (auto simp: disable_def Let_def split: if_splits prod.splits option.splits)

lemma get_hardware_registers_count_wf:
  assumes "bm_wf m" and "get_hardware_registers_count os tid m w = (c, m', w')"
  shows "bm_wf m'"
proof -
  obtain st m1 w1 where i: "init_hardware_register os tid m w = (st, m1, w1)" by (metis prod_cases3)
  have "um_find (m_hardware_registers_count m1) tid \<noteq> None"
    using i count_verified_known [of "um_assign tid 0 (m_hardware_registers_count m)" tid]
    by (auto simp: init_hardware_register_def Let_def split: if_splits prod.splits option.splits)
  with init_hardware_register_wf [OF assms(1) i] assms(2) i show ?thesis
    using bm_wf_touch_count [of m1 tid] by (auto simp: get_hardware_registers_count_def split: if_splits)
qed

lemma set_hardware_breakpoint_wf:
  assumes "bm_wf m" and "set_hardware_breakpoint os tid a ty m w = (r, m', w')"
  shows "bm_wf m'"
proof -
  define m1 where "m1 = m\<lparr>m_free_hardware_registers := um_touch [] (m_free_hardware_registers m) tid\<rparr>"
  have wf1: "bm_wf m1" using assms(1) by (simp add: m1_def bm_wf_touch_free)
  obtain st m2 w1 where i: "init_hardware_register os tid m1 w = (st, m2, w1)" by (metis prod_cases3)
  define reg where "reg = us_begin os (int \<circ> dbr_index) (um_get [] (m_free_hardware_registers m2) tid)"
  define m3 where "m3 = take_register tid reg m2"
  have m2: "bm_wf m2" "m_breakpoints m2 = m_breakpoints m"
    using init_hardware_register_wf [OF wf1 i] by (simp_all add: m1_def)
  then have wf3: "bm_wf m3" by (simp add: m3_def bm_wf_take)
  have free: "um_get [] (m_free_hardware_registers m2) tid \<noteq> []"
    if "um_get [] (m_free_hardware_registers m1) tid \<noteq> []"
  proof -
    have "um_find (m_hardware_registers_count m1) tid \<noteq> None" using that wf1 by (auto simp: bm_wf_def)
    then have "m2 = m1" using i by (simp add: init_hardware_register_def)
    with that show ?thesis by simp
  qed
  have facts: "int (dbr_index reg) < um_get 0 (m_hardware_registers_count m3) tid" "reg \<noteq> DBR_INVALID"
    "\<And>j c. um_find (m_breakpoints m3) j = Some c \<Longrightarrow> bp_tid c = tid \<Longrightarrow> hardware_register c \<noteq> reg"
    "reg \<notin> set (um_get [] (m_free_hardware_registers m3) tid)"
    if "um_get [] (m_free_hardware_registers m1) tid \<noteq> []"
  proof -
    have inF: "reg \<in> set (um_get [] (m_free_hardware_registers m2) tid)"
      using us_begin_in [OF free [OF that]] by (simp add: reg_def)
    have regs: "registers_ok (um_find (m_breakpoints m2)) (um_get [] (m_free_hardware_registers m2))
        (um_get 0 (m_hardware_registers_count m2))"
      using m2(1) by (simp add: bm_wf_def)
    then have lt: "int (dbr_index reg) < um_get 0 (m_hardware_registers_count m2) tid"
      "um_get 0 (m_hardware_registers_count m2) tid \<le> 16"
      using inF by (auto simp: registers_ok_def)
    then show "int (dbr_index reg) < um_get 0 (m_hardware_registers_count m3) tid"
      by (simp add: m3_def take_register_def)
    show inv: "reg \<noteq> DBR_INVALID" using lt by auto
    show "hardware_register c \<noteq> reg" if "um_find (m_breakpoints m3) j = Some c" "bp_tid c = tid" for j c
      using registers_ok_unused [OF regs inF inv, of j c] that by (simp add: m3_def take_register_def)
    show "reg \<notin> set (um_get [] (m_free_hardware_registers m3) tid)"
      by (simp add: m3_def take_register_def)
  qed
  have dup3: "check_duplicate_breakpoint a m3 = check_duplicate_breakpoint a m"
    using m2(2) by (simp add: check_duplicate_breakpoint_def m3_def take_register_def)
  have new: "case q of Inl _ \<Rightarrow> bm_wf m4 | Inr n \<Rightarrow> bm_wf (store_register n reg m4)"
    if "um_get [] (m_free_hardware_registers m1) tid \<noteq> []" "\<not> check_duplicate_breakpoint a m"
      "ty \<noteq> SOFTWARE" "new_breakpoint tid a ty 0 m3 = (q, m4)" for q m4
    using new_hardware_breakpoint_wf [OF wf3 _ that(3) facts(2,4,1,3) [OF that(1)] that(4)] that(2) dup3
    by simp
  have put_back: "bm_wf (return_register tid reg m3)" if "um_get [] (m_free_hardware_registers m1) tid \<noteq> []"
    using bm_wf_return [OF wf3 facts(1) [OF that]] facts(3) [OF that] by blast
  show ?thesis
    using assms wf1 m2(1) wf3 put_back new i
    by (auto simp: set_hardware_breakpoint_def Let_def hardware_control_def simp flip: m1_def reg_def m3_def
        split: if_splits prod.splits option.splits sum.splits breakpoint_type.splits)
qed

section \<open>Runs\<close>

text \<open>
  One call of an operation, and the states a run of calls reaches from a new manager while the rest
  of the world changes at will in between.
\<close>

inductive bm_step ::
  "'w os \<Rightarrow> breakpoint_manager \<Rightarrow> 'w \<Rightarrow> breakpoint_manager \<Rightarrow> 'w \<Rightarrow> bool" for os where
  Step_set_software: "set_software_breakpoint os tid a m w = (r, m', w') \<Longrightarrow> bm_step os m w m' w'"
| Step_set_hardware: "set_hardware_breakpoint os tid a ty m w = (r, m', w') \<Longrightarrow> bm_step os m w m' w'"
| Step_remove: "remove_breakpoint os i m w = (st, m', w') \<Longrightarrow> bm_step os m w m' w'"
| Step_enable: "enable os i m w = (st, m', w') \<Longrightarrow> bm_step os m w m' w'"
| Step_disable: "disable os i m w = (st, m', w') \<Longrightarrow> bm_step os m w m' w'"
| Step_init: "init_hardware_register os tid m w = (st, m', w') \<Longrightarrow> bm_step os m w m' w'"
| Step_count: "get_hardware_registers_count os tid m w = (c, m', w') \<Longrightarrow> bm_step os m w m' w'"
| Step_world: "bm_step os m w m w'"

inductive_cases bm_stepE: "bm_step os m w m' w'"

inductive bm_reachable :: "'w os \<Rightarrow> breakpoint_manager \<Rightarrow> 'w \<Rightarrow> bool" for os where
  Start: "bm_reachable os BreakpointManager w"
| Next: "bm_reachable os m w \<Longrightarrow> bm_step os m w m' w' \<Longrightarrow> bm_reachable os m' w'"

lemma bm_step_wf: "bm_step os m w m' w' \<Longrightarrow> bm_wf m \<Longrightarrow> bm_wf m'"
  by (erule bm_stepE)
    (blast dest: set_software_breakpoint_wf set_hardware_breakpoint_wf remove_breakpoint_wf enable_wf
      disable_wf init_hardware_register_wf get_hardware_registers_count_wf)+

lemma bm_reachable_inv: "bm_reachable os m w \<Longrightarrow> bm_wf m"
  by (induction rule: bm_reachable.induct) (auto intro: bm_wf_initial bm_step_wf)

text \<open>A run the witnesses share: a software breakpoint of thread 100 at \<open>0x8000\<close>.\<close>

definition demo_manager :: breakpoint_manager where
  "demo_manager = fst (snd (set_software_breakpoint sim_os 100 0x8000 BreakpointManager demo_kernel))"

definition demo_world :: kstate where
  "demo_world = snd (snd (set_software_breakpoint sim_os 100 0x8000 BreakpointManager demo_kernel))"

lemma demo_reachable: "bm_reachable sim_os demo_manager demo_world"
  by (rule bm_reachable.Next [OF bm_reachable.Start [of sim_os demo_kernel]],
      rule bm_step.Step_set_software [of sim_os 100 "0x8000" _ _ "fst (set_software_breakpoint sim_os 100 0x8000 BreakpointManager demo_kernel)"])
    (simp add: demo_manager_def demo_world_def)

text \<open>
  C19: Whatever the kernel answers, after any run of calls the manager is consistent: the table and
  both indices agree, identifiers are below the next one, no two breakpoints share an address or a
  debug register, and every debug register of a thread is free or in use, never both.
\<close>

theorem breakpoint_manager_invariant:
  assumes "bm_reachable os m w"
  shows "bm_wf m"
  using assms by (rule bm_reachable_inv)

theorem breakpoint_manager_invariant_witness: "bm_wf demo_manager"
  by (rule breakpoint_manager_invariant [OF demo_reachable])

lemma bps_found:
  assumes "bm_wf m" and "b \<in> set (get_breakpoints m)"
  shows "um_find (m_breakpoints m) (bp_id b) = Some b"
proof -
  obtain i where "um_find (m_breakpoints m) i = Some b"
    using assms hm.val_iff [of "m_breakpoints m" b] by (auto simp: bm_wf_def get_breakpoints_def)
  moreover have "bp_id b = i" using calculation assms(1) by (auto simp: bm_wf_def table_ok_def)
  ultimately show ?thesis by simp
qed

text \<open>Breakpoints of the table that are equal by \<open>operator==\<close> are the same breakpoint.\<close>

lemma same_breakpoint_iff:
  assumes "bm_wf m" and "b \<in> set (get_breakpoints m)" and "c \<in> set (get_breakpoints m)"
  shows "same_breakpoint b c = (b = c)"
proof
  assume "same_breakpoint b c"
  then have same: "bp_id b = bp_id c" unfolding same_breakpoint_def .
  have "Some b = um_find (m_breakpoints m) (bp_id b)" by (rule bps_found [OF assms(1,2), symmetric])
  also have "\<dots> = Some c" unfolding same by (rule bps_found [OF assms(1,3)])
  finally show "b = c" by (rule option.inject [THEN iffD1])
qed (simp add: same_breakpoint_def)

text \<open>
  C28: The queries agree: the breakpoints of a thread are those of all breakpoints that carry its id,
  each once; looking an identifier up gives the breakpoint with that identifier exactly when there
  is one; and different breakpoints have different addresses.
\<close>

theorem breakpoint_queries:
  assumes "bm_reachable os m w"
  shows "set (get_breakpoints_of tid m) = {b \<in> set (get_breakpoints m). bp_tid b = tid}
    \<and> distinct (get_breakpoints_of tid m)
    \<and> (get_breakpoint i m = Some b \<longleftrightarrow> b \<in> set (get_breakpoints m) \<and> bp_id b = i)
    \<and> inj_on bp_address (set (get_breakpoints m))"
proof -
  have wf: "bm_wf m" using assms by (rule bm_reachable_inv)
  let ?B = "um_find (m_breakpoints m)" and ?I = "um_get [] (m_tid_breakpoints_map m)"
  have T: "distinct (?I tid)" "\<And>i. i \<in> set (?I tid) \<longleftrightarrow> (\<exists>b. ?B i = Some b \<and> bp_tid b = tid)"
    using wf by (simp_all add: bm_wf_def threads_ok_def)
  have id: "bp_id b = i" if "?B i = Some b" for i b
    using wf that by (auto simp: bm_wf_def table_ok_def)
  have all: "b \<in> set (get_breakpoints m) \<longleftrightarrow> ?B (bp_id b) = Some b" for b
    using bps_found [OF wf] hm.val_found [of "m_breakpoints m"] wf
    by (auto simp: bm_wf_def get_breakpoints_def)
  have of: "get_breakpoints_of tid m = List.map_filter ?B (?I tid)"
    by (simp add: get_breakpoints_of_def um_get_def List.map_filter_def split: option.splits)
  have mf: "set (List.map_filter ?B (?I tid)) = {b. \<exists>i \<in> set (?I tid). ?B i = Some b}"
    by (force simp: List.map_filter_def)
  have "distinct (List.map_filter ?B is)" if "distinct is" for "is"
    using that
  proof (induction "is")
    case (Cons i "is")
    then show ?case by (force simp: List.map_filter_def dest: id split: option.splits)
  qed (simp add: List.map_filter_def)
  moreover have "inj_on bp_address (set (get_breakpoints m))"
    using wf all unfolding bm_wf_def addresses_ok_def inj_on_def by (metis option.inject)
  ultimately show ?thesis
    using T of mf all id by (auto simp: get_breakpoint_def)
qed

theorem breakpoint_queries_witness:
  "set (get_breakpoints_of 100 demo_manager) = {b \<in> set (get_breakpoints demo_manager). bp_tid b = 100}"
  using breakpoint_queries [OF demo_reachable, of 100] by blast

text \<open>
  C37: Looking a breakpoint up by its address never finds one: for the address of an existing
  breakpoint the result is empty, and for an address the map does not hold the end iterator
  is followed.
\<close>

theorem get_breakpoint_by_address_inverted:
  assumes "bm_reachable os m w"
  shows "(\<forall>b. b \<in> set (get_breakpoints m) \<longrightarrow> get_breakpoint_at (bp_address b) m = Inr None)
    \<and> (um_find (m_address_breakpoint_map m) a = None \<longrightarrow> get_breakpoint_at a m = Inl Undefined_behaviour)"
proof -
  have wf: "bm_wf m" using assms by (rule bm_reachable_inv)
  have "um_find (m_address_breakpoint_map m) (bp_address b) = Some (bp_id b)"
    if "b \<in> set (get_breakpoints m)" for b
    using wf bps_found [OF wf that] by (simp add: bm_wf_def addresses_ok_def)
  then show ?thesis by (simp add: get_breakpoint_at_def)
qed

theorem get_breakpoint_by_address_inverted_witness:
  "get_breakpoint_at 0x8000 demo_manager = Inr None
   \<and> get_breakpoint_at 0x9000 demo_manager = Inl Undefined_behaviour"
proof -
  have "map bp_address (get_breakpoints demo_manager) = [0x8000]"
    and none: "um_find (m_address_breakpoint_map demo_manager) 0x9000 = None"
    by code_simp+
  then obtain b where "b \<in> set (get_breakpoints demo_manager)" "bp_address b = 0x8000"
    by (cases "get_breakpoints demo_manager") auto
  with none get_breakpoint_by_address_inverted [OF demo_reachable, of "0x9000"] show ?thesis by metis
qed

text \<open>
  A hardware breakpoint on a thread whose debug registers were not initialised before is never
  set: the call ends with -1, or with the exception for a misaligned address, before it has asked
  the kernel for anything.
\<close>

theorem hardware_breakpoint_needs_init:
  assumes "bm_reachable os m w" and "um_find (m_hardware_registers_count m) tid = None"
    and "set_hardware_breakpoint os tid a ty m w = (r, m', w')"
  shows "r = (if a AND 3 \<noteq> 0 then Inl Invalid_argument else Inr (-1))
    \<and> m_breakpoints m' = m_breakpoints m \<and> w' = w"
proof -
  have "um_get [] (m_free_hardware_registers m) tid = []"
    using bm_reachable_inv [OF assms(1)] assms(2) by (simp add: bm_wf_def)
  with assms(3) show ?thesis
    by (auto simp: set_hardware_breakpoint_def Let_def split: if_splits)
qed

theorem hardware_breakpoint_needs_init_witness:
  "fst (set_hardware_breakpoint sim_os 100 0x1000 HARDWARE_EXECUTION demo_manager demo_world) = Inr (-1)"
proof -
  have "um_find (m_hardware_registers_count demo_manager) 100 = None" by code_simp
  from hardware_breakpoint_needs_init [OF demo_reachable this, of "0x1000" HARDWARE_EXECUTION
      "fst (set_hardware_breakpoint sim_os 100 0x1000 HARDWARE_EXECUTION demo_manager demo_world)"
      "fst (snd (set_hardware_breakpoint sim_os 100 0x1000 HARDWARE_EXECUTION demo_manager demo_world))"
      "snd (snd (set_hardware_breakpoint sim_os 100 0x1000 HARDWARE_EXECUTION demo_manager demo_world))"]
  show ?thesis by simp
qed

end
