(* ===== verification/Breakpoint_Effects.thy ===== *)
theory Breakpoint_Effects
  imports Breakpoint_Manager
begin

unbundle bit_operations_syntax

text \<open>
  What the operations of \<open>Breakpoint_Manager\<close> do to the tracee, for a kernel that keeps the contracts
  of \<open>Kernel_Contract\<close>.  The specification of software breakpoints is the relation \<open>overlay\<close>: the
  memory is the program's own one with \<open>BRK\<close> over the instructions of the enabled breakpoints,
  and every breakpoint has saved the program's own instruction.  A \<open>session\<close> is a run of calls on
  one address space, in which the tracee may also run.
\<close>

section \<open>The specification\<close>

definition covers :: "breakpoint \<Rightarrow> u64 \<Rightarrow> bool" where
  "covers b x \<longleftrightarrow> unat (x - bp_address b) < 4"

definition software :: "breakpoint_manager \<Rightarrow> int \<Rightarrow> breakpoint option" where
  "software m i = (case um_find (m_breakpoints m) i of
     None \<Rightarrow> None | Some b \<Rightarrow> if bp_type b = SOFTWARE then Some b else None)"

text \<open>\<open>overlay le M S mem\<close>: the memory \<open>mem\<close> is \<open>M\<close> under the software breakpoints \<open>S\<close>.\<close>

definition overlay :: "bool \<Rightarrow> memory \<Rightarrow> (int \<Rightarrow> breakpoint option) \<Rightarrow> memory \<Rightarrow> bool" where
  "overlay le M S mem \<longleftrightarrow>
     (\<forall>x. (\<forall>i b. S i = Some b \<and> bp_enabled b \<longrightarrow> \<not> covers b x) \<longrightarrow> mem x = M x)
     \<and> (\<forall>i b. S i = Some b \<and> bp_enabled b \<longrightarrow> mem_read mem (bp_address b) 4 = host_bytes le 4 BRK_OPCODE)
     \<and> (\<forall>i b. S i = Some b \<longrightarrow> host_bytes le 4 (original_instruction b) = mem_read M (bp_address b) 4)"

text \<open>Breakpoints at different instructions.\<close>

definition spaced :: "(int \<Rightarrow> breakpoint option) \<Rightarrow> bool" where
  "spaced S \<longleftrightarrow> (\<forall>i b. S i = Some b \<longrightarrow> insn_aligned (bp_address b))
     \<and> (\<forall>i j b c. S i = Some b \<and> S j = Some c \<and> bp_address b = bp_address c \<longrightarrow> i = j)"

lemma mem_read_cong: "(\<And>x. unat (x - a) < 4 \<Longrightarrow> m x = m' x) \<Longrightarrow> mem_read m a 4 = mem_read m' a 4"
  by (auto simp: mem_read_def unat_of_nat_small)

lemma spaced_covers:
  "spaced S \<Longrightarrow> S i = Some b \<Longrightarrow> S j = Some c \<Longrightarrow> covers b x \<Longrightarrow> covers c x \<Longrightarrow> i = j"
  unfolding spaced_def covers_def by (metis aligned_disjoint)

lemma spaced_mono: "spaced S \<Longrightarrow> (\<And>i b. S' i = Some b \<Longrightarrow> S i = Some b) \<Longrightarrow> spaced S'"
  unfolding spaced_def by metis

lemma spaced_flag: "spaced S \<Longrightarrow> S i = Some b \<Longrightarrow> spaced (S(i \<mapsto> b\<lparr>bp_enabled := e\<rparr>))"
  unfolding spaced_def by (auto split: if_splits)

lemma overlay_elsewhere:
  "overlay le M S mem \<Longrightarrow> (\<And>i b. S i = Some b \<Longrightarrow> bp_enabled b \<Longrightarrow> \<not> covers b x) \<Longrightarrow> mem x = M x"
  unfolding overlay_def by blast

text \<open>An instruction that no enabled breakpoint covers is the program's own.\<close>

lemma overlay_read:
  assumes "overlay le M S mem" and "insn_aligned a" and "\<And>i b. S i = Some b \<Longrightarrow> insn_aligned (bp_address b)"
    and "\<And>i b. S i = Some b \<Longrightarrow> bp_enabled b \<Longrightarrow> bp_address b \<noteq> a"
  shows "mem_read mem a 4 = mem_read M a 4"
proof (rule mem_read_cong)
  fix x assume x: "unat (x - a) < 4"
  have "\<not> covers b x" if "S i = Some b" "bp_enabled b" for i b
    using aligned_disjoint [OF assms(2) assms(3) [OF that(1)] x] assms(4) [OF that]
    by (auto simp: covers_def)
  with assms(1) show "mem x = M x" by (rule overlay_elsewhere)
qed

text \<open>Writing \<open>BRK\<close> and switching the breakpoint on.\<close>

lemma overlay_on:
  assumes "overlay le M S mem" and "spaced (S(i \<mapsto> b))" and "bp_enabled b"
    and "host_bytes le 4 (original_instruction b) = mem_read M (bp_address b) 4"
    and "\<And>c. S i = Some c \<Longrightarrow> bp_address c = bp_address b"
  shows "overlay le M (S(i \<mapsto> b)) (mem_write mem (bp_address b) (host_bytes le 4 BRK_OPCODE))"
  (is "overlay le M ?S ?mem")
proof -
  have out: "?mem x = mem x" if "\<not> covers b x" for x
    using that by (simp add: mem_write_def covers_def)
  have same: "mem_read ?mem (bp_address b) 4 = host_bytes le 4 BRK_OPCODE"
    using mem_write_read_same [of "host_bytes le 4 BRK_OPCODE" mem "bp_address b"] by simp
  have other: "mem_read ?mem (bp_address c) 4 = mem_read mem (bp_address c) 4"
    if "S j = Some c" "j \<noteq> i" for j c
  proof (rule mem_read_cong)
    fix x assume "unat (x - bp_address c) < 4"
    then have "\<not> covers b x"
      using spaced_covers [OF assms(2), of j c i b x] that by (auto simp: covers_def)
    then show "?mem x = mem x" by (rule out)
  qed
  show ?thesis
    unfolding overlay_def
  proof (intro conjI allI impI)
    fix x assume a: "\<forall>j c. ?S j = Some c \<and> bp_enabled c \<longrightarrow> \<not> covers c x"
    then have nb: "\<not> covers b x" using assms(3) by (metis fun_upd_same)
    have "\<not> covers c x" if c: "S j = Some c" "bp_enabled c" for j c
    proof (cases "j = i")
      case True
      with c assms(5) nb show ?thesis by (simp add: covers_def)
    next
      case False
      with a c show ?thesis by (metis fun_upd_other)
    qed
    then show "?mem x = M x" using overlay_elsewhere [OF assms(1)] out [OF nb] by metis
  qed (use assms(1,4) same other in \<open>auto simp: overlay_def split: if_splits\<close>)
qed

text \<open>Writing the saved instruction back and switching the breakpoint off, or dropping it.\<close>

lemma overlay_off:
  assumes "overlay le M S mem" and "spaced S" and "S i = Some b"
    and "\<And>c. S' i = Some c \<Longrightarrow> \<not> bp_enabled c \<and> bp_address c = bp_address b
           \<and> original_instruction c = original_instruction b"
    and "\<And>j. j \<noteq> i \<Longrightarrow> S' j = S j"
  shows "overlay le M S' (mem_write mem (bp_address b) (host_bytes le 4 (original_instruction b)))"
  (is "overlay le M S' ?mem")
proof -
  have saved: "host_bytes le 4 (original_instruction b) = mem_read M (bp_address b) 4"
    using assms(1,3) by (auto simp: overlay_def)
  have out: "?mem x = mem x" if "\<not> covers b x" for x
    using that by (simp add: mem_write_def covers_def)
  have inside: "?mem x = M x" if "covers b x" for x
  proof -
    have "?mem x = mem_write M (bp_address b) (mem_read M (bp_address b) 4) x"
      using that by (simp add: mem_write_def covers_def saved del: mem_write_same)
    then show ?thesis by simp
  qed
  have other: "mem_read ?mem (bp_address c) 4 = mem_read mem (bp_address c) 4"
    if "S j = Some c" "j \<noteq> i" for j c
  proof (rule mem_read_cong)
    fix x assume "unat (x - bp_address c) < 4"
    then have "\<not> covers b x"
      using spaced_covers [OF assms(2), of j c i b x] that assms(3) by (auto simp: covers_def)
    then show "?mem x = mem x" by (rule out)
  qed
  show ?thesis
    unfolding overlay_def
  proof (intro conjI allI impI)
    fix x assume a: "\<forall>j c. S' j = Some c \<and> bp_enabled c \<longrightarrow> \<not> covers c x"
    show "?mem x = M x"
    proof (cases "covers b x")
      case False
      have "\<not> covers c x" if "S j = Some c" "bp_enabled c" for j c
        using a assms(3,5) that False by (metis option.inject)
      then show ?thesis using overlay_elsewhere [OF assms(1)] out [OF False] by metis
    qed (rule inside)
  next
    fix j c assume c: "S' j = Some c \<and> bp_enabled c"
    then have "j \<noteq> i" using assms(4) by auto
    with c assms(1,5) other show "mem_read ?mem (bp_address c) 4 = host_bytes le 4 BRK_OPCODE"
      by (auto simp: overlay_def)
  next
    fix j c assume c: "S' j = Some c"
    show "host_bytes le 4 (original_instruction c) = mem_read M (bp_address c) 4"
      using c assms(1,4,5) saved by (cases "j = i") (auto simp: overlay_def)
  qed
qed

lemma overlay_none: "overlay le M S mem \<Longrightarrow> (\<And>i b. S i = Some b \<Longrightarrow> \<not> bp_enabled b) \<Longrightarrow> mem = M"
  by (auto simp: overlay_def fun_eq_iff)

section \<open>Hardware operations leave the memory alone\<close>

definition site :: "kstate \<Rightarrow> nat \<Rightarrow> pid \<Rightarrow> u64 \<Rightarrow> bool" where
  "site st s tid a \<longleftrightarrow> k_space st tid = Some s
     \<and> on_range (k_readable st s) a 4 \<and> on_range (k_writable st s) a 4"

lemma site_frame: "regs_frame st st' \<Longrightarrow> site st' s tid a = site st s tid a"
  by (simp add: regs_frame_def site_def)

lemma site_put_mem [simp]: "site (put_mem s' a' bs st) s tid a = site st s tid a"
  by (simp add: site_def)

lemma set_test_frame:
  assumes "regset_contract os view" and "length (dbg_regs d) = 16"
    and "set_all_dbg os tid (fill_test_values d) w = (ok, w')"
  shows "regs_frame (view w) (view w')"
proof -
  have "length (dbg_regs (fill_test_values d)) = 16"
    using assms(2) by (simp add: fill_test_values_regs)
  from set_all_dbg_contract(1) [OF assms(1,3) this] show ?thesis .
qed

lemma init_frame:
  assumes "regset_contract os view" and "kstate_wf (view w)"
    and "init_hardware_register os tid m w = (st, m', w')"
  shows "regs_frame (view w) (view w')"
proof (cases "um_find (m_hardware_registers_count m) tid")
  case (Some c)
  with assms(3) show ?thesis by (simp add: init_hardware_register_def)
next
  case None
  obtain g w1 where g: "get_all_dbg os tid w = (g, w1)" by (metis prod.exhaust)
  note cg = get_all_dbg_contract [OF assms(1) g]
  show ?thesis
  proof (cases g)
    case None': None
    with None assms(3) g cg(1) show ?thesis by (simp add: init_hardware_register_def Let_def)
  next
    case (Some d)
    have d: "d = k_dbg (view w) tid" "length (dbg_regs d) = 16"
      using cg(2) [OF Some] kstate_wf_dbg [OF assms(2)] by simp_all
    obtain ok w2 where s2: "set_all_dbg os tid (fill_test_values d) w1 = (ok, w2)" by (metis prod.exhaust)
    have f2: "regs_frame (view w) (view w2)"
      using set_test_frame [OF assms(1) d(2) s2] unfolding cg(1) .
    have again: "regs_frame (view u) (view u')" if "set_all_dbg os tid d u = (x, u')" for u x u'
      using set_all_dbg_contract(1) [OF assms(1) that d(2)] .
    obtain v w3 where g3: "get_all_dbg os tid w2 = (v, w3)" by (metis prod.exhaust)
    have v3: "view w3 = view w2" using get_all_dbg_contract(1) [OF assms(1) g3] .
    obtain ok4 w4 where s4: "set_all_dbg os tid d w3 = (ok4, w4)" by (metis prod.exhaust)
    obtain ok5 w5 where s5: "set_all_dbg os tid d w2 = (ok5, w5)" by (metis prod.exhaust)
    have "w' = w4 \<or> w' = w5"
      using assms(3) None g Some s2 g3 s4 s5
      by (auto simp: init_hardware_register_def Let_def split: if_splits option.splits)
    with again [OF s4] again [OF s5] f2 v3 show ?thesis by (metis regs_frame_trans)
  qed
qed

lemma software_cong: "m_breakpoints m' = m_breakpoints m \<Longrightarrow> software m' = software m"
  by (simp add: software_def fun_eq_iff)

lemma software_store:
  assumes "bm_wf m" and "ty \<noteq> SOFTWARE" and "new_breakpoint tid a ty ins m = (r, m')"
  shows "software m' = software m" and "r = Inr n \<Longrightarrow> software (store_register n reg m') = software m"
proof -
  have "software m' = software m \<and> (\<forall>n. r = Inr n \<longrightarrow> software (store_register n reg m') = software m)"
    using assms(3)
  proof (cases rule: new_breakpoint_cases)
    case failed
    then show ?thesis by (auto intro!: software_cong)
  next
    case (added k)
    have fresh: "um_find (m_breakpoints m) k = None" using bm_wf_fresh [OF assms(1)] added(2) by simp
    show ?thesis
      using fresh assms(2) added(1)
      by (simp add: added(6) software_def fun_eq_iff store_register_def)
  qed
  then show "software m' = software m" "r = Inr n \<Longrightarrow> software (store_register n reg m') = software m"
    by simp_all
qed

lemma set_hardware_frame:
  assumes "regset_contract os view" and "kstate_wf (view w)" and "bm_wf m"
    and "set_hardware_breakpoint os tid a ty m w = (r, m', w')"
  shows "regs_frame (view w) (view w') \<and> software m' = software m"
proof -
  define m1 where "m1 = m\<lparr>m_free_hardware_registers := um_touch [] (m_free_hardware_registers m) tid\<rparr>"
  have wf1: "bm_wf m1" using assms(3) by (simp add: m1_def bm_wf_touch_free)
  obtain st m2 w1 where i: "init_hardware_register os tid m1 w = (st, m2, w1)" by (metis prod_cases3)
  define reg where "reg = us_begin os (int \<circ> dbr_index) (um_get [] (m_free_hardware_registers m2) tid)"
  define m3 where "m3 = take_register tid reg m2"
  note i1 = init_frame [OF assms(1,2) i] init_hardware_register_wf [OF wf1 i]
  then have kw1: "kstate_wf (view w1)" using assms(2) by (simp add: regs_frame_def)
  have sw: "software m1 = software m" "software m2 = software m" "software m3 = software m"
      "software (return_register tid reg m3) = software m"
    using i1(2) by (simp_all add: software_def fun_eq_iff m1_def m3_def take_register_def return_register_def)
  have wf3: "bm_wf m3" using i1(2) by (simp add: m3_def bm_wf_take)
  have fr: "regs_frame (view w) (view u)" if "set_dbg os tid reg v w1 = (ok, u)" for v ok u
    using dr.law_set_frame [OF assms(1) kw1 that] i1(1) regs_frame_trans by blast
  have nw: "software m4 = software m" "q = Inr n \<Longrightarrow> software (store_register n reg m4) = software m"
    if "new_breakpoint tid a ty 0 m3 = (q, m4)" "ty \<noteq> SOFTWARE" for q m4 n
    using software_store [OF wf3 that(2,1)] sw(3) by simp_all
  show ?thesis
    using assms(4) sw i1(1) i fr nw
    by (auto simp: set_hardware_breakpoint_def Let_def hardware_control_def simp flip: m1_def reg_def m3_def
        split: if_splits prod.splits option.splits sum.splits breakpoint_type.splits)
qed

section \<open>Every operation implements the specification\<close>

definition refines :: "bool \<Rightarrow> nat \<Rightarrow> memory \<Rightarrow> breakpoint_manager \<Rightarrow> kstate \<Rightarrow> bool" where
  "refines le s M m st \<longleftrightarrow> bm_wf m \<and> kstate_wf st \<and> overlay le M (software m) (k_mem st s)
     \<and> (\<forall>i b. software m i = Some b \<longrightarrow> site st s (bp_tid b) (bp_address b))"

lemma refinesI:
  "bm_wf m \<Longrightarrow> kstate_wf st \<Longrightarrow> overlay le M (software m) (k_mem st s) \<Longrightarrow>
     (\<And>i b. software m i = Some b \<Longrightarrow> site st s (bp_tid b) (bp_address b)) \<Longrightarrow> refines le s M m st"
  by (simp add: refines_def)

lemma software_some:
  "software m i = Some b \<longleftrightarrow> um_find (m_breakpoints m) i = Some b \<and> bp_type b = SOFTWARE"
  by (auto simp: software_def split: option.splits if_splits)

lemma software_none: "software m i = None \<Longrightarrow> um_find (m_breakpoints m) i = Some b \<Longrightarrow> bp_type b \<noteq> SOFTWARE"
  by (auto simp: software_def split: if_splits)

lemma bm_wf_spaced: "bm_wf m \<Longrightarrow> spaced (software m)"
  unfolding spaced_def software_some bm_wf_def table_ok_def addresses_ok_def by (metis option.inject)

lemma refines_frame:
  "refines le s M m st \<Longrightarrow> regs_frame st st' \<Longrightarrow> software m' = software m \<Longrightarrow> bm_wf m' \<Longrightarrow> refines le s M m' st'"
  using site_frame [of st st'] by (auto simp: refines_def regs_frame_def)

text \<open>The world after four bytes have been written at the address of a site.\<close>

lemma site_write:
  assumes "memory_contract os view" and "site (view w) s tid a" and "length bs = 4"
    and "write_memory os tid a bs w = (ok, w')"
  shows "ok \<and> view w' = put_mem s a bs (view w)"
proof -
  have "bs \<noteq> []" using assms(3) by auto
  from mc.law_wr [OF assms(1,4) this] show ?thesis using assms(2,3) by (simp add: site_def)
qed

lemma site_read:
  assumes "memory_contract os view" and "site (view w) s tid a" and "length buf = 4"
    and "read_memory os tid a buf w = (ok, buf', w')"
  shows "ok \<and> view w' = view w \<and> buf' = mem_read (k_mem (view w) s) a 4"
proof -
  have ok: ok using mc.law_rd_total [OF assms(1,4)] assms(2,3) by (simp add: site_def)
  moreover have "view w' = view w" using mc.law_rd_view [OF assms(1,4)] .
  moreover have "buf \<noteq> []" using assms(3) by auto
  moreover have "read_memory os tid a buf w = (True, buf', w')" using assms(4) ok by simp
  ultimately show ?thesis
    using mc.law_rd [OF assms(1), of tid a buf w buf' w'] assms(2,3) by (auto simp: site_def)
qed

lemma set_software_refines:
  assumes "memory_contract os view" and "refines (os_little_endian os) s M m (view w)"
    and "site (view w) s tid a" and "1 \<le> tid" and "m_next_breakpoint_id m \<noteq> INT_MAX"
    and "set_software_breakpoint os tid a m w = (r, m', w')"
  shows "refines (os_little_endian os) s M m' (view w')"
proof (cases "a AND 3 \<noteq> 0 \<or> check_duplicate_breakpoint a m")
  case True
  with assms(2,6) show ?thesis by (auto simp: set_software_breakpoint_def split: if_splits)
next
  case False
  then have al: "insn_aligned a" and dup: "\<not> check_duplicate_breakpoint a m" by (simp_all add: insn_aligned_def)
  let ?le = "os_little_endian os" and ?n = "m_next_breakpoint_id m"
  have wf: "bm_wf m" "kstate_wf (view w)" and ov: "overlay ?le M (software m) (k_mem (view w) s)"
    and st: "\<And>i b. software m i = Some b \<Longrightarrow> site (view w) s (bp_tid b) (bp_address b)"
    using assms(2) by (simp_all add: refines_def)
  obtain ok buf w1 where rd: "read_memory os tid a (host_bytes ?le 4 (0 :: u32)) w = (ok, buf, w1)"
    by (metis prod_cases3)
  obtain ok2 w2 where wr: "write_memory os tid a (host_bytes ?le 4 BRK_OPCODE) w1 = (ok2, w2)"
    by (metis prod.exhaust)
  have r: "ok \<and> view w1 = view w \<and> buf = mem_read (k_mem (view w) s) a 4"
    by (rule site_read [OF assms(1,3) _ rd]) simp
  have w: "ok2 \<and> view w2 = put_mem s a (host_bytes ?le 4 BRK_OPCODE) (view w)"
    using site_write [OF assms(1) _ _ wr, of s] r assms(3) by simp
  obtain q m1 where nw: "new_breakpoint tid a SOFTWARE (host_word ?le buf) m = (q, m1)" by (metis prod.exhaust)
  have m': "m' = m1" "w' = w2"
    using assms(6) False rd wr nw r w by (auto simp: set_software_breakpoint_def)
  have wf': "bm_wf m1" by (rule new_breakpoint_wf [OF wf(1) dup nw])
  define b where "b = \<lparr>bp_id = ?n, bp_tid = tid, bp_address = a, bp_type = SOFTWARE, bp_enabled = True,
    original_instruction = host_word ?le buf, hardware_register = DBR_INVALID\<rparr>"
  have S: "software m1 = (software m)(?n \<mapsto> b)"
    using bm_wf_fresh [OF wf(1)] nw assms(4,5) al
    by (auto simp: new_breakpoint_def make_breakpoint_def insn_aligned_def b_def software_def fun_eq_iff Let_def
        split: if_splits)
  have saved: "mem_read (k_mem (view w) s) a 4 = mem_read M a 4"
    by (rule overlay_read [OF ov al])
      (use wf(1) no_duplicate [OF wf(1) dup] in \<open>auto simp: software_some bm_wf_def table_ok_def\<close>)
  have fresh: "software m ?n = None" using bm_wf_fresh [OF wf(1)] by (simp add: software_def)
  have "overlay ?le M ((software m)(?n \<mapsto> b)) (mem_write (k_mem (view w) s) (bp_address b) (host_bytes ?le 4 BRK_OPCODE))"
    by (rule overlay_on [OF ov]) (use bm_wf_spaced [OF wf'] S r saved fresh in \<open>simp_all add: b_def\<close>)
  then have "overlay ?le M (software m1) (k_mem (view w2) s)" using S w by (simp add: b_def)
  moreover have "site (view w2) s (bp_tid c) (bp_address c)" if "software m1 i = Some c" for i c
    using that S w st assms(3) by (auto simp: b_def split: if_splits)
  ultimately show ?thesis using m' wf' wf(2) w by (intro refinesI) auto
qed

lemma software_forget:
  "software (forget_breakpoint i b m) = (software m)(i := None)"
  "software (return_register tid reg m) = software m"
  by (simp_all add: software_def fun_eq_iff forget_breakpoint_def return_register_def Let_def)

lemma software_put:
  "software (put_breakpoint i b m) = (software m)(i := (if bp_type b = SOFTWARE then Some b else None))"
  by (simp add: software_def fun_eq_iff put_breakpoint_def)

text \<open>Setting a register from a value read before: the memory stays.\<close>

lemma get_set_frame:
  assumes "regset_contract os view" and "kstate_wf (view w)" and "get_dbg os tid reg w = (x, w1)"
  shows "regs_frame (view w) (view w1)" and "set_dbg os tid reg v w1 = (ok, w2) \<Longrightarrow> regs_frame (view w) (view w2)"
  using dr.law_get_view [OF assms(1,3)] dr.get_then_set_frame [OF assms] by simp_all

lemma remove_refines:
  assumes "memory_contract os view" and "regset_contract os view"
    and "refines (os_little_endian os) s M m (view w)" and "remove_breakpoint os i m w = (st, m', w')"
  shows "refines (os_little_endian os) s M m' (view w')"
proof (cases "software m i")
  case None
  have wf: "bm_wf m" "kstate_wf (view w)" using assms(3) by (simp_all add: refines_def)
  have "(software m)(i := None) = software m" using None by (simp add: fun_upd_idem)
  moreover have "bp_type b \<noteq> SOFTWARE" if "um_find (m_breakpoints m) i = Some b" for b
    using None that by (rule software_none)
  ultimately have "software m' = software m"
    using assms(4)
    by (auto simp: remove_breakpoint_def software_forget Let_def split: option.splits if_splits prod.splits)
  moreover have "regs_frame (view w) (view w')"
  proof (cases "um_find (m_breakpoints m) i")
    case (Some b)
    then have "bp_type b \<noteq> SOFTWARE" using None by (intro software_none)
    obtain x w1 where g: "get_dbg os (bp_tid b) (hardware_register b) w = (x, w1)" by (metis prod.exhaust)
    note f = get_set_frame [OF assms(2) wf(2) g]
    have f2: "regs_frame (view w) (view (snd (set_dbg os (bp_tid b) (hardware_register b) v w1)))" for v
      by (rule f(2) [of v "fst (set_dbg os (bp_tid b) (hardware_register b) v w1)"]) simp
    show ?thesis
      using assms(4) Some \<open>bp_type b \<noteq> SOFTWARE\<close> g f(1) f2
      by (auto simp: remove_breakpoint_def Let_def split: if_splits option.splits)
  qed (use assms(4) in \<open>auto simp: remove_breakpoint_def\<close>)
  ultimately show ?thesis
    using refines_frame [OF assms(3)] remove_breakpoint_wf [OF wf(1) assms(4)] by blast
next
  case (Some b)
  let ?le = "os_little_endian os"
  have wf: "bm_wf m" "kstate_wf (view w)" and ov: "overlay ?le M (software m) (k_mem (view w) s)"
    and st: "\<And>i b. software m i = Some b \<Longrightarrow> site (view w) s (bp_tid b) (bp_address b)"
    using assms(3) by (simp_all add: refines_def)
  obtain ok w1 where wr: "write_memory os (bp_tid b) (bp_address b)
      (host_bytes ?le 4 (original_instruction b)) w = (ok, w1)" by (metis prod.exhaust)
  have w: "ok \<and> view w1 = put_mem s (bp_address b) (host_bytes ?le 4 (original_instruction b)) (view w)"
    by (rule site_write [OF assms(1) st [OF Some] _ wr]) simp
  have m': "m' = forget_breakpoint i b m" "w' = w1"
    using assms(4) Some wr w by (auto simp: remove_breakpoint_def software_some)
  have "overlay ?le M ((software m)(i := None)) (mem_write (k_mem (view w) s) (bp_address b)
      (host_bytes ?le 4 (original_instruction b)))"
    by (rule overlay_off [OF ov bm_wf_spaced [OF wf(1)] Some]) simp_all
  then show ?thesis
    using m' w wf(2) st remove_breakpoint_wf [OF wf(1) assms(4)]
    by (intro refinesI) (auto simp: software_forget split: if_splits)
qed

lemma enable_refines:
  assumes "memory_contract os view" and "regset_contract os view"
    and "refines (os_little_endian os) s M m (view w)" and "enable os i m w = (st, m', w')"
  shows "refines (os_little_endian os) s M m' (view w')"
proof (cases "software m i")
  case None
  have wf: "bm_wf m" "kstate_wf (view w)" using assms(3) by (simp_all add: refines_def)
  have sw: "bp_type b \<noteq> SOFTWARE" if "um_find (m_breakpoints m) i = Some b" for b
    using None that by (rule software_none)
  have "(software m)(i := None) = software m" using None by (simp add: fun_upd_idem)
  with sw assms(4) have "software m' = software m"
    by (auto simp: enable_def software_put Let_def split: option.splits if_splits prod.splits)
  moreover have "regs_frame (view w) (view w')"
    using assms(4) sw get_set_frame [OF assms(2) wf(2)]
    by (auto simp: enable_def Let_def split: option.splits if_splits prod.splits)
  ultimately show ?thesis
    using refines_frame [OF assms(3)] enable_wf [OF wf(1) assms(4)] by blast
next
  case (Some b)
  let ?le = "os_little_endian os"
  have wf: "bm_wf m" "kstate_wf (view w)" and ov: "overlay ?le M (software m) (k_mem (view w) s)"
    and st: "\<And>i b. software m i = Some b \<Longrightarrow> site (view w) s (bp_tid b) (bp_address b)"
    using assms(3) by (simp_all add: refines_def)
  show ?thesis
  proof (cases "bp_enabled b")
    case True
    with assms(3,4) Some show ?thesis by (auto simp: enable_def software_some Let_def)
  next
    case False
    let ?b = "b\<lparr>bp_enabled := True\<rparr>"
    obtain ok w1 where wr: "write_memory os (bp_tid b) (bp_address b) (host_bytes ?le 4 BRK_OPCODE) w = (ok, w1)"
      by (metis prod.exhaust)
    have w: "ok \<and> view w1 = put_mem s (bp_address b) (host_bytes ?le 4 BRK_OPCODE) (view w)"
      by (rule site_write [OF assms(1) st [OF Some] _ wr]) simp
    have m': "m' = put_breakpoint i ?b m" "w' = w1"
      using assms(4) Some wr w False by (auto simp: enable_def software_some Let_def)
    have S: "software m' = (software m)(i \<mapsto> ?b)"
      using Some by (simp add: m' software_put software_some)
    have "overlay ?le M ((software m)(i \<mapsto> ?b)) (mem_write (k_mem (view w) s) (bp_address ?b) (host_bytes ?le 4 BRK_OPCODE))"
      by (rule overlay_on [OF ov spaced_flag [OF bm_wf_spaced [OF wf(1)] Some]])
        (use ov Some in \<open>auto simp: overlay_def\<close>)
    then show ?thesis
      using m' S w wf(2) st Some enable_wf [OF wf(1) assms(4)]
      by (intro refinesI) (auto split: if_splits)
  qed
qed

lemma disable_refines:
  assumes "memory_contract os view" and "regset_contract os view"
    and "refines (os_little_endian os) s M m (view w)" and "disable os i m w = (st, m', w')"
  shows "refines (os_little_endian os) s M m' (view w')"
proof (cases "software m i")
  case None
  have wf: "bm_wf m" "kstate_wf (view w)" using assms(3) by (simp_all add: refines_def)
  have sw: "bp_type b \<noteq> SOFTWARE" if "um_find (m_breakpoints m) i = Some b" for b
    using None that by (rule software_none)
  have "(software m)(i := None) = software m" using None by (simp add: fun_upd_idem)
  with sw assms(4) have "software m' = software m"
    by (auto simp: disable_def software_put Let_def split: option.splits if_splits prod.splits)
  moreover have "regs_frame (view w) (view w')"
    using assms(4) sw get_set_frame [OF assms(2) wf(2)]
    by (auto simp: disable_def Let_def split: option.splits if_splits prod.splits)
  ultimately show ?thesis
    using refines_frame [OF assms(3)] disable_wf [OF wf(1) assms(4)] by blast
next
  case (Some b)
  let ?le = "os_little_endian os"
  have wf: "bm_wf m" "kstate_wf (view w)" and ov: "overlay ?le M (software m) (k_mem (view w) s)"
    and st: "\<And>i b. software m i = Some b \<Longrightarrow> site (view w) s (bp_tid b) (bp_address b)"
    using assms(3) by (simp_all add: refines_def)
  show ?thesis
  proof (cases "bp_enabled b")
    case False
    with assms(3,4) Some show ?thesis by (auto simp: disable_def software_some Let_def)
  next
    case True
    let ?b = "b\<lparr>bp_enabled := False\<rparr>" and ?bs = "host_bytes ?le 4 (original_instruction b)"
    obtain ok w1 where wr: "write_memory os (bp_tid b) (bp_address b) ?bs w = (ok, w1)" by (metis prod.exhaust)
    have w: "ok \<and> view w1 = put_mem s (bp_address b) ?bs (view w)"
      by (rule site_write [OF assms(1) st [OF Some] _ wr]) simp
    have m': "m' = put_breakpoint i ?b m" "w' = w1"
      using assms(4) Some wr w True by (auto simp: disable_def software_some Let_def)
    have S: "software m' = (software m)(i \<mapsto> ?b)"
      using Some by (simp add: m' software_put software_some)
    have "overlay ?le M ((software m)(i \<mapsto> ?b)) (mem_write (k_mem (view w) s) (bp_address b) ?bs)"
      by (rule overlay_off [OF ov bm_wf_spaced [OF wf(1)] Some]) auto
    then show ?thesis
      using m' S w wf(2) st Some disable_wf [OF wf(1) assms(4)]
      by (intro refinesI) (auto split: if_splits)
  qed
qed

section \<open>Sessions\<close>

text \<open>
  A run of calls on the threads of the address space \<open>s\<close>, with the program's own memory \<open>M\<close>.  Software
  breakpoints are set at instructions whose page can be read and written.  Between calls the tracee
  may run and change anything but the instructions that have a software breakpoint.
\<close>

inductive session ::
  "'w os \<Rightarrow> ('w \<Rightarrow> kstate) \<Rightarrow> nat \<Rightarrow> memory \<Rightarrow> breakpoint_manager \<Rightarrow> 'w \<Rightarrow> bool" for os view s where
  Session_start: "kstate_wf (view w) \<Longrightarrow> session os view s (k_mem (view w) s) BreakpointManager w"
| Session_set_software: "session os view s M m w \<Longrightarrow> site (view w) s tid a \<Longrightarrow> 1 \<le> tid \<Longrightarrow>
    m_next_breakpoint_id m \<noteq> INT_MAX \<Longrightarrow> set_software_breakpoint os tid a m w = (r, m', w') \<Longrightarrow>
    session os view s M m' w'"
| Session_set_hardware: "session os view s M m w \<Longrightarrow> set_hardware_breakpoint os tid a ty m w = (r, m', w') \<Longrightarrow>
    session os view s M m' w'"
| Session_remove: "session os view s M m w \<Longrightarrow> remove_breakpoint os i m w = (st, m', w') \<Longrightarrow>
    session os view s M m' w'"
| Session_enable: "session os view s M m w \<Longrightarrow> enable os i m w = (st, m', w') \<Longrightarrow> session os view s M m' w'"
| Session_disable: "session os view s M m w \<Longrightarrow> disable os i m w = (st, m', w') \<Longrightarrow> session os view s M m' w'"
| Session_init: "session os view s M m w \<Longrightarrow> init_hardware_register os tid m w = (st, m', w') \<Longrightarrow>
    session os view s M m' w'"
| Session_tracee: "session os view s M m w \<Longrightarrow> kstate_wf (view w') \<Longrightarrow>
    (\<And>i b. software m i = Some b \<Longrightarrow> site (view w') s (bp_tid b) (bp_address b)) \<Longrightarrow>
    (\<And>i b x. software m i = Some b \<Longrightarrow> covers b x \<Longrightarrow>
       M' x = M x \<and> k_mem (view w') s x = k_mem (view w) s x) \<Longrightarrow>
    (\<And>x. (\<And>i b. software m i = Some b \<Longrightarrow> \<not> covers b x) \<Longrightarrow> M' x = k_mem (view w') s x) \<Longrightarrow>
    session os view s M' m w'"

lemma overlay_tracee:
  assumes "overlay le M S mem"
    and "\<And>i b x. S i = Some b \<Longrightarrow> covers b x \<Longrightarrow> M' x = M x \<and> mem' x = mem x"
    and "\<And>x. (\<And>i b. S i = Some b \<Longrightarrow> \<not> covers b x) \<Longrightarrow> M' x = mem' x"
  shows "overlay le M' S mem'"
  unfolding overlay_def
proof (intro conjI allI impI)
  fix x assume a: "\<forall>i b. S i = Some b \<and> bp_enabled b \<longrightarrow> \<not> covers b x"
  show "mem' x = M' x"
  proof (cases "\<exists>i b. S i = Some b \<and> covers b x")
    case True
    then obtain i b where "S i = Some b" "covers b x" by blast
    with assms(2) overlay_elsewhere [OF assms(1), of x] a show ?thesis by metis
  next
    case False
    then show ?thesis using assms(3) by metis
  qed
next
  fix i b assume b: "S i = Some b \<and> bp_enabled b"
  then have "mem_read mem' (bp_address b) 4 = mem_read mem (bp_address b) 4"
    using assms(2) by (intro mem_read_cong) (auto simp: covers_def)
  with b assms(1) show "mem_read mem' (bp_address b) 4 = host_bytes le 4 BRK_OPCODE"
    by (auto simp: overlay_def)
next
  fix i b assume b: "S i = Some b"
  then have "mem_read M' (bp_address b) 4 = mem_read M (bp_address b) 4"
    using assms(2) by (intro mem_read_cong) (auto simp: covers_def)
  with b assms(1) show "host_bytes le 4 (original_instruction b) = mem_read M' (bp_address b) 4"
    by (auto simp: overlay_def)
qed

lemma software_initial: "software BreakpointManager i = None"
  by (simp add: software_def BreakpointManager_def)

lemma session_refines:
  assumes "memory_contract os view" and "regset_contract os view"
  shows "session os view s M m w \<Longrightarrow> refines (os_little_endian os) s M m (view w)"
proof (induction rule: session.induct)
  case (Session_start w)
  then show ?case
    by (simp add: refines_def bm_wf_initial overlay_def software_initial)
next
  case (Session_set_software M m w tid a r m' w')
  then show ?case using set_software_refines [OF assms(1)] by blast
next
  case (Session_set_hardware M m w tid a ty r m' w')
  then have "bm_wf m" "kstate_wf (view w)" by (simp_all add: refines_def)
  with Session_set_hardware show ?case
    using set_hardware_frame [OF assms(2)] set_hardware_breakpoint_wf refines_frame by metis
next
  case (Session_remove M m w i st m' w')
  then show ?case using remove_refines [OF assms] by blast
next
  case (Session_enable M m w i st m' w')
  then show ?case using enable_refines [OF assms] by blast
next
  case (Session_disable M m w i st m' w')
  then show ?case using disable_refines [OF assms] by blast
next
  case (Session_init M m w tid st m' w')
  then have wf: "bm_wf m" "kstate_wf (view w)" by (simp_all add: refines_def)
  with Session_init show ?case
    using init_frame [OF assms(2)] init_hardware_register_wf [OF wf(1)] refines_frame software_cong by metis
next
  case (Session_tracee M m w w' M')
  from Session_tracee.IH have "bm_wf m" "overlay (os_little_endian os) M (software m) (k_mem (view w) s)"
    by (simp_all add: refines_def)
  from overlay_tracee [OF this(2), of M' "k_mem (view w') s"] \<open>bm_wf m\<close> Session_tracee.hyps
  show ?case by (intro refinesI) auto
qed

text \<open>The demonstration run: set a breakpoint at \<open>0x8000\<close>, and one at \<open>0x8004\<close> that is removed again.\<close>

definition demo_removed :: "breakpoint_manager \<times> kstate" where
  "demo_removed = snd (remove_breakpoint sim_os 1 demo_manager demo_world)"

lemma demo_site: "site demo_kernel 0 100 0x8000"
  by code_simp

lemma demo_session: "session sim_os id 0 (k_mem demo_kernel 0) demo_manager demo_world"
proof (rule session.Session_set_software)
  show "session sim_os id 0 (k_mem demo_kernel 0) BreakpointManager demo_kernel"
    using session.Session_start [of id demo_kernel sim_os 0] demo_kernel_wf by simp
  show "set_software_breakpoint sim_os 100 0x8000 BreakpointManager demo_kernel =
      (fst (set_software_breakpoint sim_os 100 0x8000 BreakpointManager demo_kernel), demo_manager, demo_world)"
    by (simp add: demo_manager_def demo_world_def)
qed (simp_all add: demo_site BreakpointManager_def INT_MAX_def)

lemma demo_session_removed:
  "session sim_os id 0 (k_mem demo_kernel 0) (fst demo_removed) (snd demo_removed)"
  by (rule session.Session_remove [OF demo_session, of 1 "fst (remove_breakpoint sim_os 1 demo_manager demo_world)"])
    (simp add: demo_removed_def)





section \<open>Hardware breakpoints\<close>

lemma put_dbg_restores:
  assumes "kstate_wf st" and "length (dbg_regs d) = 16"
  shows "put_dbg tid (k_dbg st tid) (put_dbg tid d st) = st"
proof -
  have "k_dbg_slots st \<le> 16" "length (dbg_regs (k_dbg st tid)) = 16"
    using assms(1) by (simp_all add: kstate_wf_def)
  then show ?thesis using assms(2) by (simp add: put_dbg_def)
qed

lemma count_prefix:
  assumes "list_all (\<lambda>i. f i \<noteq> v) [k..<n]" and "k \<le> n" and "\<And>i. i < k \<Longrightarrow> f i = v"
  shows "length (filter (\<lambda>i. f i = v) [0..<n]) = k"
proof -
  have "[0..<n] = [0..<k] @ [k..<n]" using assms(2) by (metis le0 le_add_diff_inverse upt_add_eq_append)
  moreover have "filter (\<lambda>i. f i = v) [0..<k] = [0..<k]" using assms(3) by simp
  moreover have "filter (\<lambda>i. f i = v) [k..<n] = []" using assms(1) by (auto simp: filter_empty_conv list_all_iff)
  ultimately show ?thesis by simp
qed

text \<open>
  C24: Initialising a stopped thread's debug registers succeeds, finds exactly the register pairs the
  processor has (their remains do not look like the test value), makes exactly these free, and
  leaves the tracee as it was.
\<close>

theorem init_hardware_register_counts:
  assumes "regset_contract os view" and "kstate_wf (view w)" and "k_stopped (view w) tid"
    and "bm_reachable os m w0" and "um_find (m_hardware_registers_count m) tid = None"
    and "list_all (\<lambda>i. dbg_slot (view w) tid i \<noteq> (test_address, test_control)) [k_dbg_slots (view w)..<16]"
    and "init_hardware_register os tid m w = (st, m', w')"
  shows "is_success st \<and> view w' = view w
    \<and> um_get 0 (m_hardware_registers_count m') tid = int (k_dbg_slots (view w))
    \<and> set (um_get [] (m_free_hardware_registers m') tid) = (\<lambda>i. dbr_enumerators ! i) ` {0..<k_dbg_slots (view w)}
    \<and> m_breakpoints m' = m_breakpoints m"
proof -
  let ?d = "k_dbg (view w) tid" and ?k = "k_dbg_slots (view w)"
  let ?t = "?d\<lparr>dbg_regs := replicate 16 (test_address, test_control)\<rparr>"
  have wf: "?k \<le> 16" "length (dbg_regs ?d) = 16" using assms(2) by (simp_all add: kstate_wf_def)
  obtain g w1 where g: "get_all_dbg os tid w = (g, w1)" by (metis prod.exhaust)
  have g1: "view w1 = view w" "g = Some ?d"
    using get_all_dbg_contract(1,3) [OF assms(1) g] assms(3) by simp_all
  obtain ok2 w2 where s2: "set_all_dbg os tid (fill_test_values ?d) w1 = (ok2, w2)" by (metis prod.exhaust)
  have t: "fill_test_values ?d = ?t" by (rule fill_test_values_regs [OF wf(2)])
  have r2: "ok2" "view w2 = put_dbg tid ?t (view w)"
    using set_all_dbg_contract(2,3) [OF assms(1) s2] t g1(1) assms(3) by simp_all
  obtain v w3 where g3: "get_all_dbg os tid w2 = (v, w3)" by (metis prod.exhaust)
  have r3: "view w3 = view w2" "v = Some (k_dbg (view w2) tid)"
    using get_all_dbg_contract(1,3) [OF assms(1) g3] r2 assms(3) by simp_all
  obtain ok4 w4 where s4: "set_all_dbg os tid ?d w3 = (ok4, w4)" by (metis prod.exhaust)
  have r4: "ok4" "view w4 = view w"
    using set_all_dbg_contract(2,3) [OF assms(1) s4 wf(2)] r3 r2 assms(2,3) put_dbg_restores [of "view w" ?t tid]
    by simp_all
  have found: "length (filter (\<lambda>i. dbg_regs (k_dbg (view w2) tid) ! i = (test_address, test_control)) [0..<16]) = ?k"
    by (rule count_prefix [OF _ wf(1)])
      (use assms(6) r2(2) wf in \<open>simp_all add: put_dbg_def dbg_slot_def list_all_iff nth_append\<close>)
  have none: "um_get [] (m_free_hardware_registers m) tid = []"
    using bm_reachable_inv [OF assms(4)] assms(5) by (simp add: bm_wf_def)
  show ?thesis
    using assms(5,7) g g1 s2 r2 g3 r3 s4 r4 found none
    by (auto simp: init_hardware_register_def Let_def count_verified_get um_get_fun free_registers_get fold_us_insert)
qed

theorem init_hardware_register_counts_witness:
  "um_get 0 (m_hardware_registers_count (fst (snd (init_hardware_register sim_os 100 demo_manager demo_world)))) 100 = 4"
proof -
  have a: "um_find (m_hardware_registers_count demo_manager) 100 = None"
    "list_all (\<lambda>i. dbg_slot demo_world 100 i \<noteq> (test_address, test_control)) [k_dbg_slots demo_world..<16]"
    "k_stopped demo_world 100" "k_dbg_slots demo_world = 4"
    by code_simp+
  have "kstate_wf demo_world"
    using session_refines [OF sim_memory_contract sim_regset_contract demo_session] by (simp add: refines_def)
  with init_hardware_register_counts [OF sim_regset_contract, of demo_world 100 demo_manager demo_world
      "fst (init_hardware_register sim_os 100 demo_manager demo_world)"
      "fst (snd (init_hardware_register sim_os 100 demo_manager demo_world))"
      "snd (snd (init_hardware_register sim_os 100 demo_manager demo_world))"] a demo_reachable
  show ?thesis by simp
qed

text \<open>The control words of the three types, and the effect of the two updates on the enable bit.\<close>

definition control_word :: "breakpoint_type \<Rightarrow> u32" where
  "control_word ty = (case hardware_control ty of None \<Rightarrow> 0 | Some c \<Rightarrow> ucast c)"

lemma control_word_simps:
  "control_word HARDWARE_EXECUTION = 0x41" "control_word HARDWARE_WRITE = 0x43"
  "control_word HARDWARE_READWRITE = 0x45"
  by code_simp+

lemma hardware_control_some: "ty \<noteq> SOFTWARE \<Longrightarrow> \<exists>c. hardware_control ty = Some c \<and> ucast c = control_word ty"
  by (cases ty) (simp_all add: control_word_def hardware_control_def Let_def)

lemma bit_one_word: "bit (1 :: 'a::len word) n \<longleftrightarrow> n = 0"
  by (auto simp: bit_1_iff)

lemma bit_clear_enable: "bit (clear_enable c) n \<longleftrightarrow> n \<noteq> 0 \<and> bit c n"
  by (auto simp: clear_enable_def DBGBCR_ENABLE_def bit_ucast_iff bit_and_iff bit_not_iff bit_one_word
      dest: bit_imp_le_length)

lemma bit_set_enable: "bit (set_enable c) n \<longleftrightarrow> n = 0 \<or> bit c n"
  by (auto simp: set_enable_def DBGBCR_ENABLE_def bit_ucast_iff bit_or_iff bit_one_word dest: bit_imp_le_length)

lemma set_clear_enable: "bit c 0 \<Longrightarrow> set_enable (clear_enable c) = c"
  by (rule bit_word_eqI) (auto simp: bit_set_enable bit_clear_enable)

lemma free_register_index:
  assumes "bm_wf m" and "r \<in> set (um_get [] (m_free_hardware_registers m) tid)"
  shows "dbr_index r < 16"
proof -
  have "int (dbr_index r) < um_get 0 (m_hardware_registers_count m) tid"
    "um_get 0 (m_hardware_registers_count m) tid \<le> 16"
    using assms unfolding bm_wf_def registers_ok_def by blast+
  then show ?thesis by linarith
qed

lemma used_register_index:
  assumes "bm_wf m" and "um_find (m_breakpoints m) i = Some b" and "bp_type b \<noteq> SOFTWARE"
  shows "hardware_register b \<noteq> DBR_INVALID" and "dbr_index (hardware_register b) < 16"
proof -
  show 1: "hardware_register b \<noteq> DBR_INVALID"
    using assms unfolding bm_wf_def registers_ok_def by blast
  have "int (dbr_index (hardware_register b)) < um_get 0 (m_hardware_registers_count m) (bp_tid b)"
    "um_get 0 (m_hardware_registers_count m) (bp_tid b) \<le> 16"
    using assms 1 unfolding bm_wf_def registers_ok_def by blast+
  then show "dbr_index (hardware_register b) < 16" by linarith
qed


text \<open>The witnesses' run goes on: the registers of thread 100 are initialised and one is used.\<close>

definition demo_init :: "breakpoint_manager \<times> kstate" where
  "demo_init = snd (init_hardware_register sim_os 100 demo_manager demo_world)"

definition demo_hardware :: "breakpoint_manager \<times> kstate" where
  "demo_hardware = snd (set_hardware_breakpoint sim_os 100 0x1004 HARDWARE_WRITE (fst demo_init) (snd demo_init))"

lemma demo_init_reachable: "bm_reachable sim_os (fst demo_init) (snd demo_init)"
  by (rule bm_reachable.Next [OF demo_reachable],
      rule bm_step.Step_init [of sim_os 100 _ _ "fst (init_hardware_register sim_os 100 demo_manager demo_world)"])
    (simp add: demo_init_def)

lemma demo_hardware_reachable: "bm_reachable sim_os (fst demo_hardware) (snd demo_hardware)"
  by (rule bm_reachable.Next [OF demo_init_reachable],
      rule bm_step.Step_set_hardware [of sim_os 100 "0x1004" HARDWARE_WRITE _ _
        "fst (set_hardware_breakpoint sim_os 100 0x1004 HARDWARE_WRITE (fst demo_init) (snd demo_init))"])
    (simp add: demo_hardware_def)

lemma demo_wf: "kstate_wf (snd demo_init)" "kstate_wf (snd demo_hardware)"
proof -
  have 1: "session sim_os id 0 (k_mem demo_kernel 0) (fst demo_init) (snd demo_init)"
    by (rule session.Session_init [OF demo_session, of 100 "fst (init_hardware_register sim_os 100 demo_manager demo_world)"])
      (simp add: demo_init_def)
  have 2: "session sim_os id 0 (k_mem demo_kernel 0) (fst demo_hardware) (snd demo_hardware)"
    by (rule session.Session_set_hardware [OF 1, of 100 "0x1004" HARDWARE_WRITE
          "fst (set_hardware_breakpoint sim_os 100 0x1004 HARDWARE_WRITE (fst demo_init) (snd demo_init))"])
      (simp add: demo_hardware_def)
  show "kstate_wf (snd demo_init)" "kstate_wf (snd demo_hardware)"
    using session_refines [OF sim_memory_contract sim_regset_contract 1]
      session_refines [OF sim_memory_contract sim_regset_contract 2] by (simp_all add: refines_def)
qed


text \<open>
  C25: Removing a hardware breakpoint of a stopped thread succeeds: it is gone from the table, its
  debug register is free again, and of the tracee only the enable bit of that register's control
  word has changed, to zero.
\<close>

theorem remove_hardware_breakpoint_correct:
  assumes "regset_contract os view" and "kstate_wf (view w)" and "bm_reachable os m w0"
    and "get_breakpoint i m = Some b" and "bp_type b \<noteq> SOFTWARE" and "k_stopped (view w) (bp_tid b)"
    and "remove_breakpoint os i m w = (st, m', w')"
  shows "is_success st \<and> get_breakpoint i m' = None
    \<and> set (um_get [] (m_free_hardware_registers m') (bp_tid b))
        = insert (hardware_register b) (set (um_get [] (m_free_hardware_registers m) (bp_tid b)))
    \<and> (let k = dbr_index (hardware_register b); slot = dbg_slot (view w) (bp_tid b) k
       in view w' = put_slot (bp_tid b) k (fst slot, clear_enable (snd slot)) (view w))"
proof -
  have wf: "bm_wf m" by (rule bm_reachable_inv [OF assms(3)])
  have b: "um_find (m_breakpoints m) i = Some b" using assms(4) by (simp add: get_breakpoint_def)
  note inv = used_register_index(1) [OF wf b assms(5)] and lt = used_register_index(2) [OF wf b assms(5)]
  obtain x w1 where g: "get_dbg os (bp_tid b) (hardware_register b) w = (x, w1)" by (metis prod.exhaust)
  obtain y where y: "x = Some y" using dr.law_get_total [OF assms(1) g lt assms(6)] by auto
  obtain ok w2 where s: "set_dbg os (bp_tid b) (hardware_register b) (fst y, clear_enable (snd y)) w1 = (ok, w2)"
    by (metis prod.exhaust)
  have v1: "view w1 = view w" by (rule dr.law_get_view [OF assms(1) g])
  have ok by (rule dr.law_set_total [OF assms(1) _ s lt]) (simp_all add: v1 assms(2,6))
  with s have "set_dbg os (bp_tid b) (hardware_register b) (fst y, clear_enable (snd y)) w1 = (True, w2)" by simp
  from dr.modify [OF assms(1,2) g [unfolded y], of "\<lambda>y. (fst y, clear_enable (snd y))", OF this lt]
  show ?thesis
    using assms(5,7) b inv g y s
    by (auto simp: remove_breakpoint_def Let_def get_breakpoint_def forget_breakpoint_def return_register_def
        um_get_fun split: prod.splits)
qed

theorem remove_hardware_breakpoint_correct_witness:
  "is_success (fst (remove_breakpoint sim_os 2 (fst demo_hardware) (snd demo_hardware)))"
proof -
  have "map_option (\<lambda>b. (bp_type b = SOFTWARE, bp_tid b)) (get_breakpoint 2 (fst demo_hardware)) = Some (False, 100)"
    and st: "k_stopped (snd demo_hardware) 100"
    by code_simp+
  then obtain b where b: "get_breakpoint 2 (fst demo_hardware) = Some b" "bp_type b \<noteq> SOFTWARE" "bp_tid b = 100"
    by (auto simp: map_option_case split: option.splits)
  from remove_hardware_breakpoint_correct [OF sim_regset_contract, of "snd demo_hardware" "fst demo_hardware"
      "snd demo_hardware" 2 b "fst (remove_breakpoint sim_os 2 (fst demo_hardware) (snd demo_hardware))"
      "fst (snd (remove_breakpoint sim_os 2 (fst demo_hardware) (snd demo_hardware)))"
      "snd (snd (remove_breakpoint sim_os 2 (fst demo_hardware) (snd demo_hardware)))"]
    b st demo_hardware_reachable demo_wf(2)
  show ?thesis by simp
qed

lemma put_slot_put_slot [simp]: "kstate_wf st \<Longrightarrow> put_slot p i v (put_slot p i u st) = put_slot p i v st"
  by (simp add: put_slot_def put_dbg_def kstate_wf_def drop_update_swap take_update_swap)

lemma put_slot_same: "kstate_wf st \<Longrightarrow> put_slot p i (dbg_slot st p i) st = st"
  by (simp add: put_slot_def put_dbg_def dbg_slot_def list_update_id)

text \<open>One update of the control word of a stopped thread's register, as \<open>enable\<close> and \<open>disable\<close> make it.\<close>

lemma update_control:
  assumes "regset_contract os view" and "kstate_wf (view w)" and "k_stopped (view w) tid"
    and "dbr_index reg < 16"
  obtains a c w1 w2 where "get_dbg os tid reg w = (Some (a, c), w1)"
    and "set_dbg os tid reg (a, f c) w1 = (True, w2)"
    and "view w2 = put_slot tid (dbr_index reg)
           (fst (dbg_slot (view w) tid (dbr_index reg)), f (snd (dbg_slot (view w) tid (dbr_index reg)))) (view w)"
proof -
  obtain x w1 where g: "get_dbg os tid reg w = (x, w1)" by (metis prod.exhaust)
  obtain c where c: "x = Some c" using dr.law_get_total [OF assms(1) g assms(4,3)] by auto
  obtain ok w2 where s: "set_dbg os tid reg (fst c, f (snd c)) w1 = (ok, w2)" by (metis prod.exhaust)
  have v1: "view w1 = view w" by (rule dr.law_get_view [OF assms(1) g])
  have ok by (rule dr.law_set_total [OF assms(1) _ s assms(4)]) (simp_all add: v1 assms(2,3))
  with s have s': "set_dbg os tid reg (fst c, f (snd c)) w1 = (True, w2)" by simp
  from dr.modify [OF assms(1,2) g [unfolded c], of "\<lambda>c. (fst c, f (snd c))", OF this assms(4)]
  show ?thesis using that [of "fst c" "snd c" w1 w2] g c s' by simp
qed

text \<open>
  Disabling an enabled hardware breakpoint of a stopped thread clears the enable bit of its
  debug register and enabling it again brings the tracee back exactly to where it was; the
  breakpoint's flag follows.
\<close>

theorem disable_enable_hardware:
  assumes "regset_contract os view" and "kstate_wf (view w)" and "bm_reachable os m w0"
    and "get_breakpoint i m = Some b" and "bp_type b \<noteq> SOFTWARE" and "bp_enabled b"
    and "k_stopped (view w) (bp_tid b)"
    and "dbr_index (hardware_register b) < k_dbg_slots (view w)"
    and "bit (snd (dbg_slot (view w) (bp_tid b) (dbr_index (hardware_register b)))) 0"
    and "disable os i m w = (st1, m1, w1)" and "enable os i m1 w1 = (st2, m2, w2)"
  shows "is_success st1 \<and> is_success st2
    \<and> get_breakpoint i m1 = Some (b\<lparr>bp_enabled := False\<rparr>) \<and> get_breakpoint i m2 = Some b
    \<and> \<not> bit (snd (dbg_slot (view w1) (bp_tid b) (dbr_index (hardware_register b)))) 0
    \<and> view w2 = view w"
proof -
  let ?k = "dbr_index (hardware_register b)" and ?t = "bp_tid b"
  let ?slot = "dbg_slot (view w) ?t ?k"
  have wf: "bm_wf m" by (rule bm_reachable_inv [OF assms(3)])
  have b: "um_find (m_breakpoints m) i = Some b" using assms(4) by (simp add: get_breakpoint_def)
  note inv = used_register_index(1) [OF wf b assms(5)] and lt = used_register_index(2) [OF wf b assms(5)]
  obtain x c u1 u2 where d: "get_dbg os ?t (hardware_register b) w = (Some (x, c), u1)"
      "set_dbg os ?t (hardware_register b) (x, clear_enable c) u1 = (True, u2)"
      "view u2 = put_slot ?t ?k (fst ?slot, clear_enable (snd ?slot)) (view w)"
    by (rule update_control [OF assms(1,2,7) lt, of clear_enable])
  have r1: "is_success st1" "m1 = put_breakpoint i (b\<lparr>bp_enabled := False\<rparr>) m" "w1 = u2"
    using assms(10) by (auto simp: disable_def Let_def assms(5,6) b inv d(1,2))
  have k1: "kstate_wf (view w1)" "k_stopped (view w1) ?t" using r1(3) d(3) assms(2,7) by simp_all
  have slot1: "dbg_slot (view w1) ?t ?k = (fst ?slot, clear_enable (snd ?slot))"
    using r1(3) d(3) dbg_slot_put_slot [OF assms(2) lt] assms(8) by simp
  obtain x' c' u3 u4 where e: "get_dbg os ?t (hardware_register b) w1 = (Some (x', c'), u3)"
      "set_dbg os ?t (hardware_register b) (x', set_enable c') u3 = (True, u4)"
      "view u4 = put_slot ?t ?k (fst (dbg_slot (view w1) ?t ?k), set_enable (snd (dbg_slot (view w1) ?t ?k))) (view w1)"
    by (rule update_control [OF assms(1) k1 lt, of set_enable])
  have flag: "b\<lparr>bp_enabled := True\<rparr> = b" using assms(6) by (cases b) simp
  have r2: "is_success st2" "m2 = put_breakpoint i b m1" "w2 = u4"
    using assms(11) by (auto simp: flag enable_def Let_def put_breakpoint_def assms(5) b inv e(1,2) r1(2))
  have "view w2 = put_slot ?t ?k ?slot (view w)"
    using r2(3) e(3) slot1 r1(3) d(3) assms(2,9) by (simp add: set_clear_enable)
  then show ?thesis
    using r1 r2 slot1 put_slot_same [OF assms(2)]
    by (simp add: get_breakpoint_def put_breakpoint_def bit_clear_enable)
qed

theorem disable_enable_hardware_witness:
  "is_success (fst (disable sim_os 2 (fst demo_hardware) (snd demo_hardware)))"
proof -
  let ?d = "disable sim_os 2 (fst demo_hardware) (snd demo_hardware)"
  let ?e = "enable sim_os 2 (fst (snd ?d)) (snd (snd ?d))"
  have "map_option (\<lambda>b. (bp_type b = SOFTWARE, bp_tid b, bp_enabled b, hardware_register b))
      (get_breakpoint 2 (fst demo_hardware)) = Some (False, 100, True, DBG0)"
    and st: "k_stopped (snd demo_hardware) 100" "k_dbg_slots (snd demo_hardware) = 4"
      "snd (dbg_slot (snd demo_hardware) 100 0) = 0x43"
    by code_simp+
  then obtain b where b: "get_breakpoint 2 (fst demo_hardware) = Some b" "bp_type b \<noteq> SOFTWARE" "bp_tid b = 100"
      "bp_enabled b" "hardware_register b = DBG0"
    by (auto simp: map_option_case split: option.splits)
  from disable_enable_hardware [OF sim_regset_contract, of "snd demo_hardware" "fst demo_hardware" "snd demo_hardware"
      2 b "fst ?d" "fst (snd ?d)" "snd (snd ?d)" "fst ?e" "fst (snd ?e)" "snd (snd ?e)"]
    b st demo_hardware_reachable demo_wf(2)
  show ?thesis by (simp add: bit_numeral_rec(1) numeral_eq_Suc)
qed

section \<open>Calls that set nothing\<close>

text \<open>A call with a misaligned address or the address of an existing breakpoint changes nothing.\<close>

lemma set_breakpoint_refused:
  "(a AND 3 \<noteq> 0 \<longrightarrow> set_software_breakpoint os tid a m w = (Inl Invalid_argument, m, w)
      \<and> set_hardware_breakpoint os tid a ty m w = (Inl Invalid_argument, m, w))
   \<and> (a AND 3 = 0 \<and> a \<in> set (map bp_address (get_breakpoints m)) \<longrightarrow>
        set_software_breakpoint os tid a m w = (Inr (-1), m, w)
      \<and> set_hardware_breakpoint os tid a ty m w = (Inr (-1), m, w))"
  by (auto simp: set_software_breakpoint_def set_hardware_breakpoint_def check_duplicate_breakpoint_def
      get_breakpoints_def list_ex_iff)

text \<open>
  C36: On a page that can be read but not written, such as program text, setting a software
  breakpoint of a stopped thread reports a new breakpoint, but what is stored are the eight bytes
  of an address in the debugger itself: no \<open>BRK\<close>, and the following instruction is lost.
\<close>

theorem software_breakpoint_on_code_page:
  assumes "memory_contract os view" and "k_space (view w) tid = Some s" and "k_stopped (view w) tid"
    and "on_range (k_readable (view w) s) a 4" and "\<not> k_writable (view w) s a" and "on_range (k_mapped (view w) s) a 8"
    and "insn_aligned a" and "1 \<le> tid" and "m_next_breakpoint_id m \<noteq> INT_MAX"
    and "list_all (\<lambda>b. bp_address b \<noteq> a) (get_breakpoints m)"
    and "set_software_breakpoint os tid a m w = (r, m', w')"
  shows "r = Inr (m_next_breakpoint_id m)
    \<and> view w' = put_mem s a (host_bytes (os_little_endian os) 8 (os_word_address os)) (view w)"
proof -
  let ?le = "os_little_endian os"
  obtain ok buf w1 where rd: "read_memory os tid a (host_bytes ?le 4 (0 :: u32)) w = (ok, buf, w1)"
    by (metis prod_cases3)
  obtain ok2 w2 where wr: "write_memory os tid a (host_bytes ?le 4 BRK_OPCODE) w1 = (ok2, w2)"
    by (metis prod.exhaust)
  have r: "view w1 = view w" "ok"
    using mc.law_rd_view [OF assms(1) rd] mc.law_rd_total [OF assms(1) rd assms(2)] assms(4) by simp_all
  have ne: "host_bytes ?le 4 BRK_OPCODE \<noteq> []" by (metis length_host_bytes list.size(3) zero_neq_numeral)
  have w2: "ok2 \<and> view w2 = put_mem s a (host_bytes ?le 8 (os_word_address os)) (view w)"
    using write_memory_slow [OF assms(1) wr ne, of s] assms(2,3,5,6) by (simp add: r)
  have dup: "\<not> check_duplicate_breakpoint a m"
    using assms(10) by (simp add: check_duplicate_breakpoint_def get_breakpoints_def list_ex_iff list_all_iff)
  show ?thesis
    using assms(7-9,11) dup rd wr r(2) w2
    by (auto simp: set_software_breakpoint_def new_breakpoint_def make_breakpoint_def insn_aligned_def Let_def)
qed

theorem software_breakpoint_on_code_page_witness:
  "mem_read (k_mem (snd (snd (set_software_breakpoint sim_os 100 0x1000 BreakpointManager demo_kernel))) 0) 0x1000 4
     \<noteq> host_bytes True 4 BRK_OPCODE"
proof -
  let ?r = "set_software_breakpoint sim_os 100 0x1000 BreakpointManager demo_kernel"
  have a: "on_range (k_readable demo_kernel 0) 0x1000 4" "on_range (k_mapped demo_kernel 0) 0x1000 8"
    "\<not> k_writable demo_kernel 0 0x1000" "k_space demo_kernel 100 = Some 0" "k_stopped demo_kernel 100"
    "insn_aligned 0x1000" "get_breakpoints BreakpointManager = []"
    by code_simp+
  have "snd (snd ?r) = put_mem 0 0x1000 (host_bytes True 8 (0x7FC0001000 :: u64)) demo_kernel"
    using software_breakpoint_on_code_page [OF sim_memory_contract, of demo_kernel 100 0 "0x1000" BreakpointManager
        "fst ?r" "fst (snd ?r)" "snd (snd ?r)"] a
    by (simp add: BreakpointManager_def INT_MAX_def)
  moreover have "mem_read (k_mem (put_mem 0 0x1000 (host_bytes True 8 (0x7FC0001000 :: u64)) demo_kernel) 0) 0x1000 4
      \<noteq> host_bytes True 4 BRK_OPCODE"
    by code_simp
  ultimately show ?thesis by simp
qed

end
