(* ===== verification/Process_Helper.thy ===== *)
theory Process_Helper
  imports File_System Kernel_Contract
begin

text \<open>
  \<open>Process::PROCHelper\<close> and \<open>Process::PSHelper\<close> of \<open>src/process.hpp\<close> and \<open>src/process.cpp\<close>: the
  readers of \<open>/proc\<close> and of the output of \<open>ps\<close> by which the debugger finds processes, their threads
  and the state of a thread.  Results that the code's number readers can abort are sums with \<open>Inl\<close>
  for the exception.
\<close>

section \<open>States\<close>

datatype process_state =
    UNKNOWN | RUNNING | SLEEPING | DISK_SLEEP | STOPPED | TRACING_STOP | DEAD | ZOMBIE | PARKED | IDLE

definition CHAR_TO_STATE :: "(char, process_state) umap" where
  "CHAR_TO_STATE = [(CHR ''R'', RUNNING), (CHR ''S'', SLEEPING), (CHR ''D'', DISK_SLEEP), (CHR ''T'', STOPPED),
     (CHR ''t'', TRACING_STOP), (CHR ''X'', DEAD), (CHR ''Z'', ZOMBIE), (CHR ''P'', PARKED), (CHR ''I'', IDLE)]"

definition STATE_TO_CHAR :: "(process_state, char) umap" where
  "STATE_TO_CHAR = [(RUNNING, CHR ''R''), (SLEEPING, CHR ''S''), (DISK_SLEEP, CHR ''D''), (STOPPED, CHR ''T''),
     (TRACING_STOP, CHR ''t''), (DEAD, CHR ''X''), (ZOMBIE, CHR ''Z''), (PARKED, CHR ''P''), (IDLE, CHR ''I'')]"

definition process_state_to_char :: "process_state \<Rightarrow> char" where
  "process_state_to_char state = (case um_find STATE_TO_CHAR state of Some c \<Rightarrow> c | None \<Rightarrow> CHR ''?'')"

definition char_to_process_state :: "char \<Rightarrow> process_state" where
  "char_to_process_state c = (case um_find CHAR_TO_STATE c of Some s \<Rightarrow> s | None \<Rightarrow> UNKNOWN)"

section \<open>Threads\<close>

definition is_numeric :: "string \<Rightarrow> bool" where
  "is_numeric name = list_all is_digit name"

fun collect_tids :: "dirent list \<Rightarrow> cxx_error + pid list" where
  "collect_tids [] = Inr []"
| "collect_tids (e # es) =
     (if d_is_dir e \<and> is_numeric (d_name e) \<and> 0 < length (d_name e) then
        (case stoi (d_name e) of
           Inl err \<Rightarrow> Inl err
         | Inr tid \<Rightarrow> map_sum id (Cons tid) (collect_tids es))
      else collect_tids es)"

definition get_thread_ids :: "'w os \<Rightarrow> pid \<Rightarrow> 'w \<Rightarrow> (cxx_error + pid list) \<times> 'w" where
  "get_thread_ids os pid w =
     (case file_open os (proc_path pid ''task'') w of
        (task_file, w1) \<Rightarrow>
          if \<not> is_open task_file then (Inr [], w1) else (collect_tids (list_entries task_file), w1))"

section \<open>Command lines\<close>

definition replace_nuls :: "string \<Rightarrow> string" where
  "replace_nuls s = map (\<lambda>c. if char_code c = 0 then CHR '' '' else c) s"

text \<open>\<open>std::atoi\<close> on digits; the standard leaves a value that does not fit undefined.\<close>

definition atoi :: "string \<Rightarrow> cxx_error + int" where
  "atoi s = (let v = int (digits_value 10 s) in if v < 2 ^ 31 then Inr v else Inl Undefined_behaviour)"

fun match_entries :: "'w os \<Rightarrow> string \<Rightarrow> dirent list \<Rightarrow> 'w \<Rightarrow> (cxx_error + pid list) \<times> 'w" where
  "match_entries os package_name [] w = (Inr [], w)"
| "match_entries os package_name (e # es) w =
     (if \<not> is_numeric (d_name e) then match_entries os package_name es w
      else
        (case atoi (d_name e) of
           Inl err \<Rightarrow> (Inl err, w)
         | Inr pid \<Rightarrow>
             if pid \<le> 0 then match_entries os package_name es w
             else
               (let (cmdline_file, w1) = file_open os (proc_path pid ''cmdline'') w;
                    matches = is_open cmdline_file \<and>
                      contains_string (replace_nuls (fst (read_all cmdline_file))) package_name False;
                    (rest, w2) = match_entries os package_name es w1
                in (if matches then map_sum id (Cons pid) rest else rest, w2))))"

definition find_pid_by_package_name :: "'w os \<Rightarrow> string \<Rightarrow> 'w \<Rightarrow> (cxx_error + pid list) \<times> 'w" where
  "find_pid_by_package_name os package_name w =
     (if package_name = [] then (Inr [], w) else
      (case file_open os ''/proc'' w of
         (proc_root, w1) \<Rightarrow>
           if \<not> is_open proc_root \<or> \<not> bf_is_directory proc_root then (Inr [], w1)
           else
             (case match_entries os package_name (list_entries proc_root) w1 of
                (Inl err, w2) \<Rightarrow> (Inl err, w2)
              | (Inr pids, w2) \<Rightarrow> (Inr (remdups_adj (sort pids)), w2))))"

definition find_package_name_by_pid :: "'w os \<Rightarrow> pid \<Rightarrow> 'w \<Rightarrow> string option \<times> 'w" where
  "find_package_name_by_pid os pid w =
     (if pid \<le> 0 then (None, w) else
      (case file_open os (proc_path pid ''cmdline'') w of
         (cmdline_file, w1) \<Rightarrow>
           if \<not> is_open cmdline_file then (None, w1)
           else
             (let cmdline_data = fst (read_all cmdline_file) in
              if replace_nuls cmdline_data = [] then (None, w1)
              else (Some (c_str cmdline_data), w1))))"

section \<open>The status file\<close>

definition status_line :: "string \<Rightarrow> (string, string) umap \<Rightarrow> (string, string) umap" where
  "status_line line m =
     (let colon_pos = length (takeWhile (\<lambda>c. c \<noteq> CHR '':'') line) in
      if colon_pos = length line then m
      else um_assign (trim (take colon_pos line)) (trim (drop (colon_pos + 1) line)) m)"

definition parse_status :: "'w os \<Rightarrow> pid \<Rightarrow> 'w \<Rightarrow> (string, string) umap \<times> 'w" where
  "parse_status os pid w =
     (case file_open os (proc_path pid ''status'') w of
        (status_file, w1) \<Rightarrow>
          if \<not> is_open status_file then (um_empty, w1)
          else (fold status_line (fst (read_lines status_file)) um_empty, w1))"

definition get_process_state_char :: "'w os \<Rightarrow> pid \<Rightarrow> 'w \<Rightarrow> char \<times> 'w" where
  "get_process_state_char os pid w =
     (if pid \<le> 0 then (CHR ''?'', w) else
      (case parse_status os pid w of
         (status_map, w1) \<Rightarrow>
           (case um_find status_map ''State'' of
              None \<Rightarrow> (CHR ''?'', w1)
            | Some [] \<Rightarrow> (CHR ''?'', w1)
            | Some (c # _) \<Rightarrow> (c, w1))))"

definition get_process_state :: "'w os \<Rightarrow> pid \<Rightarrow> 'w \<Rightarrow> process_state \<times> 'w" where
  "get_process_state os pid w =
     (case get_process_state_char os pid w of (c, w1) \<Rightarrow> (char_to_process_state c, w1))"

section \<open>The output of ps\<close>

record ps_item =
  ps_user :: string
  ps_pid :: pid
  ps_ppid :: pid
  ps_vsz :: u64
  ps_rss :: u64
  ps_wchan :: string
  ps_addr :: string
  ps_state :: process_state
  ps_name :: string

datatype match_mode = CONTAIN | EXACT

fun join_name :: "string list \<Rightarrow> string" where
  "join_name [] = []"
| "join_name [t] = t"
| "join_name (t # ts) = t @ '' '' @ join_name ts"

text \<open>\<open>None\<close> is a line with too few fields.\<close>

definition parse_single_line :: "string \<Rightarrow> cxx_error + ps_item option" where
  "parse_single_line line =
     (let tokens = split_by_space line in
      if length tokens < 9 then Inr None else
      case stoi (tokens ! 1) of Inl e \<Rightarrow> Inl e | Inr pid \<Rightarrow>
      (case stoi (tokens ! 2) of Inl e \<Rightarrow> Inl e | Inr ppid \<Rightarrow>
      (case stoull 10 (tokens ! 3) of Inl e \<Rightarrow> Inl e | Inr vsz \<Rightarrow>
      (case stoull 10 (tokens ! 4) of Inl e \<Rightarrow> Inl e | Inr rss \<Rightarrow>
       Inr (Some \<lparr>ps_user = tokens ! 0, ps_pid = pid, ps_ppid = ppid, ps_vsz = vsz, ps_rss = rss,
         ps_wchan = tokens ! 5, ps_addr = tokens ! 6,
         ps_state = char_to_process_state (tokens ! 7 ! 0), ps_name = join_name (drop 8 tokens)\<rparr>)))))"

text \<open>
  \<open>fgets\<close> with a buffer of 2048 bytes: a line with its end, or 2047 characters of it.  The buffer is
  then read as a C string and the line ends are dropped.
\<close>

definition fgets_size :: "nat \<Rightarrow> string \<Rightarrow> nat" where
  "fgets_size n s = min (n - 1) (length (takeWhile (\<lambda>c. c \<noteq> newline) s) + 1)"

function fgets_lines :: "string \<Rightarrow> string list" where
  "fgets_lines s =
     (if s = [] then [] else take (fgets_size 2048 s) s # fgets_lines (drop (fgets_size 2048 s) s))"
  by auto
termination
  by (relation "measure length") (auto simp: fgets_size_def)

declare fgets_lines.simps [simp del]

definition ps_line :: "string \<Rightarrow> string" where
  "ps_line buffer = filter (\<lambda>c. c \<noteq> CHR 0x0D) (filter (\<lambda>c. c \<noteq> newline) (c_str buffer))"

fun parse_items :: "string list \<Rightarrow> cxx_error + ps_item list" where
  "parse_items [] = Inr []"
| "parse_items (l # ls) =
     (case parse_single_line l of
        Inl e \<Rightarrow> Inl e
      | Inr None \<Rightarrow> parse_items ls
      | Inr (Some item) \<Rightarrow> map_sum id (Cons item) (parse_items ls))"

definition get_items :: "'w os \<Rightarrow> 'w \<Rightarrow> (cxx_error + ps_item list) \<times> 'w" where
  "get_items os w =
     (case os_popen os ''ps -eo user,pid,ppid,vsz,rss,wchan,addr,s,args'' w of
        (None, w1) \<Rightarrow> (Inr [], w1)
      | (Some txt, w1) \<Rightarrow> (parse_items (drop 1 (map ps_line (fgets_lines txt))), w1))"

definition name_matches :: "match_mode \<Rightarrow> string \<Rightarrow> string \<Rightarrow> bool" where
  "name_matches mode name item_name =
     (case mode of EXACT \<Rightarrow> item_name = name
      | CONTAIN \<Rightarrow> search_match (\<lambda>a b. a = b) item_name name)"

definition find_pid_by_process_name ::
  "'w os \<Rightarrow> string \<Rightarrow> match_mode \<Rightarrow> bool \<Rightarrow> 'w \<Rightarrow> (cxx_error + pid list) \<times> 'w" where
  "find_pid_by_process_name os name mode is_sensitivity w =
     (case get_items os w of
        (Inl e, w1) \<Rightarrow> (Inl e, w1)
      | (Inr items, w1) \<Rightarrow>
          (let fold_case = (if is_sensitivity then id else to_lower);
               found = filter (\<lambda>i. name_matches mode (fold_case name) (fold_case (ps_name i)) \<and> ps_pid i \<noteq> -1) items
           in (Inr (remdups_adj (sort (map ps_pid found))), w1)))"

definition find_process_name_by_pid :: "'w os \<Rightarrow> pid \<Rightarrow> 'w \<Rightarrow> (cxx_error + string option) \<times> 'w" where
  "find_process_name_by_pid os pid w =
     (case get_items os w of
        (Inl e, w1) \<Rightarrow> (Inl e, w1)
      | (Inr items, w1) \<Rightarrow> (Inr (map_option ps_name (find (\<lambda>i. ps_pid i = pid) items)), w1))"

section \<open>Files of a view\<close>

text \<open>
  What open(2) and opendir(3) promise: reading does not change the tree, and gives what it holds.
  \<open>fs w\<close> is the part of the tree the debugger may see.
\<close>

datatype node = Regular string | Directory "dirent list"

definition file_contract :: "'w os \<Rightarrow> ('w \<Rightarrow> string \<Rightarrow> node option) \<Rightarrow> bool" where
  "file_contract os fs \<longleftrightarrow>
     (\<forall>p w b w'. os_is_dir os p w = (b, w') \<longrightarrow> fs w' = fs w \<and> b = (\<exists>es. fs w p = Some (Directory es)))
   \<and> (\<forall>p w r w'. os_opendir os p w = (r, w') \<longrightarrow>
        fs w' = fs w \<and> r = (case fs w p of Some (Directory es) \<Rightarrow> Some es | _ \<Rightarrow> None))
   \<and> (\<forall>p w r w'. os_open_file os p w = (r, w') \<longrightarrow>
        fs w' = fs w \<and> r = (case fs w p of Some (Regular txt) \<Rightarrow> Some txt | _ \<Rightarrow> None))"

text \<open>The view of a world that does not matter to the files is left alone as well.\<close>

definition reads_quiet :: "'w os \<Rightarrow> ('w \<Rightarrow> 'v) \<Rightarrow> bool" where
  "reads_quiet os view \<longleftrightarrow> (\<forall>p w.
     view (snd (os_is_dir os p w)) = view w \<and> view (snd (os_opendir os p w)) = view w
   \<and> view (snd (os_open_file os p w)) = view w)"

lemma file_open_quiet: "reads_quiet os view \<Longrightarrow> file_open os p w = (f, w') \<Longrightarrow> view w' = view w"
  unfolding reads_quiet_def file_open_def file_open_as_def open_path_def check_directory_type_def
  by (auto simp: Let_def split: prod.splits option.splits if_splits) (metis snd_conv)+

lemma file_open_node:
  assumes "file_contract os fs" and "file_open os p w = (f, w')"
  shows "fs w' = fs w \<and> (case fs w p of
      None \<Rightarrow> \<not> is_open f
    | Some (Directory es) \<Rightarrow> is_open f \<and> bf_is_directory f
        \<and> list_entries f = filter (\<lambda>e. \<not> (d_name e = ''.'' \<or> d_name e = ''..'')) es
    | Some (Regular txt) \<Rightarrow> is_open f \<and> \<not> bf_is_directory f
        \<and> fst (read_all f) = txt \<and> fst (read_lines f) = split_lines txt)"
proof -
  obtain b w1 where d: "os_is_dir os p w = (b, w1)" by (metis prod.exhaust)
  obtain r w2 where o: "os_opendir os p w1 = (r, w2)" by (metis prod.exhaust)
  obtain q w3 where q: "os_open_file os p w1 = (q, w3)" by (metis prod.exhaust)
  have f1: "fs w1 = fs w" "b = (\<exists>es. fs w p = Some (Directory es))"
    using assms(1) d unfolding file_contract_def by blast+
  have f2: "fs w2 = fs w1" "r = (case fs w1 p of Some (Directory es) \<Rightarrow> Some es | _ \<Rightarrow> None)"
    using assms(1) o unfolding file_contract_def by blast+
  have f3: "fs w3 = fs w1" "q = (case fs w1 p of Some (Regular txt) \<Rightarrow> Some txt | _ \<Rightarrow> None)"
    using assms(1) q unfolding file_contract_def by blast+
  show ?thesis
    using assms(2) d o q f1 f2 f3
    by (cases "fs w p"; (cases "the (fs w p)")?)
      (auto simp: file_open_def file_open_as_def open_path_def check_directory_type_def is_open_def
        list_entries_def stream_defs)
qed

lemma read_all_directory: "bf_is_directory f \<Longrightarrow> fst (read_all f) = []"
  by (cases "bf_stream f") (simp_all add: read_all_def)

section \<open>Finding processes by their command line\<close>

text \<open>A listed process whose command line has the name somewhere in it, in any case of letters.\<close>

definition runs_package :: "(string \<Rightarrow> node option) \<Rightarrow> string \<Rightarrow> dirent \<Rightarrow> bool" where
  "runs_package tree package_name e \<longleftrightarrow> is_numeric (d_name e) \<and> 0 < digits_value 10 (d_name e)
     \<and> (case tree (proc_path (int (digits_value 10 (d_name e))) ''cmdline'') of
          Some (Regular txt) \<Rightarrow> sublist (to_lower package_name) (to_lower (replace_nuls txt))
        | _ \<Rightarrow> False)"

lemma match_entries_correct:
  assumes "file_contract os fs" and "package_name \<noteq> []"
    and "match_entries os package_name es w = (Inr pids, w')"
  shows "fs w' = fs w \<and> pids = map (\<lambda>e. int (digits_value 10 (d_name e))) (filter (runs_package (fs w) package_name) es)"
  using assms(3)
proof (induction es arbitrary: w pids)
  case Nil
  then show ?case by simp
next
  case (Cons e es)
  let ?n = "digits_value 10 (d_name e)"
  have skip: ?case if "\<not> runs_package (fs w) package_name e"
      "match_entries os package_name es u = (Inr pids, w')" "fs u = fs w" for u
    using Cons.IH [OF that(2)] that(1,3) by simp
  show ?case
  proof (cases "is_numeric (d_name e) \<and> 0 < ?n")
    case False
    then have "\<not> runs_package (fs w) package_name e" by (auto simp: runs_package_def)
    moreover have "match_entries os package_name es w = (Inr pids, w')"
      using False Cons.prems by (auto simp: atoi_def Let_def split: if_splits)
    ultimately show ?thesis by (rule skip) simp
  next
    case True
    obtain f w1 where f: "file_open os (proc_path (int ?n) ''cmdline'') w = (f, w1)" by (metis prod.exhaust)
    obtain q w2 where q: "match_entries os package_name es w1 = (q, w2)" by (metis prod.exhaust)
    note node = file_open_node [OF assms(1) f]
    have m: "is_open f \<and> contains_string (replace_nuls (fst (read_all f))) package_name False
        \<longleftrightarrow> runs_package (fs w) package_name e"
      using node True assms(2) read_all_directory [of f]
      by (auto simp: runs_package_def contains_string_def search_match_map to_lower_def replace_nuls_def
          split: option.splits node.splits)
    have small: "int ?n < 2 ^ 31" using Cons.prems True by (auto simp: atoi_def Let_def split: if_splits)
    obtain rest where rest: "q = Inr rest"
      "pids = (if runs_package (fs w) package_name e then int ?n # rest else rest)" "w' = w2"
      using Cons.prems True f q m small
      by (cases q) (auto simp: atoi_def Let_def split: if_splits)
    show ?thesis
      using Cons.IH [of w1 rest] q rest node by simp
  qed
qed

lemma distinct_remdups_adj_sorted: "sorted xs \<Longrightarrow> distinct (remdups_adj xs)"
  by (induction xs rule: remdups_adj.induct) auto

lemma sort_unique:
  "sorted (remdups_adj (sort xs)) \<and> distinct (remdups_adj (sort xs)) \<and> set (remdups_adj (sort xs)) = set xs"
  by (simp add: sorted_remdups_adj distinct_remdups_adj_sorted)

text \<open>A kernel with a fixed tree of files, for the witnesses.\<close>

definition tree_os :: "(string \<Rightarrow> node option) \<Rightarrow> kstate os" where
  "tree_os tree = sim_os
     \<lparr>os_is_dir := \<lambda>p st. (case tree p of Some (Directory _) \<Rightarrow> True | _ \<Rightarrow> False, st),
      os_opendir := \<lambda>p st. (case tree p of Some (Directory es) \<Rightarrow> Some es | _ \<Rightarrow> None, st),
      os_open_file := \<lambda>p st. (case tree p of Some (Regular txt) \<Rightarrow> Some txt | _ \<Rightarrow> None, st)\<rparr>"

lemma tree_os_contracts:
  "file_contract (tree_os tree) (\<lambda>_. tree)" "reads_quiet (tree_os tree) view"
  by (auto simp: file_contract_def reads_quiet_def tree_os_def split: option.splits node.splits)

definition demo_tree :: "string \<Rightarrow> node option" where
  "demo_tree = map_of
     [(''/proc'', Directory [\<lparr>d_name = ''self'', d_is_dir = True\<rparr>, \<lparr>d_name = ''101'', d_is_dir = True\<rparr>,
        \<lparr>d_name = ''100'', d_is_dir = True\<rparr>, \<lparr>d_name = ''7'', d_is_dir = True\<rparr>]),
      (''/proc/100/cmdline'', Regular ''com.Demo.app''), (''/proc/101/cmdline'', Regular ''com.demo.app:remote''),
      (''/proc/7/cmdline'', Regular ''init''),
      (''/proc/100/task'', Directory [\<lparr>d_name = ''100'', d_is_dir = True\<rparr>, \<lparr>d_name = ''101'', d_is_dir = True\<rparr>]),
      (''/proc/100/status'', Regular (''Name: app'' @ newline # ''State:'' @ CHR 0x09 # ''S (sleeping)'')),
      (''/proc/101/status'', Regular (''Name: app'' @ newline # ''State:'' @ CHR 0x09 # ''t (tracing stop)''))]"



section \<open>The state of a process\<close>

lemma trim_end_keeps: "start < e \<Longrightarrow> \<not> is_space (s ! start) \<Longrightarrow> start < trim_end s start e"
  by (induction e) (auto simp: less_Suc_eq)

lemma trim_tab: "is_space t \<Longrightarrow> \<not> is_space c \<Longrightarrow> \<exists>cs. trim (t # c # s) = c # cs"
proof -
  assume a: "is_space t" "\<not> is_space c"
  have st: "trim_start (t # c # s) 0 = 1"
    using a by (simp add: trim_start.simps [of "t # c # s" 0] trim_start.simps [of "t # c # s" "Suc 0"])
  have "1 < trim_end (t # c # s) 1 (length (t # c # s))"
    using a by (intro trim_end_keeps) simp_all
  then obtain k where "trim_end (t # c # s) 1 (length (t # c # s)) = Suc (Suc k)"
    by (metis less_natE add_Suc_right One_nat_def add.commute plus_1_eq_Suc)
  then show ?thesis by (simp add: trim_def Let_def st)
qed

definition status_key :: "string \<Rightarrow> string" where
  "status_key line = trim (takeWhile (\<lambda>c. c \<noteq> CHR '':'') line)"

lemma status_line_other: "status_key line \<noteq> k \<Longrightarrow> um_find (status_line line m) k = um_find m k"
  by (auto simp: status_line_def status_key_def Let_def takeWhile_eq_take [symmetric])

lemma status_lines_other:
  "list_all (\<lambda>l. status_key l \<noteq> k) ls \<Longrightarrow> um_find (fold status_line ls m) k = um_find m k"
  by (induction ls arbitrary: m) (simp_all add: status_line_other)

text \<open>
  C27: In a status file as the kernel prints it, \<open>get_process_state\<close> reads the letter after
  \<open>State:\<close> and a tab; letters and states translate back and forth.
\<close>

theorem get_process_state_correct:
  assumes "file_contract os fs" and "0 < pid"
    and "fs w (proc_path pid ''status'') = Some (Regular txt)"
    and "split_lines txt = pre @ (''State:'' @ CHR 0x09 # c # description) # post"
    and "list_all (\<lambda>l. status_key l \<noteq> ''State'') post" and "\<not> is_space c"
    and "get_process_state os pid w = (st, w')"
  shows "st = char_to_process_state c \<and> fs w' = fs w
    \<and> char_to_process_state (process_state_to_char st) = st"
proof -
  obtain f w1 where f: "file_open os (proc_path pid ''status'') w = (f, w1)" by (metis prod.exhaust)
  note node = file_open_node [OF assms(1) f]
  let ?line = "''State:'' @ CHR 0x09 # c # description"
  have tab: "is_space (CHR 0x09)" by (simp add: is_space_def char_code_def)
  have key: "trim ''State'' = ''State''" by code_simp
  obtain cs where cs: "trim (CHR 0x09 # c # description) = c # cs" using trim_tab [OF tab assms(6)] by auto
  have line: "um_find (status_line ?line m) ''State'' = Some (c # cs)" for m
    by (simp add: status_line_def Let_def key cs)
  have "um_find (fold status_line (pre @ ?line # post) um_empty) ''State'' = Some (c # cs)"
    using status_lines_other [OF assms(5)] line by simp
  then have "get_process_state_char os pid w = (c, w1)"
    using f node assms(2-4) by (simp add: get_process_state_char_def parse_status_def)
  with assms(7) node show ?thesis
    by (auto simp: get_process_state_def) (cases st; simp add: process_state_to_char_def char_to_process_state_def
        STATE_TO_CHAR_def CHAR_TO_STATE_def um_find_def)
qed

theorem get_process_state_correct_witness:
  "\<exists>w'. get_process_state (tree_os demo_tree) 101 demo_kernel = (TRACING_STOP, w')"
proof -
  obtain st w' where run: "get_process_state (tree_os demo_tree) 101 demo_kernel = (st, w')" by (metis prod.exhaust)
  have st: "demo_tree (proc_path 101 ''status'') =
      Some (Regular (''Name: app'' @ newline # ''State:'' @ CHR 0x09 # ''t (tracing stop)''))" by code_simp
  have ls: "split_lines (''Name: app'' @ newline # ''State:'' @ CHR 0x09 # ''t (tracing stop)'')
      = [''Name: app''] @ (''State:'' @ CHR 0x09 # CHR ''t'' # '' (tracing stop)'') # []" by code_simp
  have "\<not> is_space (CHR ''t'')" "char_to_process_state (CHR ''t'') = TRACING_STOP" by code_simp+
  with get_process_state_correct [OF tree_os_contracts(1) _ st ls _ _ run] run show ?thesis by simp
qed

end
