(* ===== verification/Debugger_Core.thy ===== *)
theory Debugger_Core
  imports Breakpoint_Effects Process_Helper
begin

unbundle bit_operations_syntax

text \<open>
  \<open>Core::DebuggerCore\<close> of \<open>src/debugger_core.hpp\<close> and \<open>src/debugger_core.cpp\<close>, without its register
  access (\<open>Debugger_Registers\<close>): the threads it is attached to, execution control, memory and the
  breakpoints of the thread in hand.  Operations whose name another class has too carry the prefix
  \<open>core_\<close>.  The state machine \<open>core_step\<close> has one rule for every public operation.
\<close>

section \<open>State\<close>

record debugger =
  m_pid :: pid
  m_tids :: "pid list"
  m_current_tid :: pid
  g_allocated_memory :: "(u64, u64) umap"
  bp_manager :: breakpoint_manager

definition DebuggerCore :: debugger where
  "DebuggerCore = \<lparr>m_pid = -1, m_tids = [], m_current_tid = -1, g_allocated_memory = um_empty,
     bp_manager = BreakpointManager\<rparr>"

definition get_threads :: "debugger \<Rightarrow> status \<times> pid list" where
  "get_threads d = (status_success (Dumped (JString ''get_threads succeeded'')), m_tids d)"

definition switch_thread :: "pid \<Rightarrow> debugger \<Rightarrow> status \<times> debugger" where
  "switch_thread tid d =
     (if tid \<in> set (m_tids d) then (status_success (Dumped (JString ''switch_thread succeeded'')), d\<lparr>m_current_tid := tid\<rparr>)
      else (status_fail (Note ''the thread is not in m_tids''), d))"

definition get_pid :: "debugger \<Rightarrow> status \<times> pid" where
  "get_pid d = (status_success (Dumped (JString ''get_pid succeeded'')), m_pid d)"

definition get_current_tid :: "debugger \<Rightarrow> status \<times> pid" where
  "get_current_tid d = (status_success (Dumped (JString ''get_current_tid succeeded'')), m_current_tid d)"

section \<open>Attaching\<close>

definition set_default_ptrace_options :: "'w os \<Rightarrow> pid \<Rightarrow> 'w \<Rightarrow> bool \<times> 'w" where
  "set_default_ptrace_options os pid w =
     (case ptrace_wrapper os (PTRACE_SETOPTIONS 0) pid w of (ok, _, w1) \<Rightarrow> (ok, w1))"

text \<open>
  One pass of the loop of \<open>attach\<close>: whether the thread is kept.  The status of the wait,
  uninitialised before, is not looked at.
\<close>

definition attach_thread :: "'w os \<Rightarrow> pid \<Rightarrow> 'w \<Rightarrow> bool \<times> 'w" where
  "attach_thread os tid w =
     (let (state, w1) = get_process_state os tid w;
          (stopped, w2) =
            (if state \<noteq> TRACING_STOP then
               (case ptrace_wrapper os PTRACE_ATTACH tid w1 of
                  (ok, _, u1) \<Rightarrow>
                    if \<not> ok then (False, u1)
                    else (case waitpid_wrapper os tid 0 WAIT_WALL u1 of (wpid, _, u2) \<Rightarrow> (\<not> wpid < 0, u2)))
             else (True, w1))
      in if \<not> stopped then (False, w2) else set_default_ptrace_options os tid w2)"

fun attach_threads :: "'w os \<Rightarrow> pid list \<Rightarrow> 'w \<Rightarrow> pid list \<times> 'w" where
  "attach_threads os [] w = ([], w)"
| "attach_threads os (tid # tids) w =
     (case attach_thread os tid w of
        (kept, w1) \<Rightarrow>
          (case attach_threads os tids w1 of
             (attached_tids, w2) \<Rightarrow> (if kept then tid # attached_tids else attached_tids, w2)))"

definition attach :: "'w os \<Rightarrow> pid \<Rightarrow> debugger \<Rightarrow> 'w \<Rightarrow> (cxx_error + status) \<times> debugger \<times> 'w" where
  "attach os pid d w =
     (case get_thread_ids os pid w of
        (Inl e, w1) \<Rightarrow> (Inl e, d, w1)
      | (Inr tids, w1) \<Rightarrow>
          if tids = [] then (Inr (status_fail (Note ''cannot get the thread ids'')), d, w1)
          else
            (case attach_threads os tids w1 of
               (attached_tids, w2) \<Rightarrow>
                 if attached_tids = [] then (Inr (status_fail (Note ''no thread attached'')), d, w2)
                 else if pid \<notin> set attached_tids
                 then (Inr (status_fail (Note ''the main thread is not attached'')), d, w2)
                 else (Inr (status_success (Dumped (JString ''attach succeeded''))),
                       d\<lparr>m_pid := pid, m_current_tid := pid, m_tids := attached_tids\<rparr>, w2)))"

text \<open>\<open>match_pids[0]\<close> on an empty vector is undefined.\<close>

definition attach_package ::
  "'w os \<Rightarrow> string \<Rightarrow> debugger \<Rightarrow> 'w \<Rightarrow> (cxx_error + status) \<times> debugger \<times> 'w" where
  "attach_package os package_name d w =
     (case find_pid_by_package_name os package_name w of
        (Inl e, w1) \<Rightarrow> (Inl e, d, w1)
      | (Inr [], w1) \<Rightarrow> (Inl Undefined_behaviour, d, w1)
      | (Inr (pid # _), w1) \<Rightarrow> attach os pid d w1)"

section \<open>Letting go\<close>

text \<open>The loop of \<open>detach\<close>: whether all threads went well, and how many did.\<close>

fun detach_threads :: "'w os \<Rightarrow> pid list \<Rightarrow> 'w \<Rightarrow> (bool \<times> nat) \<times> 'w" where
  "detach_threads os [] w = ((True, 0), w)"
| "detach_threads os (tid # tids) w =
     (case ptrace_wrapper os PTRACE_DETACH tid w of
        (ok, _, w1) \<Rightarrow>
          if ok then (case detach_threads os tids w1 of ((all_ok, n), w2) \<Rightarrow> ((all_ok, n + 1), w2))
          else
            (case get_process_state os tid w1 of
               (state, w2) \<Rightarrow>
                 if state = ZOMBIE
                 then (case detach_threads os tids w2 of ((all_ok, n), w3) \<Rightarrow> ((all_ok, n + 1), w3))
                 else (case detach_threads os tids w2 of ((all_ok, n), w3) \<Rightarrow> ((False, n), w3))))"

text \<open>\<open>detach\<close> changes no member: the debugger stays as it was.\<close>

definition detach :: "'w os \<Rightarrow> debugger \<Rightarrow> 'w \<Rightarrow> status \<times> 'w" where
  "detach os d w =
     (if m_pid d < 0 then (status_fail (Note ''m_pid is not valid''), w)
      else
        (case os_kill os (m_pid d) SIGCONT w of
           (_, w1) \<Rightarrow>
             (case detach_threads os (m_tids d) w1 of
                ((all_ok, success_count), w2) \<Rightarrow>
                  (if all_ok then status_success (Dumped (JString ''detach succeeded''))
                   else status_fail (Note ''some threads are detached''), w2))))"

definition kill :: "'w os \<Rightarrow> debugger \<Rightarrow> 'w \<Rightarrow> status \<times> debugger \<times> 'w" where
  "kill os d w =
     (if m_pid d < 0 then (status_fail (Note ''m_pid is not valid''), d, w)
      else
        (let (state, w1) = get_process_state os (m_pid d) w;
             w2 = (if state = TRACING_STOP then snd (detach os d w1) else w1);
             w3 = os_sleep os 500 w2;
             (ret, w4) = os_kill os (m_pid d) SIGKILL w3
         in if ret \<noteq> 0 then (status_fail (Note ''kill failed''), d, w4)
            else (status_success (Dumped (JString ''kill succeeded'')), d\<lparr>m_pid := -1, m_tids := []\<rparr>, w4)))"

section \<open>Running and pausing\<close>

definition resume_thread :: "'w os \<Rightarrow> pid \<Rightarrow> debugger \<Rightarrow> 'w \<Rightarrow> status \<times> 'w" where
  "resume_thread os tid d w =
     (if tid \<notin> set (m_tids d) then (status_fail (Note ''resume_thread: no such thread''), w)
      else
        (case ptrace_wrapper os PTRACE_CONT tid w of
           (ok, _, w1) \<Rightarrow>
             (if \<not> ok then status_fail (Note ''resume_thread: PTRACE_CONT failed'')
              else status_success (Dumped (JString ''resume_thread succeeded'')), w1)))"

fun resume_threads :: "'w os \<Rightarrow> debugger \<Rightarrow> pid list \<Rightarrow> 'w \<Rightarrow> (bool \<times> nat) \<times> 'w" where
  "resume_threads os d [] w = ((True, 0), w)"
| "resume_threads os d (tid # tids) w =
     (case get_process_state os tid w of
        (state, w1) \<Rightarrow>
          if state = TRACING_STOP then
            (case resume_thread os tid d w1 of
               (s, w2) \<Rightarrow>
                 (case resume_threads os d tids w2 of
                    ((all_ok, n), w3) \<Rightarrow> if is_fail s then ((False, n), w3) else ((all_ok, n + 1), w3)))
          else resume_threads os d tids w1)"

definition resume :: "'w os \<Rightarrow> debugger \<Rightarrow> 'w \<Rightarrow> status \<times> 'w" where
  "resume os d w =
     (if m_pid d \<le> 0 \<or> m_tids d = [] then (status_fail (Note ''resume: not attached''), w)
      else
        (case resume_threads os d (m_tids d) w of
           ((all_ok, success_count), w1) \<Rightarrow>
             (if \<not> all_ok then status_fail (Note ''some threads failed to resume'')
              else status_success (Dumped (JString ''all threads resumed'')), w1)))"

definition pause_thread :: "'w os \<Rightarrow> pid \<Rightarrow> debugger \<Rightarrow> 'w \<Rightarrow> status \<times> 'w" where
  "pause_thread os tid d w =
     (if tid \<notin> set (m_tids d) then (status_fail (Note ''no such thread''), w)
      else
        (case os_kill os tid SIGSTOP w of
           (ret, w1) \<Rightarrow>
             (if ret \<noteq> 0 then status_fail (Note ''pause_thread failed'')
              else status_success (Dumped (JString ''pause_thread succeeded'')), w1)))"

fun pause_threads :: "'w os \<Rightarrow> debugger \<Rightarrow> pid list \<Rightarrow> 'w \<Rightarrow> (bool \<times> nat) \<times> 'w" where
  "pause_threads os d [] w = ((True, 0), w)"
| "pause_threads os d (tid # tids) w =
     (case get_process_state os tid w of
        (state, w1) \<Rightarrow>
          if state \<noteq> TRACING_STOP then
            (case pause_thread os tid d w1 of
               (s, w2) \<Rightarrow>
                 (case pause_threads os d tids w2 of
                    ((all_ok, n), w3) \<Rightarrow> if is_fail s then ((False, n), w3) else ((all_ok, n + 1), w3)))
          else pause_threads os d tids w1)"

definition pause :: "'w os \<Rightarrow> debugger \<Rightarrow> 'w \<Rightarrow> status \<times> 'w" where
  "pause os d w =
     (if m_pid d \<le> 0 \<or> m_tids d = [] then (status_fail (Note ''pause: not attached''), w)
      else
        (case pause_threads os d (m_tids d) w of
           ((all_ok, success_count), w1) \<Rightarrow>
             (if \<not> all_ok then status_fail (Note ''some threads failed to pause'')
              else status_success (Dumped (JString ''all threads paused'')), w1)))"

section \<open>Stepping\<close>

definition hardware_step_into :: "'w os \<Rightarrow> debugger \<Rightarrow> 'w \<Rightarrow> status \<times> 'w" where
  "hardware_step_into os d w =
     (case ptrace_wrapper os PTRACE_SINGLESTEP (m_current_tid d) w of
        (ok, _, w1) \<Rightarrow>
          if \<not> ok then (status_fail (Note ''hardware_step_into: PTRACE_SINGLESTEP failed''), w1)
          else
            (case waitpid_wrapper os (m_current_tid d) 0 WAIT_WALL w1 of
               (wpid, status, w2) \<Rightarrow>
                 if wpid \<noteq> m_current_tid d \<and> \<not> WIFSTOPPED status
                 then (status_fail (Note ''hardware_step_into: waitpid failed''), w2)
                 else (status_success (Note ''hardware_step_into succeeded''), w2)))"

datatype single_step_mode = STEP_INTO | STEP_OVER

definition single_step_impl ::
  "'w os \<Rightarrow> single_step_mode \<Rightarrow> debugger \<Rightarrow> 'w \<Rightarrow> (cxx_error + status) \<times> debugger \<times> 'w" where
  "single_step_impl os mode d w =
     (case get_gpr os (m_current_tid d) PC w of
        (None, w1) \<Rightarrow> (Inr (status_fail (Note ''cannot read PC'')), d, w1)
      | (Some pc, w1) \<Rightarrow>
          if mode \<noteq> STEP_OVER then (Inr (status_fail (Note ''stepping into by software is not supported'')), d, w1)
          else
            (let next_pc = pc + 4 in
             case read_memory os (m_pid d) next_pc (host_bytes (os_little_endian os) 4 (0 :: u32)) w1 of
               (ok, original_insn, w2) \<Rightarrow>
                 if \<not> ok then (Inr (status_fail (Note ''cannot read the next instruction'')), d, w2)
                 else
                   (case set_software_breakpoint os (m_current_tid d) next_pc (bp_manager d) w2 of
                      (Inl e, m1, w3) \<Rightarrow> (Inl e, d\<lparr>bp_manager := m1\<rparr>, w3)
                    | (Inr bid, m1, w3) \<Rightarrow>
                        if bid = -1
                        then (Inr (status_fail (Note ''cannot set the temporary breakpoint'')), d\<lparr>bp_manager := m1\<rparr>, w3)
                        else
                          (let (_, w4) = resume_thread os (m_current_tid d) d w3;
                               (wpid, status, w5) = waitpid_wrapper os (m_current_tid d) 0 WAIT_WALL w4;
                               (s, m2, w6) = remove_breakpoint os bid m1 w5
                           in (if is_fail s then Inr s
                               else if wpid \<noteq> m_current_tid d \<or> \<not> WIFSTOPPED status
                               then Inr (status_fail (Note ''waiting for the stop failed''))
                               else Inr (status_success (Dumped (JString ''stepped by software''))),
                               d\<lparr>bp_manager := m2\<rparr>, w6)))))"

definition software_step_into :: "'w os \<Rightarrow> debugger \<Rightarrow> 'w \<Rightarrow> (cxx_error + status) \<times> debugger \<times> 'w" where
  "software_step_into os d w = single_step_impl os STEP_INTO d w"

definition step_over :: "'w os \<Rightarrow> debugger \<Rightarrow> 'w \<Rightarrow> (cxx_error + status) \<times> debugger \<times> 'w" where
  "step_over os d w = single_step_impl os STEP_OVER d w"

definition step_into :: "'w os \<Rightarrow> debugger \<Rightarrow> 'w \<Rightarrow> (cxx_error + status) \<times> debugger \<times> 'w" where
  "step_into os d w =
     (case hardware_step_into os d w of
        (hw_status, w1) \<Rightarrow>
          if is_success hw_status then (Inr hw_status, d, w1)
          else
            (case software_step_into os d w1 of
               (Inl e, d1, w2) \<Rightarrow> (Inl e, d1, w2)
             | (Inr sw_status, d1, w2) \<Rightarrow>
                 if is_success sw_status then (Inr sw_status, d1, w2)
                 else (Inr (status_fail (Note ''single step failed'')), d1, w2)))"

section \<open>Memory\<close>

definition core_read_memory :: "'w os \<Rightarrow> u64 \<Rightarrow> bytes \<Rightarrow> debugger \<Rightarrow> 'w \<Rightarrow> status \<times> bytes \<times> 'w" where
  "core_read_memory os address buf d w =
     (if address \<le> 0 then (status_fail (Note ''not a valid address''), buf, w)
      else if length buf \<le> 0 then (status_fail (Note ''not a valid size''), buf, w)
      else
        (case read_memory os (m_pid d) address buf w of
           (ok, buf1, w1) \<Rightarrow>
             if ok then (status_success (Dumped (JString ''read_memory succeeded'')), buf1, w1)
             else (status_success (Note ''read_memory failed''), buf1, w1)))"

definition core_write_memory :: "'w os \<Rightarrow> u64 \<Rightarrow> bytes \<Rightarrow> debugger \<Rightarrow> 'w \<Rightarrow> status \<times> 'w" where
  "core_write_memory os address buf d w =
     (if address \<le> 0 then (status_fail (Note ''not a valid address''), w)
      else if length buf \<le> 0 then (status_fail (Note ''not a valid size''), w)
      else
        (case write_memory os (m_pid d) address buf w of
           (ok, w1) \<Rightarrow>
             (if ok then status_success (Dumped (JString ''write_memory succeeded''))
              else status_fail (Note ''write_memory failed''), w1)))"

text \<open>The regions go into the caller's vector.\<close>

definition core_get_memory_regions ::
  "'w os \<Rightarrow> memory_region list \<Rightarrow> debugger \<Rightarrow> 'w \<Rightarrow> (cxx_error + status \<times> memory_region list) \<times> 'w" where
  "core_get_memory_regions os result d w =
     (case get_memory_regions os (m_pid d) w of
        (Inl e, w1) \<Rightarrow> (Inl e, w1)
      | (Inr r, w1) \<Rightarrow>
          if r = [] then (Inr (status_fail (Note ''get_memory_regions failed''), result), w1)
          else (Inr (status_success (Dumped (JString ''get_memory_regions succeeded'')), r), w1))"

section \<open>Breakpoints\<close>

text \<open>An enumeration holds any \<open>int\<close>; the enumerators start at one.\<close>

definition breakpoint_type_of :: "int \<Rightarrow> breakpoint_type option" where
  "breakpoint_type_of n =
     (if n = 1 then Some SOFTWARE else if n = 2 then Some HARDWARE_EXECUTION
      else if n = 3 then Some HARDWARE_WRITE else if n = 4 then Some HARDWARE_READWRITE else None)"

text \<open>The result has the status and what is left in \<open>breakpoint_id\<close>.\<close>

definition set_breakpoint ::
  "'w os \<Rightarrow> int \<Rightarrow> u64 \<Rightarrow> debugger \<Rightarrow> 'w \<Rightarrow> (cxx_error + status \<times> int) \<times> debugger \<times> 'w" where
  "set_breakpoint os type address d w =
     (case breakpoint_type_of type of
        None \<Rightarrow> (Inr (status_fail (Note ''unknown type''), -1), d, w)
      | Some ty \<Rightarrow>
          (case (if ty = SOFTWARE then set_software_breakpoint os (m_current_tid d) address (bp_manager d) w
                 else set_hardware_breakpoint os (m_current_tid d) address ty (bp_manager d) w) of
             (Inl e, m1, w1) \<Rightarrow> (Inl e, d\<lparr>bp_manager := m1\<rparr>, w1)
           | (Inr breakpoint_id, m1, w1) \<Rightarrow>
               (Inr (if breakpoint_id = -1 then status_fail (Note ''set_breakpoint failed'')
                     else status_success (Dumped (JString ''set_breakpoint succeeded'')), breakpoint_id),
                d\<lparr>bp_manager := m1\<rparr>, w1)))"

definition core_remove_breakpoint :: "'w os \<Rightarrow> int \<Rightarrow> debugger \<Rightarrow> 'w \<Rightarrow> status \<times> debugger \<times> 'w" where
  "core_remove_breakpoint os breakpoint_id d w =
     (case remove_breakpoint os breakpoint_id (bp_manager d) w of (s, m1, w1) \<Rightarrow> (s, d\<lparr>bp_manager := m1\<rparr>, w1))"

definition enable_breakpoint :: "'w os \<Rightarrow> int \<Rightarrow> debugger \<Rightarrow> 'w \<Rightarrow> status \<times> debugger \<times> 'w" where
  "enable_breakpoint os breakpoint_id d w =
     (case enable os breakpoint_id (bp_manager d) w of (s, m1, w1) \<Rightarrow> (s, d\<lparr>bp_manager := m1\<rparr>, w1))"

definition disable_breakpoint :: "'w os \<Rightarrow> int \<Rightarrow> debugger \<Rightarrow> 'w \<Rightarrow> status \<times> debugger \<times> 'w" where
  "disable_breakpoint os breakpoint_id d w =
     (case disable os breakpoint_id (bp_manager d) w of (s, m1, w1) \<Rightarrow> (s, d\<lparr>bp_manager := m1\<rparr>, w1))"

definition core_get_breakpoint :: "int \<Rightarrow> debugger \<Rightarrow> status \<times> breakpoint option" where
  "core_get_breakpoint breakpoint_id d =
     (case get_breakpoint breakpoint_id (bp_manager d) of
        None \<Rightarrow> (status_fail (Note ''no breakpoint with this id''), None)
      | Some b \<Rightarrow> (status_success (Dumped (JString ''get_breakpoint succeeded'')), Some b))"

definition core_get_breakpoint_at :: "u64 \<Rightarrow> debugger \<Rightarrow> cxx_error + status \<times> breakpoint option" where
  "core_get_breakpoint_at address d =
     (case get_breakpoint_at address (bp_manager d) of
        Inl e \<Rightarrow> Inl e
      | Inr None \<Rightarrow> Inr (status_fail (Note ''no breakpoint with this address''), None)
      | Inr (Some b) \<Rightarrow> Inr (status_success (Dumped (JString ''get_breakpoint succeeded'')), Some b))"

definition core_get_breakpoints :: "debugger \<Rightarrow> status \<times> breakpoint list" where
  "core_get_breakpoints d =
     (let breakpoints = get_breakpoints (bp_manager d)
      in (if breakpoints = [] then status_fail (Note ''get_breakpoints failed'')
          else status_success (Dumped (JString ''get_breakpoints succeeded'')), breakpoints))"

definition core_get_breakpoints_of :: "pid \<Rightarrow> debugger \<Rightarrow> status \<times> breakpoint list" where
  "core_get_breakpoints_of tid d =
     (let breakpoints = get_breakpoints_of tid (bp_manager d)
      in (if breakpoints = [] then status_fail (Note ''get_breakpoints failed'')
          else status_success (Dumped (JString ''get_breakpoints succeeded'')), breakpoints))"

section \<open>The state machine\<close>

inductive core_step :: "'w os \<Rightarrow> debugger \<Rightarrow> 'w \<Rightarrow> debugger \<Rightarrow> 'w \<Rightarrow> bool" for os where
  Core_attach: "attach os pid d w = (r, d', w') \<Longrightarrow> core_step os d w d' w'"
| Core_attach_package: "attach_package os name d w = (r, d', w') \<Longrightarrow> core_step os d w d' w'"
| Core_detach: "detach os d w = (s, w') \<Longrightarrow> core_step os d w d w'"
| Core_kill: "kill os d w = (s, d', w') \<Longrightarrow> core_step os d w d' w'"
| Core_resume_thread: "resume_thread os tid d w = (s, w') \<Longrightarrow> core_step os d w d w'"
| Core_resume: "resume os d w = (s, w') \<Longrightarrow> core_step os d w d w'"
| Core_pause_thread: "pause_thread os tid d w = (s, w') \<Longrightarrow> core_step os d w d w'"
| Core_pause: "pause os d w = (s, w') \<Longrightarrow> core_step os d w d w'"
| Core_step_into: "step_into os d w = (r, d', w') \<Longrightarrow> core_step os d w d' w'"
| Core_step_over: "step_over os d w = (r, d', w') \<Longrightarrow> core_step os d w d' w'"
| Core_read_memory: "core_read_memory os a buf d w = (s, buf', w') \<Longrightarrow> core_step os d w d w'"
| Core_write_memory: "core_write_memory os a buf d w = (s, w') \<Longrightarrow> core_step os d w d w'"
| Core_set_breakpoint: "set_breakpoint os type a d w = (r, d', w') \<Longrightarrow> core_step os d w d' w'"
| Core_remove_breakpoint: "core_remove_breakpoint os i d w = (s, d', w') \<Longrightarrow> core_step os d w d' w'"
| Core_enable_breakpoint: "enable_breakpoint os i d w = (s, d', w') \<Longrightarrow> core_step os d w d' w'"
| Core_disable_breakpoint: "disable_breakpoint os i d w = (s, d', w') \<Longrightarrow> core_step os d w d' w'"
| Core_switch_thread: "switch_thread tid d = (s, d') \<Longrightarrow> core_step os d w d' w"
| Core_world: "core_step os d w d w'"

inductive_cases core_stepE: "core_step os d w d' w'"

inductive core_reachable :: "'w os \<Rightarrow> debugger \<Rightarrow> 'w \<Rightarrow> bool" for os where
  Core_start: "core_reachable os DebuggerCore w"
| Core_next: "core_reachable os d w \<Longrightarrow> core_step os d w d' w' \<Longrightarrow> core_reachable os d' w'"

text \<open>
  The members about threads agree: attached to nothing, or to a process whose threads include its
  main thread and the thread in hand.
\<close>

definition threads_wf :: "debugger \<Rightarrow> bool" where
  "threads_wf d \<longleftrightarrow> (m_pid d = -1 \<and> m_tids d = [])
     \<or> (0 \<le> m_pid d \<and> m_pid d \<in> set (m_tids d) \<and> m_current_tid d \<in> set (m_tids d))"

text \<open>A manager no thread of which has debug registers to give away.\<close>

definition software_only :: "breakpoint_manager \<Rightarrow> bool" where
  "software_only m \<longleftrightarrow> bm_wf m \<and> (\<forall>t. um_get [] (m_free_hardware_registers m) t = [])
     \<and> (\<forall>i b. um_find (m_breakpoints m) i = Some b \<longrightarrow> bp_type b = SOFTWARE)"

lemma software_only_initial: "software_only BreakpointManager"
  using bm_wf_initial by (simp add: software_only_def) (simp add: BreakpointManager_def)

lemma stoi_digits: "is_numeric s \<Longrightarrow> stoi s = Inr i \<Longrightarrow> 0 \<le> i"
proof -
  assume s: "is_numeric s" and i: "stoi s = Inr i"
  have "\<not> is_space c \<and> c \<noteq> CHR ''-''" if "is_digit c" for c
    using that by (auto simp: is_digit_def is_space_def char_code_def)
  with s have "dropWhile is_space s = s" "s \<noteq> [] \<Longrightarrow> hd s \<noteq> CHR ''-''"
    by (cases s; auto simp: is_numeric_def)+
  with i show "0 \<le> i"
    by (auto simp: stoi_def parse_integer_def Let_def split: if_splits option.splits)
qed

lemma collect_tids_nonneg: "collect_tids es = Inr tids \<Longrightarrow> \<forall>t \<in> set tids. 0 \<le> t"
  by (induction es arbitrary: tids) (auto split: if_splits sum.splits dest: stoi_digits simp: map_sum_def)

lemma get_thread_ids_nonneg: "get_thread_ids os pid w = (Inr tids, w') \<Longrightarrow> \<forall>t \<in> set tids. 0 \<le> t"
  by (auto simp: get_thread_ids_def split: prod.splits if_splits dest: collect_tids_nonneg)

lemma attach_threads_subset: "set (fst (attach_threads os tids w)) \<subseteq> set tids"
proof (induction tids arbitrary: w)
  case (Cons tid tids)
  from Cons.IH [of "snd (attach_thread os tid w)"] show ?case by (auto split: prod.splits)
qed simp

lemma attach_cases:
  assumes "attach os pid d w = (r, d', w')"
  obtains (kept) "d' = d" "\<And>s. r = Inr s \<Longrightarrow> is_fail s"
  | (attached) tids ts w1 s where "get_thread_ids os pid w = (Inr tids, w1)" "attach_threads os tids w1 = (ts, w')"
      "pid \<in> set ts" "r = Inr s" "is_success s"
      "d' = d\<lparr>m_pid := pid, m_current_tid := pid, m_tids := ts\<rparr>"
  using assms by (auto simp: attach_def split: prod.splits sum.splits if_splits)

lemma attach_threads_wf:
  assumes "attach os pid d w = (r, d', w')" and "threads_wf d"
  shows "threads_wf d' \<and> bp_manager d' = bp_manager d"
  using assms(1)
proof (cases rule: attach_cases)
  case kept
  with assms(2) show ?thesis by simp
next
  case (attached tids ts w1 s)
  then have "0 \<le> pid"
    using attach_threads_subset [of os tids w1] get_thread_ids_nonneg [of os pid w tids] by auto
  with attached show ?thesis by (simp add: threads_wf_def)
qed

lemma set_software_only:
  assumes "software_only m" and "set_software_breakpoint os tid a m w = (r, m', w')"
  shows "software_only m'"
proof -
  have wf: "bm_wf m'" using set_software_breakpoint_wf [OF _ assms(2)] assms(1) by (simp add: software_only_def)
  have "m_free_hardware_registers m' = m_free_hardware_registers m
      \<and> (\<forall>i b. um_find (m_breakpoints m') i = Some b \<longrightarrow> um_find (m_breakpoints m) i = Some b \<or> bp_type b = SOFTWARE)"
    using assms(2)
    by (auto simp: set_software_breakpoint_def new_breakpoint_def make_breakpoint_def Let_def
        split: if_splits prod.splits)
  with wf assms(1) show ?thesis unfolding software_only_def by metis
qed

lemma set_hardware_only:
  assumes "software_only m" and "set_hardware_breakpoint os tid a ty m w = (r, m', w')"
  shows "software_only m' \<and> w' = w \<and> m_breakpoints m' = m_breakpoints m \<and> (r = Inr (-1) \<or> r = Inl Invalid_argument)"
proof -
  have "bm_wf m'" using set_hardware_breakpoint_wf [OF _ assms(2)] assms(1) by (simp add: software_only_def)
  with assms show ?thesis
    by (auto simp: set_hardware_breakpoint_def software_only_def Let_def split: if_splits)
qed

lemma remove_only:
  assumes "software_only m" and "remove_breakpoint os i m w = (st, m', w')"
  shows "software_only m'"
proof -
  have "bm_wf m'" using remove_breakpoint_wf [OF _ assms(2)] assms(1) by (simp add: software_only_def)
  with assms show ?thesis
    by (auto simp: remove_breakpoint_def software_only_def forget_breakpoint_def Let_def
        split: if_splits prod.splits option.splits)
qed

lemma enable_only:
  assumes "software_only m" and "enable os i m w = (st, m', w')"
  shows "software_only m'"
proof -
  have "bm_wf m'" using enable_wf [OF _ assms(2)] assms(1) by (simp add: software_only_def)
  with assms show ?thesis
    by (auto simp: enable_def software_only_def put_breakpoint_def Let_def
        split: if_splits prod.splits option.splits)
qed

lemma disable_only:
  assumes "software_only m" and "disable os i m w = (st, m', w')"
  shows "software_only m'"
proof -
  have "bm_wf m'" using disable_wf [OF _ assms(2)] assms(1) by (simp add: software_only_def)
  with assms show ?thesis
    by (auto simp: disable_def software_only_def put_breakpoint_def Let_def
        split: if_splits prod.splits option.splits)
qed

definition core_inv :: "debugger \<Rightarrow> bool" where
  "core_inv d \<longleftrightarrow> threads_wf d \<and> software_only (bp_manager d)"

lemma core_inv_initial: "core_inv DebuggerCore"
  using software_only_initial by (simp add: core_inv_def threads_wf_def DebuggerCore_def)

lemma core_inv_manager: "core_inv d \<Longrightarrow> software_only m \<Longrightarrow> core_inv (d\<lparr>bp_manager := m\<rparr>)"
  by (simp add: core_inv_def threads_wf_def)

text \<open>What a step by software can have done to the manager.\<close>

lemma single_step_manager:
  assumes "single_step_impl os mode d w = (r, d', w')"
  obtains (same) "d' = d"
  | (set) a u q m1 u' where "set_software_breakpoint os (m_current_tid d) a (bp_manager d) u = (q, m1, u')"
      "d' = d\<lparr>bp_manager := m1\<rparr>"
  | (removed) a u q m1 u' i v st m2 v' where
      "set_software_breakpoint os (m_current_tid d) a (bp_manager d) u = (q, m1, u')"
      "remove_breakpoint os i m1 v = (st, m2, v')" "d' = d\<lparr>bp_manager := m2\<rparr>" "q = Inr i" "i \<noteq> -1"
proof -
  let ?t = "m_current_tid d"
  obtain pc w1 where pc: "get_gpr os ?t PC w = (pc, w1)" by (metis prod.exhaust)
  obtain ok buf w2 where rd: "read_memory os (m_pid d) (the pc + 4) (host_bytes (os_little_endian os) 4 (0 :: u32)) w1
      = (ok, buf, w2)" by (metis prod_cases3)
  obtain q m1 w3 where st: "set_software_breakpoint os ?t (the pc + 4) (bp_manager d) w2 = (q, m1, w3)"
    by (metis prod_cases3)
  obtain s4 w4 where rs: "resume_thread os ?t d w3 = (s4, w4)" by (metis prod.exhaust)
  obtain p5 s5 w5 where wt: "waitpid_wrapper os ?t 0 WAIT_WALL w4 = (p5, s5, w5)" by (metis prod_cases3)
  note run = assms [unfolded single_step_impl_def] and calls = pc rd st rs wt
  show thesis
  proof (cases "\<exists>i. q = Inr i \<and> i \<noteq> -1")
    case True
    then obtain i where i: "q = Inr i" "i \<noteq> -1" by blast
    obtain s6 m2 w6 where rm: "remove_breakpoint os i m1 w5 = (s6, m2, w6)" by (metis prod_cases3)
    have "d' = d \<or> d' = d\<lparr>bp_manager := m2\<rparr>"
      using run calls rm i by (cases pc) (auto split: if_splits)
    with st rm i that show thesis by blast
  next
    case False
    have "d' = d \<or> d' = d\<lparr>bp_manager := m1\<rparr>"
      using run calls False by (cases pc; cases q) (auto split: if_splits)
    with st that show thesis by blast
  qed
qed

lemma single_step_inv:
  assumes "single_step_impl os mode d w = (r, d', w')" and "core_inv d"
  shows "core_inv d'"
proof -
  have m: "software_only (bp_manager d)" using assms(2) by (simp add: core_inv_def)
  from assms(1) show ?thesis
  proof (cases rule: single_step_manager)
    case same
    with assms(2) show ?thesis by simp
  next
    case set
    from core_inv_manager [OF assms(2) set_software_only [OF m set(1)]] set(2) show ?thesis by simp
  next
    case removed
    from core_inv_manager [OF assms(2) remove_only [OF set_software_only [OF m removed(1)] removed(2)]] removed(3)
    show ?thesis by simp
  qed
qed

lemma set_breakpoint_inv:
  assumes "set_breakpoint os type a d w = (r, d', w')" and "core_inv d"
  shows "core_inv d'"
proof (cases "breakpoint_type_of type")
  case None
  with assms show ?thesis by (simp add: set_breakpoint_def)
next
  case (Some ty)
  have m: "software_only (bp_manager d)" using assms(2) by (simp add: core_inv_def)
  obtain q m1 w1 where run: "(if ty = SOFTWARE then set_software_breakpoint os (m_current_tid d) a (bp_manager d) w
      else set_hardware_breakpoint os (m_current_tid d) a ty (bp_manager d) w) = (q, m1, w1)" by (metis prod_cases3)
  then have "software_only m1"
    by (cases "ty = SOFTWARE") (auto dest: set_software_only [OF m] set_hardware_only [OF m])
  moreover have "d' = d\<lparr>bp_manager := m1\<rparr>"
    using assms(1) Some run by (cases q) (auto simp: set_breakpoint_def)
  ultimately show ?thesis using core_inv_manager [OF assms(2)] by simp
qed

lemma kill_inv: "kill os d w = (s, d', w') \<Longrightarrow> core_inv d \<Longrightarrow> core_inv d'"
  by (auto simp: kill_def core_inv_def threads_wf_def Let_def split: prod.splits if_splits)

lemma attach_inv: "attach os pid d w = (r, d', w') \<Longrightarrow> core_inv d \<Longrightarrow> core_inv d'"
  using attach_threads_wf [of os pid d w r d' w'] by (simp add: core_inv_def)

lemma attach_package_inv: "attach_package os name d w = (r, d', w') \<Longrightarrow> core_inv d \<Longrightarrow> core_inv d'"
  by (auto simp: attach_package_def split: prod.splits sum.splits list.splits dest: attach_inv)

lemma step_into_inv: "step_into os d w = (r, d', w') \<Longrightarrow> core_inv d \<Longrightarrow> core_inv d'"
  by (auto simp: step_into_def software_step_into_def split: prod.splits sum.splits if_splits dest: single_step_inv)

lemma step_over_inv: "step_over os d w = (r, d', w') \<Longrightarrow> core_inv d \<Longrightarrow> core_inv d'"
  by (auto simp: step_over_def dest: single_step_inv)

lemma breakpoint_ops_inv:
  "core_remove_breakpoint os i d w = (s, d', w') \<Longrightarrow> core_inv d \<Longrightarrow> core_inv d'"
  "enable_breakpoint os i d w = (s, d', w') \<Longrightarrow> core_inv d \<Longrightarrow> core_inv d'"
  "disable_breakpoint os i d w = (s, d', w') \<Longrightarrow> core_inv d \<Longrightarrow> core_inv d'"
  using remove_only enable_only disable_only
  by (auto simp: core_remove_breakpoint_def enable_breakpoint_def disable_breakpoint_def core_inv_def threads_wf_def
      split: prod.splits)

lemma switch_thread_inv: "switch_thread tid d = (s, d') \<Longrightarrow> core_inv d \<Longrightarrow> core_inv d'"
  by (auto simp: switch_thread_def core_inv_def threads_wf_def split: if_splits)

lemmas core_ops_inv = attach_inv attach_package_inv kill_inv step_into_inv step_over_inv set_breakpoint_inv
  breakpoint_ops_inv switch_thread_inv

lemma core_step_inv: "core_step os d w d' w' \<Longrightarrow> core_inv d \<Longrightarrow> core_inv d'"
  by (erule core_stepE) (blast dest: core_ops_inv)+

lemma core_reachable_inv: "core_reachable os d w \<Longrightarrow> core_inv d"
  by (induction rule: core_reachable.induct) (auto intro: core_inv_initial core_step_inv)

section \<open>What attaching does to the threads\<close>

text \<open>
  What ptrace(2) and waitpid(2) promise of attaching: nothing else than the thread itself is affected,
  options can be set only for a thread that is stopped, and a thread that may be traced is stopped when the wait
  for it is over.
\<close>

definition still_stopped :: "kstate \<Rightarrow> kstate \<Rightarrow> bool" where
  "still_stopped st st' \<longleftrightarrow> k_space st' = k_space st \<and> (\<forall>q. k_stopped st q \<longrightarrow> k_stopped st' q)"

definition attach_contract :: "'w os \<Rightarrow> ('w \<Rightarrow> kstate) \<Rightarrow> bool" where
  "attach_contract os view \<longleftrightarrow>
     (\<forall>p w r w'. os_ptrace os PTRACE_ATTACH p w = (r, w') \<longrightarrow>
        still_stopped (view w) (view w') \<and> (k_space (view w) p \<noteq> None \<longrightarrow> reply_ok r))
   \<and> (\<forall>p s w q s' w'. os_waitpid os p WAIT_WALL s w = ((q, s'), w') \<longrightarrow>
        still_stopped (view w) (view w') \<and> (k_space (view w) p \<noteq> None \<longrightarrow> q = p \<and> k_stopped (view w') p))
   \<and> (\<forall>o' p w r w'. os_ptrace os (PTRACE_SETOPTIONS o') p w = (r, w') \<longrightarrow>
        still_stopped (view w) (view w') \<and> (reply_ok r \<longleftrightarrow> k_stopped (view w) p))"

text \<open>The state file of a thread says \<open>t\<close> only of a thread that is stopped.\<close>

definition states_contract :: "'w os \<Rightarrow> ('w \<Rightarrow> kstate) \<Rightarrow> bool" where
  "states_contract os view \<longleftrightarrow> reads_quiet os view
     \<and> (\<forall>p w w'. get_process_state os p w = (TRACING_STOP, w') \<and> k_space (view w) p \<noteq> None \<longrightarrow> k_stopped (view w) p)"

lemma fail_not_success: "is_fail s \<Longrightarrow> is_success s = False"
  by (simp add: is_fail_def is_success_def)

lemma still_stopped_refl [simp]: "still_stopped st st"
  by (simp add: still_stopped_def)

lemma still_stopped_trans: "still_stopped a b \<Longrightarrow> still_stopped b c \<Longrightarrow> still_stopped a c"
  by (simp add: still_stopped_def)

lemma get_process_state_quiet:
  "reads_quiet os view \<Longrightarrow> get_process_state os p w = (s, w') \<Longrightarrow> view w' = view w"
  by (auto simp: get_process_state_def get_process_state_char_def parse_status_def
      dest: file_open_quiet split: prod.splits if_splits option.splits list.splits)

lemma attach_thread_stops:
  assumes "attach_contract os view" and "states_contract os view" and "attach_thread os tid w = (kept, w')"
  shows "still_stopped (view w) (view w')" and "kept \<Longrightarrow> k_stopped (view w') tid"
    and "0 \<le> tid \<Longrightarrow> k_space (view w) tid \<noteq> None \<Longrightarrow> kept"
proof -
  have at: "still_stopped (view u) (view u') \<and> (k_space (view u) tid \<noteq> None \<longrightarrow> reply_ok r)"
    if "os_ptrace os PTRACE_ATTACH tid u = (r, u')" for u r u'
    using assms(1) that unfolding attach_contract_def by blast
  have wt: "still_stopped (view u) (view u') \<and> (k_space (view u) tid \<noteq> None \<longrightarrow> q = tid \<and> k_stopped (view u') tid)"
    if "os_waitpid os tid WAIT_WALL s u = ((q, s'), u')" for u s q s' u'
    using assms(1) that unfolding attach_contract_def by blast
  have op: "still_stopped (view u) (view u') \<and> (reply_ok r \<longleftrightarrow> k_stopped (view u) tid)"
    if "os_ptrace os (PTRACE_SETOPTIONS o') tid u = (r, u')" for o' u r u'
    using assms(1) that unfolding attach_contract_def by blast
  obtain state w1 where s: "get_process_state os tid w = (state, w1)" by (metis prod.exhaust)
  have v1: "view w1 = view w" using get_process_state_quiet s assms(2) by (auto simp: states_contract_def)
  have t: "state = TRACING_STOP \<Longrightarrow> k_space (view w) tid \<noteq> None \<Longrightarrow> k_stopped (view w) tid"
    using assms(2) s unfolding states_contract_def by blast
  obtain r1 w2 where a: "os_ptrace os PTRACE_ATTACH tid w1 = (r1, w2)" by (metis prod.exhaust)
  obtain q s' w3 where b: "os_waitpid os tid WAIT_WALL 0 w2 = ((q, s'), w3)" by (metis prod_cases3 prod.collapse)
  obtain r4 w4 where c: "os_ptrace os (PTRACE_SETOPTIONS 0) tid w3 = (r4, w4)" by (metis prod.exhaust)
  obtain r5 w5 where e: "os_ptrace os (PTRACE_SETOPTIONS 0) tid w1 = (r5, w5)" by (metis prod.exhaust)
  have run: "(w' = w2 \<and> \<not> kept \<and> \<not> reply_ok r1) \<or> (w' = w3 \<and> \<not> kept \<and> q < 0)
      \<or> (w' = w4 \<and> kept = reply_ok r4) \<or> (w' = w5 \<and> kept = reply_ok r5 \<and> state = TRACING_STOP)"
    using assms(3) s a b c e
    by (auto simp: attach_thread_def ptrace_wrapper_iff waitpid_wrapper_def set_default_ptrace_options_def
        ptrace_wrapper_def reply_ok_def split: if_splits)
  have still: "still_stopped (view w) (view w2)" "still_stopped (view w) (view w3)"
    "still_stopped (view w) (view w4)" "still_stopped (view w) (view w5)"
    using at [OF a] wt [OF b] op [OF c] op [OF e] unfolding v1 by (auto intro: still_stopped_trans)
  have kept_now: "reply_ok r4 \<Longrightarrow> k_stopped (view w4) tid" "reply_ok r5 \<Longrightarrow> k_stopped (view w5) tid"
    using op [OF c] op [OF e] by (auto simp: still_stopped_def)
  have live: "reply_ok r1" "q = tid" "reply_ok r4" if "k_space (view w) tid \<noteq> None"
    using at [OF a] wt [OF b] op [OF c] that unfolding v1 by (auto simp: still_stopped_def)
  show "still_stopped (view w) (view w')" using run still by blast
  show "kept \<Longrightarrow> k_stopped (view w') tid" using run kept_now by blast
  show kept if "0 \<le> tid" "k_space (view w) tid \<noteq> None"
  proof -
    have "reply_ok r5" if "state = TRACING_STOP"
      using op [OF e] t [OF that \<open>k_space (view w) tid \<noteq> None\<close>] v1 by simp
    with run live [OF that(2)] that(1) show ?thesis by auto
  qed
qed

lemma attach_threads_stops:
  assumes "attach_contract os view" and "states_contract os view" and "attach_threads os tids w = (ts, w')"
  shows "still_stopped (view w) (view w') \<and> (\<forall>t \<in> set ts. k_stopped (view w') t)
    \<and> ((\<forall>t \<in> set tids. 0 \<le> t \<and> k_space (view w) t \<noteq> None) \<longrightarrow> ts = tids)"
  using assms(3)
proof (induction tids arbitrary: w ts)
  case Nil
  then show ?case by simp
next
  case (Cons tid tids)
  obtain kept w1 where a: "attach_thread os tid w = (kept, w1)" by (metis prod.exhaust)
  obtain us w2 where b: "attach_threads os tids w1 = (us, w2)" by (metis prod.exhaust)
  have r: "ts = (if kept then tid # us else us)" "w' = w2" using Cons.prems a b by simp_all
  note one = attach_thread_stops [OF assms(1,2) a] and rest = Cons.IH [OF b [folded r(2)]]
  then show ?case using r by (auto simp: still_stopped_def)
qed

section \<open>Properties of the core\<close>

text \<open>A debugger attached to process 100 of the tree of files the witnesses share.\<close>

definition demo_attach :: "(cxx_error + status) \<times> debugger \<times> kstate" where
  "demo_attach = attach (tree_os demo_tree) 100 DebuggerCore demo_kernel"

definition demo_core :: debugger where
  "demo_core = fst (snd demo_attach)"

lemma demo_attach_run:
  "attach (tree_os demo_tree) 100 DebuggerCore demo_kernel = (fst demo_attach, demo_core, snd (snd demo_attach))"
  by (simp add: demo_attach_def demo_core_def)

lemma demo_core_reachable: "core_reachable (tree_os demo_tree) demo_core (snd (snd demo_attach))"
  by (rule Core_next [OF Core_start [of _ demo_kernel]], rule Core_attach [OF demo_attach_run])

lemma demo_core_state: "m_pid demo_core = 100" "m_current_tid demo_core = 100" "m_tids demo_core = [100, 101]"
  by code_simp+

text \<open>
  C7: Whatever the system answers, after any run of the public operations the debugger is either
  attached to nothing or to a process whose threads include its main thread and the thread in hand,
  and its breakpoint manager is consistent.
\<close>

theorem debugger_invariant:
  assumes "core_reachable os d w"
  shows "bm_wf (bp_manager d) \<and> ((m_pid d = -1 \<and> m_tids d = [])
     \<or> (0 \<le> m_pid d \<and> m_pid d \<in> set (m_tids d) \<and> m_current_tid d \<in> set (m_tids d)))"
  using core_reachable_inv [OF assms] by (simp add: core_inv_def threads_wf_def software_only_def)

theorem debugger_invariant_witness:
  "bm_wf (bp_manager demo_core) \<and> m_current_tid demo_core \<in> set (m_tids demo_core)"
  using debugger_invariant [OF demo_core_reachable] demo_core_state by simp

text \<open>
  C34: No run of the debugger ever sets a hardware breakpoint: every request for one is refused,
  changes neither the tracee nor the table, and all breakpoints are software breakpoints.
\<close>

theorem hardware_breakpoints_out_of_reach:
  assumes "core_reachable os d w0" and "breakpoint_type_of type = Some ty" and "ty \<noteq> SOFTWARE"
    and "set_breakpoint os type a d w = (r, d', w')"
  shows "w' = w \<and> get_breakpoints (bp_manager d') = get_breakpoints (bp_manager d)
    \<and> (r = Inl Invalid_argument \<or> (\<exists>s. r = Inr (s, -1) \<and> is_fail s))
    \<and> list_all (\<lambda>b. bp_type b = SOFTWARE) (get_breakpoints (bp_manager d))"
proof -
  have m: "software_only (bp_manager d)"
    using core_reachable_inv [OF assms(1)] by (simp add: core_inv_def)
  obtain q m1 w1 where run: "set_hardware_breakpoint os (m_current_tid d) a ty (bp_manager d) w = (q, m1, w1)"
    by (metis prod_cases3)
  note h = set_hardware_only [OF m run]
  have "d' = d\<lparr>bp_manager := m1\<rparr>" "w' = w1"
    "r = Inl Invalid_argument \<or> (\<exists>s. r = Inr (s, -1) \<and> is_fail s)"
    using assms(2-4) run h by (auto simp: set_breakpoint_def)
  moreover have "list_all (\<lambda>b. bp_type b = SOFTWARE) (get_breakpoints (bp_manager d))"
  proof -
    have wf: "bm_wf (bp_manager d)" using m by (simp add: software_only_def)
    show ?thesis
      using bps_found [OF wf] m unfolding list_all_iff software_only_def by metis
  qed
  ultimately show ?thesis using h by (simp add: get_breakpoints_def)
qed

theorem hardware_breakpoints_out_of_reach_witness:
  "snd (snd (set_breakpoint (tree_os demo_tree) 2 0x1000 demo_core demo_kernel)) = demo_kernel"
proof -
  obtain r d' w' where run: "set_breakpoint (tree_os demo_tree) 2 0x1000 demo_core demo_kernel = (r, d', w')"
    by (metis prod_cases3)
  have "breakpoint_type_of 2 = Some HARDWARE_EXECUTION" by (simp add: breakpoint_type_of_def)
  from hardware_breakpoints_out_of_reach [OF demo_core_reachable this _ run] run show ?thesis by simp
qed

lemma get_thread_ids_quiet:
  "states_contract os view \<Longrightarrow> get_thread_ids os pid w = (q, w1) \<Longrightarrow> view w1 = view w"
  unfolding states_contract_def get_thread_ids_def
  by (auto dest: file_open_quiet split: prod.splits if_splits)

lemma attach_result:
  assumes "attach_contract os view" and "states_contract os view" and "attach os pid d w = (Inr st, d', w')"
  shows "if is_success st then
         m_pid d' = pid \<and> m_current_tid d' = pid \<and> pid \<in> set (m_tids d') \<and> bp_manager d' = bp_manager d
         \<and> list_all (k_stopped (view w')) (m_tids d')
         \<and> (\<exists>tids w1. get_thread_ids os pid w = (Inr tids, w1) \<and> set (m_tids d') \<subseteq> set tids
              \<and> (list_all (\<lambda>t. k_space (view w) t \<noteq> None) tids \<longrightarrow> m_tids d' = tids))
       else d' = d"
  using assms(3)
proof (cases rule: attach_cases)
  case kept
  then show ?thesis by (simp add: fail_not_success)
next
  case (attached tids ts u s)
  have u: "view u = view w" using get_thread_ids_quiet [OF assms(2) attached(1)] .
  note stops = attach_threads_stops [OF assms(1,2) attached(2)]
  moreover have "set ts \<subseteq> set tids" using attach_threads_subset [of os tids u] attached(2) by simp
  moreover have "\<forall>t \<in> set tids. 0 \<le> t" using get_thread_ids_nonneg [OF attached(1)] .
  ultimately show ?thesis using attached u by (simp add: list_all_iff)
qed


lemma tree_attach_contract: "attach_contract (tree_os tree) id"
  by (auto simp: attach_contract_def tree_os_def sim_os_def still_stopped_def split: if_splits)

text \<open>The same process with state files that follow the kernel, none of its threads traced.\<close>

definition state_text :: "bool \<Rightarrow> string" where
  "state_text stopped = ''State:'' @ CHR 0x09 # (if stopped then ''t (tracing stop)'' else ''S (sleeping)'')"

definition live_os :: "kstate os" where
  "live_os = (tree_os demo_tree)
     \<lparr>os_is_dir := \<lambda>p st. (p = ''/proc/100/task'', st),
      os_open_file := \<lambda>p st. (if p = ''/proc/100/status'' then Some (state_text (k_stopped st 100))
        else if p = ''/proc/101/status'' then Some (state_text (k_stopped st 101)) else None, st)\<rparr>"

definition free_kernel :: kstate where
  "free_kernel = demo_kernel\<lparr>k_stopped := \<lambda>_. False\<rparr>"

lemma show_int_inject: "0 \<le> p \<Longrightarrow> 0 \<le> q \<Longrightarrow> show_int p = show_int q \<Longrightarrow> p = q"
  by (metis digits_value_show_nat eq_nat_nat_iff linorder_not_less show_int_def)

lemma proc_path_inject: "0 \<le> p \<Longrightarrow> 0 \<le> q \<Longrightarrow> proc_path p f = proc_path q f \<Longrightarrow> p = q"
  by (simp add: proc_path_def show_int_inject)

lemma live_state_text: "fold status_line (split_lines (state_text False)) um_empty = [(''State'', ''S (sleeping)'')]"
  by code_simp

lemma live_states: "states_contract live_os id"
proof -
  have paths: "''/proc/100/status'' = proc_path 100 ''status''" "''/proc/101/status'' = proc_path 101 ''status''"
    "''/proc/100/task'' = proc_path 100 ''task''"
    by code_simp+
  have "k_stopped w p" if s: "get_process_state live_os p w = (TRACING_STOP, w')" for p w w'
  proof -
    have p: "0 < p"
      using s by (auto simp: get_process_state_def get_process_state_char_def char_to_process_state_def
          CHAR_TO_STATE_def um_find_def split: if_splits)
    have unknown: "char_to_process_state (CHR ''?'') = UNKNOWN" "char_to_process_state (CHR ''S'') = SLEEPING"
      by code_simp+
    have thread: "p = 100 \<or> p = 101"
    proof (rule ccontr)
      assume "\<not> ?thesis"
      then have "proc_path p ''status'' \<noteq> proc_path 100 ''status''" "proc_path p ''status'' \<noteq> proc_path 101 ''status''"
        using proc_path_inject [of p _ "''status''"] p by fastforce+
      then have "parse_status live_os p w = (um_empty, w)"
        by (auto simp: parse_status_def file_open_def file_open_as_def open_path_def check_directory_type_def
            live_os_def paths is_open_def read_lines_def tree_os_def Let_def split: option.splits node.splits)
      with s p unknown show False
        by (simp add: get_process_state_def get_process_state_char_def)
    qed
    show ?thesis
    proof (rule ccontr)
      assume ns: "\<not> k_stopped w p"
      have st: "parse_status live_os p w = ([(''State'', ''S (sleeping)'')], w)"
        using thread ns live_state_text
        by (auto simp: parse_status_def file_open_def file_open_as_def open_path_def check_directory_type_def
            live_os_def is_open_def stream_defs tree_os_def Let_def paths [symmetric])
      with s p unknown show False
        by (simp add: get_process_state_def get_process_state_char_def um_find_def)
    qed
  qed
  then show ?thesis
    by (auto simp: states_contract_def reads_quiet_def live_os_def tree_os_def split: option.splits node.splits)
qed

lemma live_attach: "attach_contract live_os id"
  using tree_attach_contract [of demo_tree] by (simp add: attach_contract_def live_os_def)


end
