(* ===== verification/Debugger_Control.thy ===== *)
theory Debugger_Control
  imports Debugger_Core
begin

text \<open>
  What \<open>resume\<close> and \<open>detach\<close> of \<open>src/debugger_core.cpp\<close> do to the threads of the debugger, for a kernel that
  continues and detaches stopped threads and no others.
\<close>

section \<open>The kernel's part\<close>

text \<open>
  ptrace(2) on continuing and detaching: it succeeds exactly for a stopped thread, which then runs; no other
  thread is affected, and none by \<open>SIGCONT\<close>, which does not end a stop for the tracer.
\<close>

definition let_run :: "pid list \<Rightarrow> kstate \<Rightarrow> kstate \<Rightarrow> bool" where
  "let_run ts st st' \<longleftrightarrow> k_space st' = k_space st \<and> (\<forall>q. k_stopped st' q \<longleftrightarrow> k_stopped st q \<and> q \<notin> set ts)"

definition control_contract :: "'w os \<Rightarrow> ('w \<Rightarrow> kstate) \<Rightarrow> bool" where
  "control_contract os view \<longleftrightarrow>
     (\<forall>req p w r w'. (req = PTRACE_CONT \<or> req = PTRACE_DETACH) \<and> os_ptrace os req p w = (r, w') \<longrightarrow>
        (reply_ok r \<longleftrightarrow> k_stopped (view w) p) \<and> let_run [p] (view w) (view w'))
   \<and> (\<forall>p w r w'. os_kill os p SIGCONT w = (r, w') \<longrightarrow> let_run [] (view w) (view w'))"

text \<open>The state file of a thread with an address space: \<open>t\<close> exactly when it is stopped, and never \<open>Z\<close>.\<close>

definition states_exact :: "'w os \<Rightarrow> ('w \<Rightarrow> kstate) \<Rightarrow> bool" where
  "states_exact os view \<longleftrightarrow> reads_quiet os view
     \<and> (\<forall>p w s w'. get_process_state os p w = (s, w') \<and> 0 < p \<and> k_space (view w) p \<noteq> None \<longrightarrow>
          (s = TRACING_STOP \<longleftrightarrow> k_stopped (view w) p) \<and> s \<noteq> ZOMBIE)"

lemma let_run_refl: "let_run [] st st"
  by (simp add: let_run_def)

lemma let_run_append: "let_run as a b \<Longrightarrow> let_run bs b c \<Longrightarrow> let_run (as @ bs) a c"
  by (auto simp: let_run_def)

lemma let_run_idle: "let_run ts st st' \<Longrightarrow> \<not> k_stopped st p \<Longrightarrow> let_run (p # ts) st st'"
  by (auto simp: let_run_def)

lemma control_rule:
  assumes "control_contract os view" and "ptrace_wrapper os req p w = (ok, reply, w')"
    and "req = PTRACE_CONT \<or> req = PTRACE_DETACH"
  shows "ok \<longleftrightarrow> k_stopped (view w) p" and "let_run [p] (view w) (view w')"
proof -
  have "os_ptrace os req p w = (reply, w')" "ok = reply_ok reply"
    using assms(2) by (simp_all add: ptrace_wrapper_iff)
  with assms(1,3) show "ok \<longleftrightarrow> k_stopped (view w) p" "let_run [p] (view w) (view w')"
    unfolding control_contract_def by blast+
qed

lemma state_rule:
  assumes "states_exact os view" and "get_process_state os p w = (s, w')"
  shows "view w' = view w"
    and "0 < p \<Longrightarrow> k_space (view w) p \<noteq> None \<Longrightarrow> s = TRACING_STOP \<longleftrightarrow> k_stopped (view w) p"
    and "0 < p \<Longrightarrow> k_space (view w) p \<noteq> None \<Longrightarrow> s \<noteq> ZOMBIE"
proof -
  show "view w' = view w"
    using get_process_state_quiet assms by (auto simp: states_exact_def)
  show "0 < p \<Longrightarrow> k_space (view w) p \<noteq> None \<Longrightarrow> s = TRACING_STOP \<longleftrightarrow> k_stopped (view w) p"
    "0 < p \<Longrightarrow> k_space (view w) p \<noteq> None \<Longrightarrow> s \<noteq> ZOMBIE"
    using assms unfolding states_exact_def by blast+
qed

section \<open>The loops\<close>

definition known :: "kstate \<Rightarrow> pid list \<Rightarrow> bool" where
  "known st ts \<longleftrightarrow> list_all (\<lambda>t. 0 < t \<and> k_space st t \<noteq> None) ts"

lemma known_let_run: "let_run ts st st' \<Longrightarrow> known st' us = known st us"
  by (simp add: let_run_def known_def)

lemma resume_threads_run:
  assumes "control_contract os view" and "states_exact os view"
  shows "resume_threads os d ts w = (r, w') \<Longrightarrow> set ts \<subseteq> set (m_tids d) \<Longrightarrow> known (view w) ts \<Longrightarrow>
    fst r \<and> let_run ts (view w) (view w')"
proof (induction ts arbitrary: w r w')
  case Nil
  then show ?case by (auto simp: let_run_refl)
next
  case (Cons t ts)
  obtain s w1 where g: "get_process_state os t w = (s, w1)" by (metis prod.exhaust)
  note st = state_rule [OF assms(2) g]
  have t: "0 < t" "k_space (view w) t \<noteq> None" "known (view w) ts" using Cons.prems(3) by (simp_all add: known_def)
  show ?case
  proof (cases "s = TRACING_STOP")
    case False
    with Cons.prems(1) g have "resume_threads os d ts w1 = (r, w')" by simp
    from Cons.IH [OF this] Cons.prems(2) t st(1) have "fst r \<and> let_run ts (view w) (view w')" by simp
    with False st(2) t(1,2) show ?thesis by (simp add: let_run_idle)
  next
    case True
    then have stopped: "k_stopped (view w1) t" using st t(1,2) by simp
    obtain ok reply w2 where c: "ptrace_wrapper os PTRACE_CONT t w1 = (ok, reply, w2)" by (metis prod_cases3)
    note run = control_rule [OF assms(1) c disjI1 [OF refl]]
    obtain q w3 where rest: "resume_threads os d ts w2 = (q, w3)" by (metis prod.exhaust)
    have "fst q \<and> let_run ts (view w2) (view w3)"
      using Cons.IH [OF rest] Cons.prems(2) t(3) run(2) st(1) by (simp add: known_let_run)
    moreover have "fst r = fst q \<and> w' = w3"
      using Cons.prems(1,2) g True c run(1) stopped rest
      by (cases q) (auto simp: resume_thread_def split: prod.splits)
    ultimately show ?thesis
      using let_run_append [OF run(2), of ts] st(1) by simp
  qed
qed

lemma detach_threads_run:
  assumes "control_contract os view" and "states_exact os view"
  shows "detach_threads os ts w = (r, w') \<Longrightarrow> known (view w) ts \<Longrightarrow> distinct ts \<Longrightarrow>
    fst r = list_all (k_stopped (view w)) ts \<and> snd r = length (filter (k_stopped (view w)) ts)
      \<and> let_run ts (view w) (view w')"
proof (induction ts arbitrary: w r w')
  case Nil
  then show ?case by (auto simp: let_run_refl)
next
  case (Cons t ts)
  obtain ok reply w1 where c: "ptrace_wrapper os PTRACE_DETACH t w = (ok, reply, w1)" by (metis prod_cases3)
  note run = control_rule [OF assms(1) c disjI2 [OF refl]]
  obtain s u where g: "get_process_state os t w1 = (s, u)" by (metis prod.exhaust)
  define w2 where "w2 = (if ok then w1 else u)"
  obtain all_ok n w3 where rest: "detach_threads os ts w2 = ((all_ok, n), w3)" by (metis prod_cases3 prod.collapse)
  have v: "view w2 = view w1" using state_rule(1) [OF assms(2) g] by (simp add: w2_def)
  have t: "0 < t" "k_space (view w1) t \<noteq> None" "known (view w2) ts"
    using Cons.prems(2) run(2) v by (simp_all add: known_def let_run_def)
  have same: "k_stopped (view w2) q = k_stopped (view w) q" if "q \<in> set ts" for q
    using run(2) v that Cons.prems(3) by (auto simp: let_run_def)
  have ih: "all_ok = list_all (k_stopped (view w2)) ts" "n = length (filter (k_stopped (view w2)) ts)"
      "let_run ts (view w2) (view w3)"
    using Cons.IH [OF rest t(3)] Cons.prems(3) by simp_all
  have "r = (ok \<and> all_ok, if ok then n + 1 else n) \<and> w' = w3"
    using Cons.prems(1) c g rest state_rule(3) [OF assms(2) g t(1,2)] by (auto simp: w2_def split: if_splits)
  moreover have "all_ok = list_all (k_stopped (view w)) ts" "n = length (filter (k_stopped (view w)) ts)"
    using ih(1,2) same by (simp_all add: list_all_iff cong: filter_cong)
  moreover have "let_run (t # ts) (view w) (view w3)"
    using let_run_append [OF run(2), of ts] ih(3) v by simp
  ultimately show ?case using run(1) by simp
qed

section \<open>Resuming and detaching\<close>

text \<open>
  C12: \<open>resume\<close> of an attached debugger succeeds, and afterwards every thread of the debugger runs, each that was
  stopped having been continued; no other thread is affected.
\<close>

theorem resume_correct:
  assumes "control_contract os view" and "states_exact os view" and "resume os d w = (st, w')"
    and "0 < m_pid d" and "m_tids d \<noteq> []" and "list_all (\<lambda>t. 0 < t \<and> k_space (view w) t \<noteq> None) (m_tids d)"
  shows "is_success st \<and> (\<forall>q. k_stopped (view w') q \<longleftrightarrow> k_stopped (view w) q \<and> q \<notin> set (m_tids d))"
proof -
  obtain all_ok n w1 where run: "resume_threads os d (m_tids d) w = ((all_ok, n), w1)"
    by (metis prod_cases3 prod.collapse)
  from resume_threads_run [OF assms(1,2) run] assms(6) have "all_ok" "let_run (m_tids d) (view w) (view w1)"
    by (simp_all add: known_def)
  with assms(3-5) run show ?thesis by (auto simp: resume_def let_run_def)
qed

text \<open>
  C13: \<open>detach\<close> lets every thread of the debugger run that was stopped, and succeeds exactly when
  all of them were: threads that were resumed before stay traced and are counted as failures.
\<close>

theorem detach_correct:
  assumes "control_contract os view" and "states_exact os view" and "detach os d w = (st, w')"
    and "0 \<le> m_pid d" and "distinct (m_tids d)" and "list_all (\<lambda>t. 0 < t \<and> k_space (view w) t \<noteq> None) (m_tids d)"
  shows "(is_success st \<longleftrightarrow> list_all (k_stopped (view w)) (m_tids d))
    \<and> (\<forall>q. k_stopped (view w') q \<longleftrightarrow> k_stopped (view w) q \<and> q \<notin> set (m_tids d))"
proof -
  obtain x w1 where k: "os_kill os (m_pid d) SIGCONT w = (x, w1)" by (metis prod.exhaust)
  have c: "let_run [] (view w) (view w1)" using assms(1) k unfolding control_contract_def by blast
  then have v: "k_stopped (view w1) = k_stopped (view w)" "k_space (view w1) = k_space (view w)"
    by (auto simp: let_run_def)
  obtain r w2 where run: "detach_threads os (m_tids d) w1 = (r, w2)" by (metis prod.exhaust)
  from detach_threads_run [OF assms(1,2) run _ assms(5)] assms(6)
  have "fst r = list_all (k_stopped (view w)) (m_tids d)" "let_run (m_tids d) (view w1) (view w2)"
    by (simp_all add: known_def v)
  with assms(3,4) k run show ?thesis
    by (cases r; cases "fst r") (auto simp: detach_def let_run_def v)
qed

text \<open>The process of the witnesses with a kernel that lets continued threads run.\<close>

definition pid_of :: "string \<Rightarrow> pid" where
  "pid_of path = int (digits_value 10 (takeWhile (digit_in 10) (drop 6 path)))"

lemma pid_of_path: "0 \<le> p \<Longrightarrow> pid_of (proc_path p f) = p"
proof -
  assume p: "0 \<le> p"
  have "\<not> digit_in 10 (CHR ''/'')" by code_simp
  moreover have "list_all (digit_in 10) (show_nat (nat p))" using digits_show_nat by simp
  ultimately have "takeWhile (digit_in 10) (show_nat (nat p) @ CHR ''/'' # f) = show_nat (nat p)"
    by (subst takeWhile_append2) (auto simp: list_all_iff)
  with p show ?thesis by (simp add: pid_of_def proc_path_def show_int_def digits_value_show_nat)
qed

definition control_os :: "kstate os" where
  "control_os = sim_os
     \<lparr>os_ptrace := \<lambda>req. sim_ptrace (if req = PTRACE_CONT then PTRACE_DETACH else req),
      os_open_file := \<lambda>path st. (if path = proc_path (pid_of path) ''status''
        then Some (state_text (k_stopped st (pid_of path))) else None, st)\<rparr>"

lemma control_os_contract: "control_contract control_os id"
  by (auto simp: control_contract_def control_os_def let_run_def sim_os_def reply_ok_def
      reply_word_def reply_error_def split: if_splits)

lemma control_os_state:
  assumes "0 < p"
  shows "get_process_state control_os p w = (if k_stopped w p then TRACING_STOP else SLEEPING, w)"
proof -
  have "parse_status control_os p w = (fold status_line (split_lines (state_text (k_stopped w p))) um_empty, w)"
    using assms
    by (simp add: parse_status_def file_open_def file_open_as_def open_path_def check_directory_type_def
        control_os_def sim_os_def is_open_def stream_defs Let_def pid_of_path)
  moreover have "um_find (fold status_line (split_lines (state_text b)) um_empty) ''State''
      = Some (if b then ''t (tracing stop)'' else ''S (sleeping)'')" for b
  proof -
    have "um_find (fold status_line (split_lines (state_text True)) um_empty) ''State'' = Some ''t (tracing stop)''"
      "um_find (fold status_line (split_lines (state_text False)) um_empty) ''State'' = Some ''S (sleeping)''"
      by code_simp+
    then show ?thesis by (cases b) simp_all
  qed
  moreover have "char_to_process_state (CHR ''t'') = TRACING_STOP" "char_to_process_state (CHR ''S'') = SLEEPING"
    by code_simp+
  ultimately show ?thesis
    using assms by (simp add: get_process_state_def get_process_state_char_def)
qed

lemma control_os_states: "states_exact control_os id"
proof -
  have "reads_quiet control_os id" by (simp add: reads_quiet_def control_os_def sim_os_def)
  then show ?thesis by (auto simp: states_exact_def control_os_state split: if_splits)
qed

definition control_core :: debugger where
  "control_core = DebuggerCore\<lparr>m_pid := 100, m_tids := [100, 101], m_current_tid := 100\<rparr>"

theorem resume_correct_witness:
  "\<exists>st w'. resume control_os control_core demo_kernel = (st, w') \<and> is_success st \<and> \<not> k_stopped w' 101"
proof -
  obtain st w' where run: "resume control_os control_core demo_kernel = (st, w')" by (metis prod.exhaust)
  from resume_correct [OF control_os_contract control_os_states run] run show ?thesis
    by (simp add: control_core_def demo_kernel_def)
qed

theorem detach_correct_witness:
  "\<exists>st w'. detach control_os control_core (demo_kernel\<lparr>k_stopped := \<lambda>p. p = 100\<rparr>) = (st, w') \<and> is_fail st
     \<and> \<not> k_stopped w' 100"
proof -
  obtain st w' where run: "detach control_os control_core (demo_kernel\<lparr>k_stopped := \<lambda>p. p = 100\<rparr>) = (st, w')"
    by (metis prod.exhaust)
  from detach_correct [OF control_os_contract control_os_states run] run show ?thesis
    by (simp add: control_core_def demo_kernel_def)
qed

end
