(* ===== verification/Json_Objects.thy ===== *)
theory Json_Objects
  imports Json_Status Utils
begin

text \<open>
  What the program does with JSON documents beside looking into them: building objects and arrays, and
  reading numbers at the width of a C++ type, as \<open>nlohmann::json\<close> documents its operators.
  An object is a \<open>std::map\<close>: its members are in the order of their names.
\<close>

section \<open>Building documents\<close>

fun string_less :: "string \<Rightarrow> string \<Rightarrow> bool" where
  "string_less _ [] = False"
| "string_less [] (_ # _) = True"
| "string_less (a # x) (b # y) =
     (char_code a < char_code b \<or> (char_code a = char_code b \<and> string_less x y))"

fun obj_assign :: "string \<Rightarrow> json \<Rightarrow> (string \<times> json) list \<Rightarrow> (string \<times> json) list" where
  "obj_assign k v [] = [(k, v)]"
| "obj_assign k v ((a, b) # ms) =
     (if string_less k a then (k, v) # (a, b) # ms
      else if k = a then (k, v) # ms
      else (a, b) # obj_assign k v ms)"

text \<open>\<open>j[k] = v\<close> makes an object of a null; \<open>push_back\<close> makes an array of one.\<close>

fun json_set :: "string \<Rightarrow> json \<Rightarrow> json \<Rightarrow> cxx_error + json" where
  "json_set k v JNull = Inr (JObject [(k, v)])"
| "json_set k v (JObject ms) = Inr (JObject (obj_assign k v ms))"
| "json_set k v _ = Inl Json_type_error"

fun json_push :: "json \<Rightarrow> json \<Rightarrow> cxx_error + json" where
  "json_push v JNull = Inr (JArray [v])"
| "json_push v (JArray xs) = Inr (JArray (xs @ [v]))"
| "json_push v _ = Inl Json_type_error"

text \<open>A braced list of pairs of a name and a value becomes an object.\<close>

definition json_object :: "(string \<times> json) list \<Rightarrow> json" where
  "json_object ms = JObject (fold (\<lambda>(k, v). obj_assign k v) ms [])"

section \<open>Reading numbers\<close>

text \<open>
  The conversion is a \<open>static_cast\<close> of the stored number: it wraps around, but for a floating point
  number outside of the type it is undefined.  Only types other than the library's own number types
  also take a Boolean.
\<close>

fun get_u64 :: "json \<Rightarrow> cxx_error + u64" where
  "get_u64 (JInt i) = Inr (word_of_int i)"
| "get_u64 (JFloat i) = (if 0 \<le> i \<and> i < 2 ^ 64 then Inr (word_of_int i) else Inl Undefined_behaviour)"
| "get_u64 _ = Inl Json_type_error"

fun get_int :: "json \<Rightarrow> cxx_error + int" where
  "get_int (JInt i) = Inr (sint (word_of_int i :: u32))"
| "get_int (JFloat i) = (if - (2 ^ 31) \<le> i \<and> i < 2 ^ 31 then Inr i else Inl Undefined_behaviour)"
| "get_int (JBool b) = Inr (if b then 1 else 0)"
| "get_int _ = Inl Json_type_error"

fun get_u8 :: "json \<Rightarrow> cxx_error + u8" where
  "get_u8 (JInt i) = Inr (word_of_int i)"
| "get_u8 (JFloat i) = (if 0 \<le> i \<and> i < 2 ^ 8 then Inr (word_of_int i) else Inl Undefined_behaviour)"
| "get_u8 (JBool b) = Inr (if b then 1 else 0)"
| "get_u8 _ = Inl Json_type_error"

fun get_bytes :: "json list \<Rightarrow> cxx_error + bytes" where
  "get_bytes [] = Inr []"
| "get_bytes (j # js) = (case get_u8 j of Inl e \<Rightarrow> Inl e | Inr b \<Rightarrow> map_sum id (Cons b) (get_bytes js))"

section \<open>Facts\<close>

lemma map_of_obj_assign [simp, container_simps]: "map_of (obj_assign k v ms) = (map_of ms)(k \<mapsto> v)"
  by (induction k v ms rule: obj_assign.induct) auto

lemma json_member_set: "json_set k v j = Inr j' \<Longrightarrow> json_member j' = (json_member j)(k \<mapsto> v)"
  by (cases j) (auto simp: fun_eq_iff)

lemma char_code_inject: "char_code a = char_code b \<longleftrightarrow> a = b"
  by (simp add: char_code_def)

lemma string_less_irrefl [simp]: "\<not> string_less x x"
  by (induction x) simp_all

lemma string_less_trans: "string_less x y \<Longrightarrow> string_less y z \<Longrightarrow> string_less x z"
proof (induction x y arbitrary: z rule: string_less.induct)
  case (3 a x b y)
  then show ?case by (cases z) auto
next
  case (2 b y)
  then show ?case by (cases z) auto
qed simp

lemma string_less_linear: "x = y \<or> string_less x y \<or> string_less y x"
proof (induction x arbitrary: y)
  case Nil
  then show ?case by (cases y) simp_all
next
  case (Cons a x)
  then show ?case by (cases y) (auto simp: char_code_inject)
qed

text \<open>The members of an object are sorted, whatever the order they were assigned in.\<close>

definition obj_sorted :: "(string \<times> json) list \<Rightarrow> bool" where
  "obj_sorted ms \<longleftrightarrow> sorted_wrt string_less (map fst ms)"

lemma set_obj_assign: "fst ` set (obj_assign k v ms) = insert k (fst ` set ms)"
  by (induction k v ms rule: obj_assign.induct) auto

lemma obj_sorted_assign: "obj_sorted ms \<Longrightarrow> obj_sorted (obj_assign k v ms)"
proof (induction k v ms rule: obj_assign.induct)
  case (2 k v a b ms)
  then show ?case
    using string_less_trans string_less_linear [of k a] set_obj_assign [of k v ms]
    by (auto simp: obj_sorted_def)
qed (simp add: obj_sorted_def)

end
