(* ===== verification/Debugger_Registers.thy ===== *)
theory Debugger_Registers
  imports Debugger_Core Json_Objects
begin

text \<open>
  \<open>write_registers\<close> and \<open>read_registers\<close> of \<open>src/debugger_core.cpp\<close>: registers of the thread in hand by
  their names, with values as hexadecimal text in JSON documents.  The loops over the members and
  elements are recursive functions; a loop's result is \<open>Some\<close> status where the code returns from inside it.
\<close>

section \<open>Writing\<close>

text \<open>The message for a value that is no string calls \<open>get<std::string>()\<close> on it, which throws.\<close>

fun write_gprs :: "'w os \<Rightarrow> pid \<Rightarrow> (string \<times> json) list \<Rightarrow> 'w \<Rightarrow> (cxx_error + status option) \<times> 'w" where
  "write_gprs os tid [] w = (Inr None, w)"
| "write_gprs os tid ((reg_name, reg_value) # ms) w =
     (case reg_value of
        JString s \<Rightarrow>
          (case (hex_str_to_num s :: u64 option) of
             None \<Rightarrow> (Inr (Some (status_fail (Note ''not a hexadecimal number''))), w)
           | Some value \<Rightarrow>
               (let reg = str2gpr reg_name in
                if reg = GPR_INVALID then (Inr (Some (status_fail (Note ''not a register name''))), w)
                else
                  (case set_gpr os tid reg value w of
                     (ok, w1) \<Rightarrow>
                       if \<not> ok then (Inr (Some (status_fail (Note ''set_gpr failed''))), w1)
                       else write_gprs os tid ms w1)))
      | _ \<Rightarrow> (Inl Json_type_error, w))"

text \<open>The value of a floating point register at the width of the register.\<close>

definition parse_fpr_value :: "fp_register \<Rightarrow> string \<Rightarrow> status + fpr_value" where
  "parse_fpr_value reg s =
     (if V0 \<le> reg \<and> reg \<le> V31 then
        (case hex_str_to_num s of
           None \<Rightarrow> Inl (status_fail (Note ''not a hexadecimal number'')) | Some v \<Rightarrow> Inr (Val128 v))
      else if reg = FPSR \<or> reg = FPCR then
        (case hex_str_to_num s of
           None \<Rightarrow> Inl (status_fail (Note ''not a hexadecimal number'')) | Some v \<Rightarrow> Inr (Val32 v))
      else Inl (status_fail (Note ''not a supported register'')))"

fun write_fprs :: "'w os \<Rightarrow> pid \<Rightarrow> (string \<times> json) list \<Rightarrow> 'w \<Rightarrow> (cxx_error + status option) \<times> 'w" where
  "write_fprs os tid [] w = (Inr None, w)"
| "write_fprs os tid ((reg_name, reg_value) # ms) w =
     (case reg_value of
        JString s \<Rightarrow>
          (let reg = str2fpr reg_name in
           if reg = FPR_INVALID then (Inr (Some (status_fail (Note ''not a register name''))), w)
           else
             (case parse_fpr_value reg s of
                Inl st \<Rightarrow> (Inr (Some st), w)
              | Inr fpr_val \<Rightarrow>
                  (case set_fpr os tid reg fpr_val w of
                     (ok, w1) \<Rightarrow>
                       if \<not> ok then (Inr (Some (status_fail (Note ''set_fpr failed''))), w1)
                       else write_fprs os tid ms w1)))
      | _ \<Rightarrow> (Inl Json_type_error, w))"

text \<open>One of the two blocks: nothing to do where the member is missing or null.\<close>

definition write_block ::
  "((string \<times> json) list \<Rightarrow> 'w \<Rightarrow> (cxx_error + status option) \<times> 'w) \<Rightarrow> json option \<Rightarrow> 'w \<Rightarrow>
     (cxx_error + status option) \<times> 'w" where
  "write_block write member w =
     (case member of
        None \<Rightarrow> (Inr None, w)
      | Some JNull \<Rightarrow> (Inr None, w)
      | Some (JObject ms) \<Rightarrow> write ms w
      | Some _ \<Rightarrow> (Inr (Some (status_fail (Note ''the JSON is not an object''))), w))"

definition write_registers :: "'w os \<Rightarrow> json \<Rightarrow> debugger \<Rightarrow> 'w \<Rightarrow> (cxx_error + status) \<times> 'w" where
  "write_registers os json_data d w =
     (case write_block (write_gprs os (m_current_tid d)) (json_member json_data ''GPR'') w of
        (Inl e, w1) \<Rightarrow> (Inl e, w1)
      | (Inr (Some st), w1) \<Rightarrow> (Inr st, w1)
      | (Inr None, w1) \<Rightarrow>
          (case write_block (write_fprs os (m_current_tid d)) (json_member json_data ''FPR'') w1 of
             (Inl e, w2) \<Rightarrow> (Inl e, w2)
           | (Inr (Some st), w2) \<Rightarrow> (Inr st, w2)
           | (Inr None, w2) \<Rightarrow> (Inr (status_success (Dumped (JString ''write_registers succeeded''))), w2)))"

section \<open>Reading\<close>

text \<open>An optional string as a JSON value.\<close>

definition hex_json :: "'a::len word \<Rightarrow> json" where
  "hex_json v = (case num_to_hex_str v True of Some s \<Rightarrow> JString s | None \<Rightarrow> JNull)"

fun fpr_json :: "fpr_value \<Rightarrow> json" where
  "fpr_json (Val128 v) = hex_json v"
| "fpr_json (Val32 v) = hex_json v"

text \<open>The loops over all registers of a set, and over the array of the names asked for.\<close>

fun all_gprs :: "user_pt_regs \<Rightarrow> nat list \<Rightarrow> (string \<times> json) list \<Rightarrow> status + (string \<times> json) list" where
  "all_gprs all_gpr [] result = Inr result"
| "all_gprs all_gpr (i # ks) result =
     (let reg = gpr_enumerators ! i; reg_name = gpr2str reg in
      case get_gpr_pointer reg of
        None \<Rightarrow> Inl (status_fail (Note ''no pointer to the register''))
      | Some ptr \<Rightarrow> all_gprs all_gpr ks (obj_assign reg_name (hex_json (gpr_load all_gpr ptr)) result))"

fun all_fprs :: "user_fpsimd_state \<Rightarrow> nat list \<Rightarrow> (string \<times> json) list \<Rightarrow> status + (string \<times> json) list" where
  "all_fprs all_fpr [] result = Inr result"
| "all_fprs all_fpr (i # ks) result =
     (let reg = fpr_enumerators ! i; reg_name = fpr2str reg in
      case get_fpr_pointer reg of
        None \<Rightarrow> Inl (status_fail (Note ''no pointer to the register''))
      | Some ptr \<Rightarrow> all_fprs all_fpr ks (obj_assign reg_name (fpr_json (fpr_load all_fpr ptr)) result))"

fun read_gprs ::
  "'w os \<Rightarrow> pid \<Rightarrow> json list \<Rightarrow> (string \<times> json) list \<Rightarrow> 'w \<Rightarrow> (status + (string \<times> json) list) \<times> 'w" where
  "read_gprs os tid [] result w = (Inr result, w)"
| "read_gprs os tid (name_json # names) result w =
     (case name_json of
        JString reg_name \<Rightarrow>
          (let reg = str2gpr reg_name in
           if reg = GPR_INVALID then (Inl (status_fail (Note ''not a register name'')), w)
           else
             (case get_gpr os tid reg w of
                (None, w1) \<Rightarrow> (Inl (status_fail (Note ''cannot read the register'')), w1)
              | (Some val, w1) \<Rightarrow> read_gprs os tid names (obj_assign reg_name (hex_json val) result) w1))
      | _ \<Rightarrow> (Inl (status_fail (Note ''a string was expected'')), w))"

fun read_fprs ::
  "'w os \<Rightarrow> pid \<Rightarrow> json list \<Rightarrow> (string \<times> json) list \<Rightarrow> 'w \<Rightarrow> (status + (string \<times> json) list) \<times> 'w" where
  "read_fprs os tid [] result w = (Inr result, w)"
| "read_fprs os tid (name_json # names) result w =
     (case name_json of
        JString reg_name \<Rightarrow>
          (let reg = str2fpr reg_name in
           if reg = FPR_INVALID then (Inl (status_fail (Note ''not a register name'')), w)
           else
             (case get_fpr os tid reg w of
                (None, w1) \<Rightarrow> (Inl (status_fail (Note ''cannot read the register'')), w1)
              | (Some val, w1) \<Rightarrow> read_fprs os tid names (obj_assign reg_name (fpr_json val) result) w1))
      | _ \<Rightarrow> (Inl (status_fail (Note ''a string was expected'')), w))"

definition read_gpr_request :: "'w os \<Rightarrow> pid \<Rightarrow> json \<Rightarrow> 'w \<Rightarrow> (status + (string \<times> json) list) \<times> 'w" where
  "read_gpr_request os tid gpr_req w =
     (case gpr_req of
        JString req_str \<Rightarrow>
          if req_str = ''all'' then
            (case get_all_gpr os tid w of
               (None, w1) \<Rightarrow> (Inl (status_fail (Note ''get_all_gpr failed'')), w1)
             | (Some all_gpr, w1) \<Rightarrow> (all_gprs all_gpr [gpr_index X0..<gpr_index GPR_MAX_REGISTERS] [], w1))
          else (Inl (status_fail (Note ''not a supported field'')), w)
      | JArray names \<Rightarrow> read_gprs os tid names [] w
      | _ \<Rightarrow> (Inl (status_fail (Note ''not a supported format'')), w))"

definition read_fpr_request :: "'w os \<Rightarrow> pid \<Rightarrow> json \<Rightarrow> 'w \<Rightarrow> (status + (string \<times> json) list) \<times> 'w" where
  "read_fpr_request os tid fpr_req w =
     (case fpr_req of
        JString req_str \<Rightarrow>
          if req_str = ''all'' then
            (case get_all_fpr os tid w of
               (None, w1) \<Rightarrow> (Inl (status_fail (Note ''get_all_fpr failed'')), w1)
             | (Some all_fpr, w1) \<Rightarrow> (all_fprs all_fpr [fpr_index V0..<fpr_index FPR_MAX_REGISTERS] [], w1))
          else (Inl (status_fail (Note ''not a supported field'')), w)
      | JArray names \<Rightarrow> read_fprs os tid names [] w
      | _ \<Rightarrow> (Inl (status_fail (Note ''not a supported format'')), w))"

text \<open>
  One block of \<open>read_registers\<close>: the request \<open>json_data[key]\<close> is read and put into the result.  The
  status is the one to return at once, if any; the result comes out changed as far as it got.
\<close>

definition read_block ::
  "(json \<Rightarrow> 'w \<Rightarrow> (status + (string \<times> json) list) \<times> 'w) \<Rightarrow> string \<Rightarrow> json \<Rightarrow> json \<Rightarrow> 'w \<Rightarrow>
     (cxx_error + status option) \<times> json \<times> 'w" where
  "read_block read key json_data result w =
     (case json_member json_data key of
        None \<Rightarrow> (Inr None, result, w)
      | Some req \<Rightarrow>
          if req = JNull then (Inr None, result, w)
          else
            (case read req w of
               (Inl st, w1) \<Rightarrow> (Inr (Some st), result, w1)
             | (Inr ms, w1) \<Rightarrow>
                 (case json_set key (JObject ms) result of
                    Inl e \<Rightarrow> (Inl e, result, w1)
                  | Inr result1 \<Rightarrow> (Inr None, result1, w1))))"

definition read_registers :: "'w os \<Rightarrow> json \<Rightarrow> json \<Rightarrow> debugger \<Rightarrow> 'w \<Rightarrow> (cxx_error + status) \<times> json \<times> 'w" where
  "read_registers os json_data result d w =
     (case read_block (read_gpr_request os (m_current_tid d)) ''GPR'' json_data result w of
        (Inl e, result1, w1) \<Rightarrow> (Inl e, result1, w1)
      | (Inr (Some st), result1, w1) \<Rightarrow> (Inr st, result1, w1)
      | (Inr None, result1, w1) \<Rightarrow>
          (case read_block (read_fpr_request os (m_current_tid d)) ''FPR'' json_data result1 w1 of
             (Inl e, result2, w2) \<Rightarrow> (Inl e, result2, w2)
           | (Inr (Some st), result2, w2) \<Rightarrow> (Inr st, result2, w2)
           | (Inr None, result2, w2) \<Rightarrow> (Inr (status_success (Dumped (JString ''read_registers succeeded''))), result2, w2)))"

section \<open>Facts about the loops\<close>

lemma str2gpr_pointer:
  assumes "str2gpr n \<noteq> GPR_INVALID"
  obtains ptr where "get_gpr_pointer (str2gpr n) = Some ptr"
proof -
  have "str2gpr n < GPR_MAX_REGISTERS"
    using gpr_table.of_str_bound [OF assms] by (simp add: less_gp_register_def gpr_names_facts)
  with get_gpr_pointer_valid that show thesis by blast
qed

text \<open>The value a register name stands for.\<close>

definition gpr_named :: "kstate \<Rightarrow> pid \<Rightarrow> string \<Rightarrow> u64" where
  "gpr_named st tid n = gpr_load (k_gpr st tid) (the (get_gpr_pointer (str2gpr n)))"

definition hex_value_of :: "string \<Rightarrow> u64" where
  "hex_value_of s = the (hex_str_to_num s)"

abbreviation gpr_members :: "(string \<times> string) list \<Rightarrow> (string \<times> json) list" where
  "gpr_members rs \<equiv> map (\<lambda>(n, s). (n, JString s)) rs"

definition gpr_writes_ok :: "(string \<times> string) list \<Rightarrow> bool" where
  "gpr_writes_ok rs \<longleftrightarrow> distinct (map (\<lambda>r. str2gpr (fst r)) rs)
     \<and> list_all (\<lambda>r. str2gpr (fst r) \<noteq> GPR_INVALID \<and> (hex_str_to_num (snd r) :: u64 option) \<noteq> None) rs"

lemma write_gprs_ok:
  assumes "regset_contract os view"
  shows "kstate_wf (view w) \<Longrightarrow> k_stopped (view w) tid \<Longrightarrow> gpr_writes_ok rs \<Longrightarrow>
    \<exists>w'. write_gprs os tid (gpr_members rs) w = (Inr None, w') \<and> kstate_wf (view w') \<and> k_stopped (view w') tid
      \<and> k_mem (view w') = k_mem (view w)
      \<and> (\<forall>n. str2gpr n \<noteq> GPR_INVALID \<longrightarrow> gpr_named (view w') tid n =
           (case map_of (map (\<lambda>(m, s). (str2gpr m, hex_value_of s)) rs) (str2gpr n) of
              Some v \<Rightarrow> v | None \<Rightarrow> gpr_named (view w) tid n))"
proof (induction rs arbitrary: w)
  case Nil
  then show ?case by simp
next
  case (Cons r rs)
  obtain m s where r: "r = (m, s)" by fastforce
  obtain v where v: "hex_str_to_num s = Some (v :: u64)" and m: "str2gpr m \<noteq> GPR_INVALID"
    and fresh: "str2gpr m \<notin> (\<lambda>r. str2gpr (fst r)) ` set rs" and ok: "gpr_writes_ok rs"
    using Cons.prems(3) r by (auto simp: gpr_writes_ok_def)
  obtain ptr where ptr: "get_gpr_pointer (str2gpr m) = Some ptr" using str2gpr_pointer [OF m] .
  obtain b w1 where set: "set_gpr os tid (str2gpr m) v w = (b, w1)" by (metis prod.exhaust)
  have b: "b \<and> view w1 = put_regset tid (Gpr_set (gpr_store ptr v (k_gpr (view w) tid))) (view w)"
    by (rule set_gpr_stopped [OF assms Cons.prems(1,2) ptr set])
  have len: "length (pt_regs (k_gpr (view w) tid)) = 31" using Cons.prems(1) by (simp add: kstate_wf_def)
  have wf1: "kstate_wf (view w1)" "k_stopped (view w1) tid" "k_mem (view w1) = k_mem (view w)"
    using b Cons.prems len kstate_wf_put_regset by simp_all
  have named: "gpr_named (view w1) tid n = (if str2gpr n = str2gpr m then v else gpr_named (view w) tid n)"
    if n: "str2gpr n \<noteq> GPR_INVALID" for n
  proof -
    obtain q where q: "get_gpr_pointer (str2gpr n) = Some q" using str2gpr_pointer [OF n] .
    show ?thesis using b gpr_load_store [OF ptr q len] q by (simp add: gpr_named_def)
  qed
  from Cons.IH [OF wf1(1,2) ok] obtain w' where w':
    "write_gprs os tid (gpr_members rs) w1 = (Inr None, w')" "kstate_wf (view w')" "k_stopped (view w') tid"
    "k_mem (view w') = k_mem (view w1)"
    "\<And>n. str2gpr n \<noteq> GPR_INVALID \<Longrightarrow> gpr_named (view w') tid n =
       (case map_of (map (\<lambda>(m, s). (str2gpr m, hex_value_of s)) rs) (str2gpr n) of
          Some v \<Rightarrow> v | None \<Rightarrow> gpr_named (view w1) tid n)" by blast
  have none: "map_of (map (\<lambda>(m, s). (str2gpr m, hex_value_of s)) rs) (str2gpr m) = None"
    using fresh by (force simp: map_of_eq_None_iff)
  show ?case
    using w' b v m set none named wf1(3) r
    by (auto simp: Let_def hex_value_of_def split: option.splits)
qed

lemma read_gprs_ok:
  assumes "regset_contract os view"
  shows "k_stopped (view w) tid \<Longrightarrow> list_all (\<lambda>n. str2gpr n \<noteq> GPR_INVALID) ns \<Longrightarrow>
    \<exists>w'. read_gprs os tid (map JString ns) result w
       = (Inr (fold (\<lambda>n. obj_assign n (hex_json (gpr_named (view w) tid n))) ns result), w') \<and> view w' = view w"
proof (induction ns arbitrary: result w)
  case Nil
  then show ?case by simp
next
  case (Cons n ns)
  obtain ptr where ptr: "get_gpr_pointer (str2gpr n) = Some ptr" using str2gpr_pointer Cons.prems(2) by auto
  obtain x w1 where g: "get_gpr os tid (str2gpr n) w = (x, w1)" by (metis prod.exhaust)
  note x = get_gpr_stopped [OF assms Cons.prems(1) ptr g]
  have "k_stopped (view w1) tid" "list_all (\<lambda>n. str2gpr n \<noteq> GPR_INVALID) ns" using x Cons.prems by simp_all
  from Cons.IH [OF this, of "obj_assign n (hex_json (gpr_named (view w) tid n)) result"] x g ptr Cons.prems(2)
  show ?case by (auto simp: Let_def gpr_named_def)
qed

lemma fold_obj_assign:
  "map_of (fold (\<lambda>n. obj_assign n (f n)) ns result) k = (if k \<in> set ns then Some (f k) else map_of result k)"
  by (induction ns arbitrary: result) auto



section \<open>Reading all registers\<close>

lemma all_gprs_fold:
  "list_all (\<lambda>i. i < 34) ks \<Longrightarrow> all_gprs g ks result =
     Inr (fold (\<lambda>i. obj_assign (gpr2str (gpr_enumerators ! i))
       (hex_json (gpr_load g (the (get_gpr_pointer (gpr_enumerators ! i)))))) ks result)"
proof (induction ks arbitrary: result)
  case (Cons i ks)
  obtain ptr where "get_gpr_pointer (gpr_enumerators ! i) = Some ptr"
    using get_gpr_pointer_valid [of "gpr_enumerators ! i"] Cons.prems by (auto simp: less_gp_register_def)
  with Cons show ?case by (simp add: Let_def)
qed simp

lemma read_gprs_fold:
  assumes "regset_contract os view"
  shows "k_stopped (view w) tid \<Longrightarrow> list_all (\<lambda>i. i < 34) ks \<Longrightarrow>
    \<exists>w'. read_gprs os tid (map (\<lambda>i. JString (gpr2str (gpr_enumerators ! i))) ks) result w =
       (Inr (fold (\<lambda>i. obj_assign (gpr2str (gpr_enumerators ! i))
         (hex_json (gpr_load (k_gpr (view w) tid) (the (get_gpr_pointer (gpr_enumerators ! i)))))) ks result), w')
     \<and> view w' = view w"
proof -
  assume a: "k_stopped (view w) tid" "list_all (\<lambda>i. i < 34) ks"
  let ?ns = "map (\<lambda>i. gpr2str (gpr_enumerators ! i)) ks"
  have inv: "str2gpr (gpr2str (gpr_enumerators ! i)) = gpr_enumerators ! i" if "i < 34" for i
    using gpr_table.of_to_str [of "gpr_enumerators ! i"] that by (simp add: gpr_names_facts)
  have "gpr_enumerators ! i \<noteq> GPR_INVALID" if "i < 34" for i
  proof
    assume "gpr_enumerators ! i = GPR_INVALID"
    with that gpr_index_enumerator [of i] show False by simp
  qed
  with a(2) inv have "list_all (\<lambda>n. str2gpr n \<noteq> GPR_INVALID) ?ns" by (simp add: list_all_iff)
  from read_gprs_ok [OF assms a(1) this, of result] obtain w' where w':
    "read_gprs os tid (map JString ?ns) result w
       = (Inr (fold (\<lambda>n. obj_assign n (hex_json (gpr_named (view w) tid n))) ?ns result), w')" "view w' = view w" by blast
  have "fold (\<lambda>n. obj_assign n (hex_json (gpr_named (view w) tid n))) ?ns result =
      fold (\<lambda>i. obj_assign (gpr2str (gpr_enumerators ! i))
        (hex_json (gpr_load (k_gpr (view w) tid) (the (get_gpr_pointer (gpr_enumerators ! i)))))) ks result"
    using a(2) inv by (induction ks arbitrary: result) (simp_all add: gpr_named_def)
  with w' show ?thesis by (simp add: comp_def)
qed

lemma fpr_pointer_enumerator: "i < 34 \<Longrightarrow> \<exists>ptr. get_fpr_pointer (fpr_enumerators ! i) = Some ptr"
  by (cases "i < 32") (auto simp: get_fpr_pointer_iff fpr_enumerators_def less_Suc_eq numeral_eq_Suc)

lemma fpr_enumerator_valid: "i < 34 \<Longrightarrow> fpr_enumerators ! i \<noteq> FPR_INVALID"
proof
  assume "i < 34" and "fpr_enumerators ! i = FPR_INVALID"
  with fpr_index_enumerator [of i] show False by simp
qed

lemma all_fprs_fold:
  "list_all (\<lambda>i. i < 34) ks \<Longrightarrow> all_fprs f ks result =
     Inr (fold (\<lambda>i. obj_assign (fpr2str (fpr_enumerators ! i))
       (fpr_json (fpr_load f (the (get_fpr_pointer (fpr_enumerators ! i)))))) ks result)"
proof (induction ks arbitrary: result)
  case (Cons i ks)
  obtain ptr where "get_fpr_pointer (fpr_enumerators ! i) = Some ptr"
    using fpr_pointer_enumerator [of i] Cons.prems by auto
  with Cons show ?case by (simp add: Let_def)
qed simp

lemma read_fprs_fold:
  assumes "regset_contract os view"
  shows "k_stopped (view w) tid \<Longrightarrow> list_all (\<lambda>i. i < 34) ks \<Longrightarrow>
    \<exists>w'. read_fprs os tid (map (\<lambda>i. JString (fpr2str (fpr_enumerators ! i))) ks) result w =
       (Inr (fold (\<lambda>i. obj_assign (fpr2str (fpr_enumerators ! i))
         (fpr_json (fpr_load (k_fpr (view w) tid) (the (get_fpr_pointer (fpr_enumerators ! i)))))) ks result), w')
     \<and> view w' = view w"
proof (induction ks arbitrary: result w)
  case (Cons i ks)
  have i: "i < 34" and ks: "list_all (\<lambda>i. i < 34) ks" using Cons.prems(2) by simp_all
  then have reg: "str2fpr (fpr2str (fpr_enumerators ! i)) = fpr_enumerators ! i"
    using fpr_table.of_to_str [of "fpr_enumerators ! i"] by (simp add: fpr_names_facts)
  obtain ptr where ptr: "get_fpr_pointer (fpr_enumerators ! i) = Some ptr" using fpr_pointer_enumerator [OF i] by auto
  obtain x w1 where g: "get_fpr os tid (fpr_enumerators ! i) w = (x, w1)" by (metis prod.exhaust)
  note x = get_fpr_stopped [OF assms Cons.prems(1) ptr g]
  then have "k_stopped (view w1) tid" using Cons.prems(1) by simp
  from Cons.IH [OF this ks, of "obj_assign (fpr2str (fpr_enumerators ! i))
      (fpr_json (fpr_load (k_fpr (view w) tid) ptr)) result"] x g ptr reg fpr_enumerator_valid [OF i]
  show ?case by (auto simp: Let_def)
qed simp

definition each_gpr :: json where
  "each_gpr = JArray (map (\<lambda>i. JString (gpr2str (gpr_enumerators ! i))) [0..<34])"

definition each_fpr :: json where
  "each_fpr = JArray (map (\<lambda>i. JString (fpr2str (fpr_enumerators ! i))) [0..<34])"

text \<open>
  C20: Asking for all registers of a stopped thread, which reads each register set once, gives the same
  document as naming every register, which reads the set again for each, and neither changes the
  tracee.
\<close>

theorem read_all_equals_read_each:
  assumes "regset_contract os view" and "k_stopped (view w) (m_current_tid d)"
    and "read_registers os (JObject [(''GPR'', JString ''all''), (''FPR'', JString ''all'')]) JNull d w = (r1, j1, w1)"
    and "read_registers os (JObject [(''GPR'', each_gpr), (''FPR'', each_fpr)]) JNull d w = (r2, j2, w2)"
  shows "r1 = r2 \<and> (\<exists>st. r1 = Inr st \<and> is_success st) \<and> j1 = j2 \<and> view w1 = view w \<and> view w2 = view w"
proof -
  let ?t = "m_current_tid d"
  let ?g = "fold (\<lambda>i. obj_assign (gpr2str (gpr_enumerators ! i))
      (hex_json (gpr_load (k_gpr (view w) ?t) (the (get_gpr_pointer (gpr_enumerators ! i)))))) [0..<34] []"
  let ?f = "fold (\<lambda>i. obj_assign (fpr2str (fpr_enumerators ! i))
      (fpr_json (fpr_load (k_fpr (view w) ?t) (the (get_fpr_pointer (fpr_enumerators ! i)))))) [0..<34] []"
  have ks: "list_all (\<lambda>i. i < 34) [0..<34]" by (simp add: list_all_iff)
  obtain g1 u1 where a: "get_all_gpr os ?t w = (g1, u1)" by (metis prod.exhaust)
  have a': "g1 = Some (k_gpr (view w) ?t)" "view u1 = view w"
    using get_all_gpr_contract(1,3) [OF assms(1) a] assms(2) by simp_all
  obtain g2 u2 where b: "get_all_fpr os ?t u1 = (g2, u2)" by (metis prod.exhaust)
  have b': "g2 = Some (k_fpr (view w) ?t)" "view u2 = view w"
    using get_all_fpr_contract(1,3) [OF assms(1) b] assms(2) a'(2) by simp_all
  obtain v1 where c: "read_gprs os ?t (map (\<lambda>i. JString (gpr2str (gpr_enumerators ! i))) [0..<34]) [] w = (Inr ?g, v1)"
    "view v1 = view w" using read_gprs_fold [OF assms(1,2) ks] by blast
  have "k_stopped (view v1) ?t" using c(2) assms(2) by simp
  from read_fprs_fold [OF assms(1) this ks] obtain v2 where
    e: "read_fprs os ?t (map (\<lambda>i. JString (fpr2str (fpr_enumerators ! i))) [0..<34]) [] v1 = (Inr ?f, v2)"
    "view v2 = view w" unfolding c(2) by blast
  let ?ok = "Inr (status_success (Dumped (JString ''read_registers succeeded'')))"
  let ?j = "JObject (obj_assign ''FPR'' (JObject ?f) [(''GPR'', JObject ?g)])"
  have "r1 = ?ok \<and> j1 = ?j \<and> w1 = u2"
    using assms(3) a a'(1) b b'(1) all_gprs_fold [OF ks] all_fprs_fold [OF ks]
    by (simp add: read_registers_def read_block_def read_gpr_request_def read_fpr_request_def del: upt_conv_Cons fold.simps)
  moreover have "r2 = ?ok \<and> j2 = ?j \<and> w2 = v2"
    using assms(4) c(1) e(1)
    by (simp add: read_registers_def read_block_def read_gpr_request_def read_fpr_request_def each_gpr_def each_fpr_def
        del: upt_conv_Cons fold.simps)
  ultimately show ?thesis using b'(2) e(2) by simp
qed

theorem read_all_equals_read_each_witness:
  "fst (snd (read_registers sim_os (JObject [(''GPR'', JString ''all''), (''FPR'', JString ''all'')]) JNull demo_core demo_kernel))
     = fst (snd (read_registers sim_os (JObject [(''GPR'', each_gpr), (''FPR'', each_fpr)]) JNull demo_core demo_kernel))"
proof -
  obtain r1 j1 w1 where a: "read_registers sim_os (JObject [(''GPR'', JString ''all''), (''FPR'', JString ''all'')])
      JNull demo_core demo_kernel = (r1, j1, w1)" by (metis prod_cases3)
  obtain r2 j2 w2 where b: "read_registers sim_os (JObject [(''GPR'', each_gpr), (''FPR'', each_fpr)])
      JNull demo_core demo_kernel = (r2, j2, w2)" by (metis prod_cases3)
  have "k_stopped demo_kernel (m_current_tid demo_core)" by code_simp
  with read_all_equals_read_each [OF sim_regset_contract _ a b] a b show ?thesis by simp
qed

end
