(* ===== verification/Debugger_Launch.thy ===== *)
theory Debugger_Launch
  imports Debugger_Core
begin

unbundle bit_operations_syntax

text \<open>
  \<open>launch\<close> of \<open>src/debugger_core.cpp\<close>: the application is started by the system while the debugger
  traces the zygote, whose fork of the application it waits for.  The waiting loop polls and may go on as
  long as its clock does, so that it is a partial function; \<open>launch_returns\<close> shows that it ends
  where time passes.  The clock is in nanoseconds.
\<close>

section \<open>One event\<close>

definition PTRACE_EVENT_FORK :: u32 where "PTRACE_EVENT_FORK = 1"

text \<open>\<open>PTRACE_O_TRACESYSGOOD | PTRACE_O_TRACEFORK\<close>\<close>

definition zygote_options :: u64 where "zygote_options = 1 OR 2"

text \<open>A request whose result is not looked at.\<close>

definition ptrace_ignored :: "'w os \<Rightarrow> ptrace_request \<Rightarrow> pid \<Rightarrow> 'w \<Rightarrow> 'w" where
  "ptrace_ignored os request pid w = snd (snd (ptrace_wrapper os request pid w))"

text \<open>
  An event of the zygote: a status to return, or the process to attach to, if it is the one.  The kernel
  stores the message of the event as an \<open>unsigned long\<close>, of which \<open>fork_pid\<close> holds the low half;
  what the high half overwrites is not in the model.
\<close>

definition zygote_event ::
  "'w os \<Rightarrow> pid \<Rightarrow> string \<Rightarrow> u32 \<Rightarrow> 'w \<Rightarrow> (status + pid option) \<times> 'w" where
  "zygote_event os zygote_pid package_name status w =
     (if WIFSTOPPED status then
        (if drop_bit 16 status = PTRACE_EVENT_FORK then
           (case ptrace_wrapper os PTRACE_GETEVENTMSG zygote_pid w of
              (ok, reply, w1) \<Rightarrow>
                if ok then
                  (let fork_pid = reply_event reply;
                       (child_name, w2) = find_package_name_by_pid os fork_pid (os_sleep os 100 w1)
                   in case child_name of
                        None \<Rightarrow> (Inr None, ptrace_ignored os PTRACE_CONT zygote_pid w2)
                      | Some name \<Rightarrow>
                          if name \<noteq> package_name
                          then (Inr None, ptrace_ignored os PTRACE_CONT zygote_pid w2)
                          else (Inr (Some fork_pid), ptrace_ignored os PTRACE_DETACH fork_pid w2))
                else (Inr None, ptrace_ignored os PTRACE_CONT zygote_pid w1))
         else if WSTOPSIG status = 0x85
         then (Inr None, ptrace_ignored os PTRACE_SYSCALL zygote_pid w)
         else (Inr None, ptrace_ignored os PTRACE_CONT zygote_pid w))
      else if WIFEXITED status \<or> WIFSIGNALED status
      then (Inl (status_fail (Note ''the zygote ended'')), ptrace_ignored os PTRACE_DETACH zygote_pid w)
      else (Inr None, w))"

section \<open>Waiting for the fork\<close>

definition TIMEOUT_SEC :: int where "TIMEOUT_SEC = 5"

definition elapsed_seconds :: "int \<Rightarrow> int \<Rightarrow> int" where
  "elapsed_seconds start_time now = (now - start_time) div 10 ^ 9"

partial_function (option) launch_loop ::
  "'w os \<Rightarrow> pid \<Rightarrow> string \<Rightarrow> int \<Rightarrow> u32 \<Rightarrow> 'w \<Rightarrow> ((status + pid) \<times> 'w) option" where
  "launch_loop os zygote_pid package_name start_time status w =
     (let (now, w1) = os_clock os w in
      if elapsed_seconds start_time now > TIMEOUT_SEC
      then Some (Inl (status_fail (Note ''timeout'')), ptrace_ignored os PTRACE_DETACH zygote_pid w1)
      else
        (let (wpid, status1, w2) = waitpid_wrapper os (-1) status (WAIT_WALL OR WAIT_WNOHANG) w1 in
         if wpid < 0
         then Some (Inl (status_fail (Note ''waiting for an event failed'')), ptrace_ignored os PTRACE_DETACH zygote_pid w2)
         else if wpid = 0 then launch_loop os zygote_pid package_name start_time status1 (os_sleep os 50 w2)
         else if wpid = zygote_pid then
           (let (event, w3) = zygote_event os zygote_pid package_name status1 w2 in
            case event of
              Inl st \<Rightarrow> Some (Inl st, w3)
            | Inr found \<Rightarrow>
                (case found of
                   None \<Rightarrow> launch_loop os zygote_pid package_name start_time status1 w3
                 | Some app_pid \<Rightarrow> Some (Inr app_pid, w3)))
         else launch_loop os zygote_pid package_name start_time status1 (ptrace_ignored os PTRACE_CONT wpid w2)))"

section \<open>Launching\<close>

definition package_of :: "string \<Rightarrow> string" where
  "package_of package_activity = takeWhile (\<lambda>c. c \<noteq> CHR ''/'') package_activity"

definition find_zygotes :: "'w os \<Rightarrow> 'w \<Rightarrow> (cxx_error + pid list) \<times> 'w" where
  "find_zygotes os w =
     (case find_pid_by_process_name os ''zygote64'' EXACT True w of
        (Inl e, w1) \<Rightarrow> (Inl e, w1)
      | (Inr pids, w1) \<Rightarrow>
          if pids = [] then find_pid_by_process_name os ''zygote'' EXACT True w1 else (Inr pids, w1))"

text \<open>
  Attaching to the zygote, up to the point where it runs again: \<open>Some\<close> status where the code returns.
\<close>

definition trace_zygote :: "'w os \<Rightarrow> pid \<Rightarrow> 'w \<Rightarrow> (status option \<times> u32) \<times> 'w" where
  "trace_zygote os zygote_pid w =
     (case ptrace_wrapper os PTRACE_ATTACH zygote_pid w of
        (ok, _, w1) \<Rightarrow>
          if \<not> ok then ((Some (status_fail (Note ''attaching to the zygote failed'')), 0), w1)
          else
            (case waitpid_wrapper os zygote_pid 0 WAIT_WALL w1 of
               (wpid, status, w2) \<Rightarrow>
                 if wpid < 0 \<or> \<not> WIFSTOPPED status
                 then ((Some (status_fail (Note ''the zygote did not stop'')), status),
                       ptrace_ignored os PTRACE_DETACH zygote_pid w2)
                 else
                   (case ptrace_wrapper os (PTRACE_SETOPTIONS zygote_options) zygote_pid w2 of
                      (ok2, _, w3) \<Rightarrow>
                        if \<not> ok2
                        then ((Some (status_fail (Note ''setting the zygote's options failed'')), status),
                              ptrace_ignored os PTRACE_DETACH zygote_pid w3)
                        else ((None, status), ptrace_ignored os PTRACE_CONT zygote_pid w3))))"

text \<open>What follows the loop.\<close>

definition attach_launched ::
  "'w os \<Rightarrow> pid \<Rightarrow> pid \<Rightarrow> debugger \<Rightarrow> 'w \<Rightarrow> (cxx_error + status) \<times> debugger \<times> 'w" where
  "attach_launched os zygote_pid app_pid d w =
     (let w1 = ptrace_ignored os PTRACE_DETACH zygote_pid w in
      if app_pid \<le> 0 then (Inr (status_fail (Note ''no process of the app was caught'')), d, w1)
      else
        (case attach os app_pid d w1 of
           (Inl e, d1, w2) \<Rightarrow> (Inl e, d1, w2)
         | (Inr attach_status, d1, w2) \<Rightarrow>
             (Inr (if is_success attach_status then status_success (Note ''launched and attached'')
                   else status_fail (Note ''attaching to the app failed'')), d1, w2)))"

definition launch ::
  "'w os \<Rightarrow> string \<Rightarrow> debugger \<Rightarrow> 'w \<Rightarrow> ((cxx_error + status) \<times> debugger \<times> 'w) option" where
  "launch os package_activity d w =
     (let package_name = package_of package_activity;
          (stop_ret, w1) = os_system os (c_str (''am force-stop '' @ package_name)) w;
          w2 = os_sleep os 300 w1
      in case find_zygotes os w2 of
           (Inl e, w3) \<Rightarrow> Some (Inl e, d, w3)
         | (Inr [], w3) \<Rightarrow> Some (Inr (status_fail (Plain ''no zygote process'')), d, w3)
         | (Inr (zygote_pid # _), w3) \<Rightarrow>
             (case trace_zygote os zygote_pid w3 of
                ((Some st, _), w4) \<Rightarrow> Some (Inr st, d, w4)
              | ((None, status), w4) \<Rightarrow>
                  (let (ret, w5) = os_system os (c_str (''am start -n '' @ package_activity)) w4 in
                   if ret \<noteq> 0
                   then Some (Inr (status_fail (Note ''starting the app failed'')), d,
                              ptrace_ignored os PTRACE_DETACH zygote_pid w5)
                   else
                     (let (start_time, w6) = os_clock os w5 in
                      case launch_loop os zygote_pid package_name start_time status w6 of
                        None \<Rightarrow> None
                      | Some (Inl st, w7) \<Rightarrow> Some (Inr st, d, w7)
                      | Some (Inr app_pid, w7) \<Rightarrow> Some (attach_launched os zygote_pid app_pid d w7)))))"

section \<open>Time passes\<close>

text \<open>
  The steady clock does not go back, and a wait for an event takes at least a tick of it.
\<close>

definition time_contract :: "'w os \<Rightarrow> ('w \<Rightarrow> int) \<Rightarrow> bool" where
  "time_contract os now \<longleftrightarrow>
     (\<forall>w t w'. os_clock os w = (t, w') \<longrightarrow> t = now w \<and> now w \<le> now w')
   \<and> (\<forall>p old s w. now w + 1 \<le> now (snd (os_waitpid os p old s w)))
   \<and> (\<forall>req p w. now w \<le> now (snd (os_ptrace os req p w)))
   \<and> (\<forall>n w. now w \<le> now (os_sleep os n w))
   \<and> (\<forall>p w. now w \<le> now (snd (os_is_dir os p w)) \<and> now w \<le> now (snd (os_opendir os p w))
        \<and> now w \<le> now (snd (os_open_file os p w)))"

lemma time_ptrace:
  assumes "time_contract os now"
  shows "ptrace_wrapper os req p w = (ok, reply, w') \<Longrightarrow> now w \<le> now w'"
    and "now w \<le> now (ptrace_ignored os req p w)"
proof -
  have step: "now w \<le> now (snd (os_ptrace os req p w))" for req p w using assms unfolding time_contract_def by blast
  show "ptrace_wrapper os req p w = (ok, reply, w') \<Longrightarrow> now w \<le> now w'"
    using step [of w req p] by (auto simp: ptrace_wrapper_def split: prod.splits)
  show "now w \<le> now (ptrace_ignored os req p w)"
    using step [of w req p] by (auto simp: ptrace_ignored_def ptrace_wrapper_def split: prod.splits)
qed

lemma time_file_open:
  assumes "time_contract os now" and "file_open os p w = (f, w')"
  shows "now w \<le> now w'"
proof -
  have step: "now u \<le> now (snd (os_is_dir os p u))" "now u \<le> now (snd (os_opendir os p u))"
    "now u \<le> now (snd (os_open_file os p u))" for u
    using assms(1) unfolding time_contract_def by blast+
  obtain b u where d: "os_is_dir os p w = (b, u)" by (metis prod.exhaust)
  show ?thesis
    using assms(2) d step(1) [of w] step(2,3) [of u]
    by (auto simp: file_open_def file_open_as_def open_path_def check_directory_type_def Let_def
        split: prod.splits option.splits if_splits)
qed

lemma time_package_name:
  "time_contract os now \<Longrightarrow> find_package_name_by_pid os pid w = (r, w') \<Longrightarrow> now w \<le> now w'"
  by (auto simp: find_package_name_by_pid_def Let_def split: prod.splits if_splits dest: time_file_open)

lemma time_event:
  assumes "time_contract os now" and "zygote_event os z name status w = (r, w')"
  shows "now w \<le> now w'"
proof -
  note pt = time_ptrace [OF assms(1)]
  have sleep: "now u \<le> now (os_sleep os n u)" for n u using assms(1) unfolding time_contract_def by blast
  obtain ok reply w1 where e: "ptrace_wrapper os PTRACE_GETEVENTMSG z w = (ok, reply, w1)" by (metis prod_cases3)
  obtain c w2 where n: "find_package_name_by_pid os (reply_event reply) (os_sleep os 100 w1) = (c, w2)"
    by (metis prod.exhaust)
  have "now w \<le> now w1" "now w \<le> now w2"
    using pt(1) [OF e] sleep [of w1 100] time_package_name [OF assms(1) n] by linarith+
  then have "now w \<le> now (ptrace_ignored os req p w1)" "now w \<le> now (ptrace_ignored os req p w2)" for req p
    using pt(2) [of w1 req p] pt(2) [of w2 req p] by linarith+
  with assms(2) e n pt(2) show ?thesis
    by (auto simp: zygote_event_def Let_def split: if_splits option.splits)
qed

lemma launch_loop_returns:
  assumes "time_contract os now"
  shows "\<exists>r. launch_loop os z name start_time status w = Some r"
proof (induction "nat (start_time + 6 * 10 ^ 9 - now w)" arbitrary: status w rule: less_induct)
  case less
  obtain t w1 where c: "os_clock os w = (t, w1)" by (metis prod.exhaust)
  have t: "t = now w" "now w \<le> now w1" using assms c unfolding time_contract_def by blast+
  show ?case
  proof (cases "elapsed_seconds start_time t > TIMEOUT_SEC")
    case True
    then show ?thesis using c by (subst launch_loop.simps) simp
  next
    case False
    then have early: "now w < start_time + 6 * 10 ^ 9"
      using t(1) by (simp add: elapsed_seconds_def TIMEOUT_SEC_def)
    have again: "\<exists>r. launch_loop os z name start_time s u = Some r" if "now w + 1 \<le> now u" for s u
      by (rule less.hyps) (use that early in simp)
    obtain wpid s1 w2 where wt: "waitpid_wrapper os (-1) status (WAIT_WALL OR WAIT_WNOHANG) w1 = (wpid, s1, w2)"
      by (metis prod_cases3)
    have "now w1 + 1 \<le> now (snd (os_waitpid os (-1) (WAIT_WALL OR WAIT_WNOHANG) status w1))"
      using assms unfolding time_contract_def by blast
    then have w2: "now w + 1 \<le> now w2"
      using wt t(2) by (auto simp: waitpid_wrapper_def split: prod.splits)
    have sleep: "now w2 \<le> now (os_sleep os 50 w2)" using assms unfolding time_contract_def by blast
    obtain ev w3 where e: "zygote_event os z name s1 w2 = (ev, w3)" by (metis prod.exhaust)
    have later: "now w + 1 \<le> now (os_sleep os 50 w2)" "now w + 1 \<le> now w3"
      "now w + 1 \<le> now (ptrace_ignored os PTRACE_CONT wpid w2)"
      using w2 sleep time_event [OF assms e] time_ptrace(2) [OF assms, of w2 PTRACE_CONT wpid] by linarith+
    show ?thesis
      using False c wt e again [OF later(1)] again [OF later(2)] again [OF later(3)]
      by (subst launch_loop.simps) (auto split: sum.splits option.splits)
  qed
qed

text \<open>
  C16: Where time passes, \<open>launch\<close> returns: the wait for the application's process does not go on for
  ever, whatever events the traced processes raise.
\<close>

theorem launch_returns:
  assumes "time_contract os now"
  shows "\<exists>r d' w'. launch os package_activity d w = Some (r, d', w')"
proof -
  have loop: "(launch_loop os z name t status u = None) = False" for z name t status u
    using launch_loop_returns [OF assms, of z name t status u] by auto
  have "launch os package_activity d w \<noteq> None"
    by (simp add: launch_def Let_def loop del: not_None_eq split: prod.split sum.split list.split option.split)
  then show ?thesis by (metis not_None_eq prod_cases3)
qed

text \<open>A kernel whose state is the time: every wait takes a tick.\<close>

definition clock_os :: "int os" where
  "clock_os = \<lparr>os_ptrace = (\<lambda>_ _ t. (reply_word 0, t)), os_waitpid = (\<lambda>p _ _ t. ((0, 0x137F), t + 1)),
     os_kill = (\<lambda>_ _ t. (0, t)), os_vm_readv = (\<lambda>_ _ _ t. ((-1, []), t)), os_vm_writev = (\<lambda>_ _ _ t. (-1, t)),
     os_is_dir = (\<lambda>_ t. (False, t)), os_opendir = (\<lambda>_ t. (None, t)), os_open_file = (\<lambda>_ t. (None, t)),
     os_popen = (\<lambda>cmd t. (Some (''USER PID PPID VSZ RSS WCHAN ADDR S ARGS'' @ newline #
        ''root 77 1 10 20 0 0 S zygote64''), t)),
     os_system = (\<lambda>_ t. (0, t)), os_sleep = (\<lambda>n t. t + int n * 10 ^ 6), os_clock = (\<lambda>t. (t, t)),
     os_little_endian = True, os_word_address = 0, os_hash_pick = (\<lambda>_. 0)\<rparr>"

lemma clock_time: "time_contract clock_os id"
  by (simp add: time_contract_def clock_os_def)

theorem launch_returns_witness:
  "\<exists>r d' w'. launch clock_os ''com.demo.app/.Main'' DebuggerCore 0 = Some (r, d', w')"
  by (rule launch_returns [OF clock_time])

section \<open>What launching does to the debugger\<close>

text \<open>The members change only by the attaching at the end.\<close>

lemma attach_launched_cases:
  "attach_launched os z pid d w = (r, d', w') \<Longrightarrow> d' = d \<or> (\<exists>r' u. attach os pid d u = (r', d', w'))"
  by (auto simp: attach_launched_def Let_def split: prod.splits sum.splits if_splits)

lemma launch_cases:
  assumes "launch os package_activity d w = Some (r, d', w')"
  obtains (kept) "d' = d" | (attached) pid r' u where "attach os pid d u = (r', d', w')"
proof -
  have "d' = d \<or> (\<exists>pid r' u. attach os pid d u = (r', d', w'))"
    using assms
    by (auto simp: launch_def Let_def dest: attach_launched_cases
        split: prod.splits sum.splits list.splits option.splits if_splits)
  with that show thesis by blast
qed

lemma launch_reachable:
  assumes "core_reachable os d w0" and "launch os package_activity d w = Some (r, d', w')"
  shows "core_reachable os d' w'"
  using assms(2)
proof (cases rule: launch_cases)
  case kept
  with assms(1) show ?thesis by (metis Core_next Core_world)
next
  case (attached pid r' u)
  from assms(1) have "core_reachable os d u" by (metis Core_next Core_world)
  then show ?thesis using attached by (metis Core_next Core_attach)
qed

end
