(* ===== verification/Rpc_Server.thy ===== *)
theory Rpc_Server
  imports Json_Status Utils
begin

unbundle bit_operations_syntax

text \<open>
  \<open>Base::RPCServer\<close> of \<open>src/rpc_server.hpp\<close> and \<open>src/rpc_server.cpp\<close>: one client at a time, whose
  requests are frames of an eight byte big endian length and a text \<open>command|content\<close>.  The socket
  calls are the fields of a record over the world the handlers work on; loops that serve as long as
  there is something to serve are partial functions, \<open>None\<close> standing for never returning.
\<close>

section \<open>Messages\<close>

record Message =
  command :: string
  content :: string

definition deserialize_message :: "string \<Rightarrow> Message" where
  "deserialize_message data =
     (let pos = length (takeWhile (\<lambda>c. c \<noteq> CHR ''|'') data) in
      if pos = length data then \<lparr>command = [], content = []\<rparr>
      else \<lparr>command = take pos data, content = drop (pos + 1) data\<rparr>)"

definition serialize_message :: "Message \<Rightarrow> string" where
  "serialize_message message = command message @ CHR ''|'' # content message"

section \<open>The sockets\<close>

text \<open>
  \<open>net_recv fd n\<close> gives the return value of a \<open>recv\<close> of \<open>n\<close> bytes with \<open>MSG_WAITALL\<close> and what it
  has put into the buffer, \<open>net_accept\<close> the descriptor, or -1 and \<open>errno\<close>.  \<open>net_alloc n\<close> tells
  whether the allocator has \<open>n\<close> bytes, \<open>net_render\<close> the text of a status message (\<open>json.dump\<close> can
  throw), and \<open>net_what\<close> the text of an exception.
\<close>

record 'w net =
  net_socket :: "'w \<Rightarrow> int \<times> 'w"
  net_reuse_address :: "int \<Rightarrow> 'w \<Rightarrow> int \<times> 'w"
  net_bind :: "int \<Rightarrow> u16 \<Rightarrow> 'w \<Rightarrow> int \<times> 'w"
  net_listen :: "int \<Rightarrow> 'w \<Rightarrow> int \<times> 'w"
  net_accept :: "int \<Rightarrow> 'w \<Rightarrow> (int \<times> int) \<times> 'w"
  net_close :: "int \<Rightarrow> 'w \<Rightarrow> 'w"
  net_recv :: "int \<Rightarrow> nat \<Rightarrow> 'w \<Rightarrow> (int \<times> string) \<times> 'w"
  net_send :: "int \<Rightarrow> string \<Rightarrow> 'w \<Rightarrow> int \<times> 'w"
  net_little_endian :: bool
  net_alloc :: "nat \<Rightarrow> bool"
  net_render :: "message \<Rightarrow> cxx_error + string"
  net_what :: "cxx_error \<Rightarrow> string"

text \<open>A handler that does not return has the result \<open>None\<close>.\<close>

type_synonym 'w handler = "string \<Rightarrow> 'w \<Rightarrow> ((cxx_error + status) \<times> 'w) option"

definition EINTR :: int where "EINTR = 4"

text \<open>Characters as bytes.\<close>

definition char_bytes :: "string \<Rightarrow> bytes" where
  "char_bytes s = map (\<lambda>c. of_nat (char_code c)) s"

definition byte_chars :: "bytes \<Rightarrow> string" where
  "byte_chars bs = map (\<lambda>b. char_of (unat b)) bs"

section \<open>The server\<close>

text \<open>\<open>server_thread_\<close> is never started, so that joining it in \<open>stop\<close> does nothing.\<close>

record 'w rpc_server =
  running :: bool
  connected :: bool
  server_fd :: int
  current_client_fd :: int
  server_port :: int
  handlers :: "(string, 'w handler) umap"

definition register_handler :: "string \<Rightarrow> 'w handler \<Rightarrow> 'w rpc_server \<Rightarrow> 'w rpc_server" where
  "register_handler cmd handler srv = srv\<lparr>handlers := um_assign cmd handler (handlers srv)\<rparr>"

text \<open>\<open>success(params)\<close> takes the string for a JSON value and dumps it.\<close>

definition ping :: "'w handler" where
  "ping params w =
     Some (Inr (if params = [] then status_success (Dumped (JString ''pong'')) else status_success (Dumped (JString params))), w)"

definition RPCServer :: "'w rpc_server" where
  "RPCServer = register_handler ''ping'' ping
     \<lparr>running = False, connected = False, server_fd = -1, current_client_fd = -1, server_port = 0,
      handlers = um_empty\<rparr>"

definition is_running :: "'w rpc_server \<Rightarrow> bool" where
  "is_running srv = running srv"

definition is_connected :: "'w rpc_server \<Rightarrow> bool" where
  "is_connected srv = connected srv"

definition get_port :: "'w rpc_server \<Rightarrow> int" where
  "get_port srv = server_port srv"

text \<open>\<open>safe_close_fd\<close>: the descriptor after it, and the world.\<close>

definition safe_close_fd :: "'w net \<Rightarrow> int \<Rightarrow> 'w \<Rightarrow> int \<times> 'w" where
  "safe_close_fd net fd w = (if 0 \<le> fd then (-1, net_close net fd w) else (fd, w))"

section \<open>Frames\<close>

definition PTRDIFF_MAX :: nat where "PTRDIFF_MAX = 2 ^ 63 - 1"

text \<open>\<open>std::vector<char> data(length)\<close> throws when the length is too large or there is no memory.\<close>

definition read_message :: "'w net \<Rightarrow> int \<Rightarrow> 'w \<Rightarrow> (cxx_error + string) \<times> 'w" where
  "read_message net fd w =
     (let ((n, head), w1) = net_recv net fd 8 w in
      if n \<noteq> 8 then (Inr [], w1) else
      let net_length = (host_word (net_little_endian net) (char_bytes head) :: u64);
          len = unat (from_big_endian (net_little_endian net) net_length)
      in if len = 0 then (Inr [], w1)
         else if PTRDIFF_MAX < len then (Inl Length_error, w1)
         else if \<not> net_alloc net len then (Inl Bad_alloc, w1)
         else
           (let ((n2, data), w2) = net_recv net fd len w1 in
            if n2 \<noteq> int len then (Inr [], w2) else (Inr data, w2)))"

definition frame :: "bool \<Rightarrow> string \<Rightarrow> string" where
  "frame le data = byte_chars (host_bytes le 8 (to_big_endian le (of_nat (length data) :: u64))) @ data"

definition send_message :: "'w net \<Rightarrow> int \<Rightarrow> string \<Rightarrow> 'w \<Rightarrow> bool \<times> 'w" where
  "send_message net fd data w =
     (let response = frame (net_little_endian net) data;
          (n, w1) = net_send net fd response w
      in (n = int (length response), w1))"

section \<open>Serving\<close>

text \<open>The UTF-8 bytes of the two literals that become part of a response.\<close>

definition text_exception :: string where
  "text_exception = map char_of [0xE5, 0xA4, 0x84, 0xE7, 0x90, 0x86, 0xE5, 0x91, 0xBD, 0xE4, 0xBB, 0xA4, 0xE6, 0x97,
     0xB6, 0xE5, 0x8F, 0x91, 0xE7, 0x94, 0x9F, 0xE5, 0xBC, 0x82, 0xE5, 0xB8, 0xB8 :: nat] @ '': ''"

definition text_unknown :: string where
  "text_unknown = map char_of [0xE6, 0x9C, 0xAA, 0xE7, 0x9F, 0xA5, 0xE5, 0x91, 0xBD, 0xE4, 0xBB, 0xA4 :: nat] @ '': ''"

text \<open>
  The response to a message.  The \<open>try\<close> block is the handler's call and the copy of its status,
  read as a C string; every exception of the standard library ends in an \<open>error\<close> response.
\<close>

definition respond ::
  "(message \<Rightarrow> cxx_error + string) \<Rightarrow> (cxx_error \<Rightarrow> string) \<Rightarrow> (string, 'w handler) umap \<Rightarrow> Message \<Rightarrow> 'w \<Rightarrow>
     ((cxx_error + Message) \<times> 'w) option" where
  "respond render what table message w =
     (case um_find table (command message) of
        None \<Rightarrow> Some (Inr \<lparr>command = ''error'', content = text_unknown @ command message\<rparr>, w)
      | Some handler \<Rightarrow>
          (case handler (content message) w of
             None \<Rightarrow> None
           | Some (result, w1) \<Rightarrow>
               (let copied = (case result of
                      Inl e \<Rightarrow> Inl e
                    | Inr st \<Rightarrow>
                        (case render (m_string st) of
                           Inl e \<Rightarrow> Inl e
                         | Inr txt \<Rightarrow>
                             Inr \<lparr>command = (if is_success st then ''success'' else ''fail''),
                                  content = c_str txt\<rparr>))
                in case copied of
                     Inr response \<Rightarrow> Some (Inr response, w1)
                   | Inl e \<Rightarrow>
                       if is_std_exception e
                       then Some (Inr \<lparr>command = ''error'', content = text_exception @ what e\<rparr>, w1)
                       else Some (Inl e, w1))))"

text \<open>One pass of the loop of \<open>handle_client\<close>: whether it goes on.\<close>

definition serve_request :: "'w net \<Rightarrow> 'w rpc_server \<Rightarrow> int \<Rightarrow> 'w \<Rightarrow> ((cxx_error + bool) \<times> 'w) option" where
  "serve_request net srv fd w =
     (case read_message net fd w of
        (Inl e, w1) \<Rightarrow> Some (Inl e, w1)
      | (Inr data, w1) \<Rightarrow>
          if data = [] then Some (Inr False, w1)
          else
            (case respond (net_render net) (net_what net) (handlers srv) (deserialize_message data) w1 of
               None \<Rightarrow> None
             | Some (Inl e, w2) \<Rightarrow> Some (Inl e, w2)
             | Some (Inr response, w2) \<Rightarrow>
                 (case send_message net fd (serialize_message response) w2 of
                    (sent, w3) \<Rightarrow> Some (Inr sent, w3))))"

partial_function (option) handle_client ::
  "'w net \<Rightarrow> 'w rpc_server \<Rightarrow> int \<Rightarrow> 'w \<Rightarrow> ((cxx_error + unit) \<times> 'w) option" where
  "handle_client net srv fd w =
     (if \<not> running srv then Some (Inr (), w)
      else
        (case serve_request net srv fd w of
           None \<Rightarrow> None
         | Some (r, w1) \<Rightarrow>
             (case r of
                Inl e \<Rightarrow> Some (Inl e, w1)
              | Inr again \<Rightarrow> if again then handle_client net srv fd w1 else Some (Inr (), w1))))"

partial_function (option) server_loop ::
  "'w net \<Rightarrow> 'w rpc_server \<Rightarrow> 'w \<Rightarrow> ((cxx_error + unit) \<times> 'w rpc_server \<times> 'w) option" where
  "server_loop net srv w =
     (if \<not> running srv then Some (Inr (), srv, w)
      else
        (let r = net_accept net (server_fd srv) w; client_fd = fst (fst r); err = snd (fst r); w1 = snd r in
         if client_fd < 0 then
           (if err = EINTR then server_loop net srv w1 else Some (Inr (), srv, w1))
         else
           (let w2 = (if connected srv then snd (safe_close_fd net (current_client_fd srv) w1) else w1);
                srv1 = srv\<lparr>current_client_fd := client_fd, connected := True\<rparr>
            in case handle_client net srv1 client_fd w2 of
                 None \<Rightarrow> None
               | Some (Inl e, w3) \<Rightarrow> Some (Inl e, srv1, w3)
               | Some (Inr _, w3) \<Rightarrow>
                   server_loop net
                     (srv1\<lparr>current_client_fd := fst (safe_close_fd net client_fd w3), connected := False\<rparr>)
                     (snd (safe_close_fd net client_fd w3)))))"

text \<open>\<open>start\<close> runs the loop itself and returns only when it has ended.\<close>

definition start ::
  "'w net \<Rightarrow> u16 \<Rightarrow> 'w rpc_server \<Rightarrow> 'w \<Rightarrow> ((cxx_error + bool) \<times> 'w rpc_server \<times> 'w) option" where
  "start net port srv w =
     (if running srv then Some (Inr True, srv, w) else
      let (fd, w1) = net_socket net w; srv1 = srv\<lparr>server_fd := fd\<rparr> in
      if fd < 0 then Some (Inr False, srv1, w1) else
      let (r1, w2) = net_reuse_address net fd w1 in
      if r1 < 0 then (let (fd', w') = safe_close_fd net fd w2 in Some (Inr False, srv1\<lparr>server_fd := fd'\<rparr>, w')) else
      let (r2, w3) = net_bind net fd port w2 in
      if r2 < 0 then (let (fd', w') = safe_close_fd net fd w3 in Some (Inr False, srv1\<lparr>server_fd := fd'\<rparr>, w')) else
      let (r3, w4) = net_listen net fd w3 in
      if r3 < 0 then (let (fd', w') = safe_close_fd net fd w4 in Some (Inr False, srv1\<lparr>server_fd := fd'\<rparr>, w')) else
      (case server_loop net (srv1\<lparr>server_port := int (unat port), running := True\<rparr>) w4 of
         None \<Rightarrow> None
       | Some (Inl e, srv2, w5) \<Rightarrow> Some (Inl e, srv2, w5)
       | Some (Inr _, srv2, w5) \<Rightarrow> Some (Inr True, srv2, w5)))"

definition stop :: "'w net \<Rightarrow> 'w rpc_server \<Rightarrow> 'w \<Rightarrow> 'w rpc_server \<times> 'w" where
  "stop net srv w =
     (if \<not> running srv then (srv, w) else
      let (fd, w1) = safe_close_fd net (server_fd srv) w;
          srv1 = srv\<lparr>server_fd := fd, running := False\<rparr>
      in if connected srv1 then
           (let (cfd, w2) = safe_close_fd net (current_client_fd srv1) w1
            in (srv1\<lparr>current_client_fd := cfd, connected := False\<rparr>, w2))
         else (srv1, w1))"

text \<open>\<open>~RPCServer\<close>: the members after it are of no use any more.\<close>

definition destroy_server :: "'w net \<Rightarrow> 'w rpc_server \<Rightarrow> 'w \<Rightarrow> 'w rpc_server \<times> 'w" where
  "destroy_server net srv w = stop net srv w"

section \<open>Frames on the wire\<close>

lemma char_bytes_byte_chars [simp]: "char_bytes (byte_chars bs) = bs"
proof -
  have "of_nat (char_code (char_of (unat b))) = b" for b :: u8
    using unat_bound [of b] by (simp add: char_code_def)
  then show ?thesis by (simp add: char_bytes_def byte_chars_def comp_def)
qed

lemma length_byte_chars [simp]: "length (byte_chars bs) = length bs"
  by (simp add: byte_chars_def)

lemma frame_head:
  "from_big_endian le (host_word le (char_bytes (byte_chars (host_bytes le 8 (to_big_endian le (n :: u64)))))) = n"
  by (simp add: from_to_big_endian)

text \<open>
  A connection as two texts: what the client still has to be read, and what has been sent to it.
  A \<open>recv\<close> that waits for all gets what it asks for unless the text ends before; a \<open>send\<close> takes
  everything.  \<open>dbg\<close> is the part of the world the handlers work on.
\<close>

definition channel_contract ::
  "'w net \<Rightarrow> int \<Rightarrow> ('w \<Rightarrow> string) \<Rightarrow> ('w \<Rightarrow> string) \<Rightarrow> ('w \<Rightarrow> 'd) \<Rightarrow> bool" where
  "channel_contract net fd inp out dbg \<longleftrightarrow>
     (\<forall>n w k data w'. 0 < n \<and> net_recv net fd n w = ((k, data), w') \<longrightarrow>
        out w' = out w \<and> dbg w' = dbg w
      \<and> (if n \<le> length (inp w) then k = int n \<and> data = take n (inp w) \<and> inp w' = drop n (inp w)
         else k \<noteq> int n))
     \<and> (\<forall>data w k w'. net_send net fd data w = (k, w') \<longrightarrow>
        k = int (length data) \<and> out w' = out w @ data \<and> inp w' = inp w \<and> dbg w' = dbg w)"

lemma recv_rule:
  assumes "channel_contract net fd inp out dbg" and "net_recv net fd n w = ((k, data), w')" and "0 < n"
  shows "out w' = out w" and "dbg w' = dbg w"
    and "n \<le> length (inp w) \<Longrightarrow> k = int n \<and> data = take n (inp w) \<and> inp w' = drop n (inp w)"
    and "length (inp w) < n \<Longrightarrow> k \<noteq> int n"
proof -
  have "out w' = out w \<and> dbg w' = dbg w
      \<and> (if n \<le> length (inp w) then k = int n \<and> data = take n (inp w) \<and> inp w' = drop n (inp w)
         else k \<noteq> int n)"
    using assms unfolding channel_contract_def by blast
  then show "out w' = out w" "dbg w' = dbg w"
    "n \<le> length (inp w) \<Longrightarrow> k = int n \<and> data = take n (inp w) \<and> inp w' = drop n (inp w)"
    "length (inp w) < n \<Longrightarrow> k \<noteq> int n"
    by (simp_all split: if_splits)
qed

lemma send_rule:
  assumes "channel_contract net fd inp out dbg" and "net_send net fd data w = (k, w')"
  shows "k = int (length data) \<and> out w' = out w @ data \<and> inp w' = inp w \<and> dbg w' = dbg w"
  using assms unfolding channel_contract_def by blast

definition can_read :: "'w net \<Rightarrow> string \<Rightarrow> bool" where
  "can_read net data \<longleftrightarrow> data \<noteq> [] \<and> length data \<le> PTRDIFF_MAX \<and> net_alloc net (length data)"

lemma read_frame:
  assumes "channel_contract net fd inp out dbg"
    and "inp w = frame (net_little_endian net) data @ rest" and "can_read net data"
  obtains w' where "read_message net fd w = (Inr data, w')"
    and "inp w' = rest" and "out w' = out w" and "dbg w' = dbg w"
proof -
  let ?le = "net_little_endian net" and ?len = "of_nat (length data) :: u64"
  obtain k head w1 where r1: "net_recv net fd 8 w = ((k, head), w1)" by (metis prod_cases3 prod.collapse)
  have a: "k = 8" "head = byte_chars (host_bytes ?le 8 (to_big_endian ?le ?len))" "inp w1 = data @ rest"
    "out w1 = out w" "dbg w1 = dbg w"
    using recv_rule [OF assms(1) r1] by (simp_all add: assms(2) frame_def)
  have small: "length data < 2 ^ 64" using assms(3) by (simp add: can_read_def PTRDIFF_MAX_def)
  have len: "unat (from_big_endian ?le (host_word ?le (char_bytes head) :: u64)) = length data"
    using small by (simp only: a(2) frame_head) (simp add: unat_of_nat_small)
  obtain k2 d w2 where r2: "net_recv net fd (length data) w1 = ((k2, d), w2)" by (metis prod_cases3 prod.collapse)
  have b: "k2 = int (length data)" "d = data" "inp w2 = rest" "out w2 = out w1" "dbg w2 = dbg w1"
    using recv_rule [OF assms(1) r2] assms(3) by (simp_all add: a(3) can_read_def)
  show ?thesis
  proof (rule that [of w2])
    show "read_message net fd w = (Inr data, w2)"
      using r1 r2 a(1) b(1,2) assms(3) by (simp add: read_message_def Let_def len can_read_def)
  qed (use a b in simp_all)
qed

lemma read_short:
  assumes "channel_contract net fd inp out dbg" and "length (inp w) < 8"
  obtains w' where "read_message net fd w = (Inr [], w')" and "out w' = out w" and "dbg w' = dbg w"
proof -
  obtain k head w1 where r1: "net_recv net fd 8 w = ((k, head), w1)" by (metis prod_cases3 prod.collapse)
  show ?thesis
    using that [of w1] recv_rule [OF assms(1) r1] assms(2) r1 by (simp add: read_message_def)
qed

lemma send_frame:
  assumes "channel_contract net fd inp out dbg"
  obtains w' where "send_message net fd data w = (True, w')" and "inp w' = inp w"
    and "out w' = out w @ frame (net_little_endian net) data" and "dbg w' = dbg w"
proof -
  obtain k w1 where s: "net_send net fd (frame (net_little_endian net) data) w = (k, w1)" by (metis prod.exhaust)
  show ?thesis
    using that [of w1] send_rule [OF assms s] s by (simp add: send_message_def)
qed

text \<open>A simulated connection for the witnesses: the two texts are the world.\<close>

definition sim_net :: "(string \<times> string) net" where
  "sim_net = \<lparr>net_socket = (\<lambda>w. (3, w)), net_reuse_address = (\<lambda>_ w. (0, w)), net_bind = (\<lambda>_ _ w. (0, w)),
     net_listen = (\<lambda>_ w. (0, w)), net_accept = (\<lambda>_ w. ((-1, 9), w)), net_close = (\<lambda>_ w. w),
     net_recv = (\<lambda>fd n (i, out). if n \<le> length i then ((int n, take n i), (drop n i, out)) else ((0, []), (i, out))),
     net_send = (\<lambda>fd data (i, out). (int (length data), (i, out @ data))),
     net_little_endian = True, net_alloc = (\<lambda>n. n < 1000),
     net_render = (\<lambda>m. case m of Plain s \<Rightarrow> Inr s | Note s \<Rightarrow> Inr s
        | Dumped (JString s) \<Rightarrow> Inr ([CHR 0x22] @ s @ [CHR 0x22]) | _ \<Rightarrow> Inr []),
     net_what = (\<lambda>_. [])\<rparr>"

lemma sim_channel: "channel_contract sim_net fd fst snd (\<lambda>_. ())"
  by (auto simp: channel_contract_def sim_net_def split: if_splits)

section \<open>Conversations\<close>

text \<open>
  The specification: handlers over the debugger's state alone, and the replies they give to a list
  of requests, \<open>None\<close> when one of them does something undefined or does not return.  \<open>handlers_on\<close> relates such a table
  to the server's, whose handlers leave the connection alone.
\<close>

primrec replies ::
  "(message \<Rightarrow> cxx_error + string) \<Rightarrow> (cxx_error \<Rightarrow> string) \<Rightarrow> (string, 'd handler) umap \<Rightarrow> string list \<Rightarrow> 'd \<Rightarrow>
     (Message list \<times> 'd) option" where
  "replies render what table [] d = Some ([], d)"
| "replies render what table (r # rs) d =
     (case respond render what table (deserialize_message r) d of
        Some (Inr m, d') \<Rightarrow> map_option (\<lambda>(ms, d''). (m # ms, d'')) (replies render what table rs d')
      | _ \<Rightarrow> None)"

definition runs_on ::
  "('w \<Rightarrow> string) \<Rightarrow> ('w \<Rightarrow> string) \<Rightarrow> ('w \<Rightarrow> 'd) \<Rightarrow> ('q \<times> 'd) option \<Rightarrow> 'w \<Rightarrow> ('q \<times> 'w) option \<Rightarrow> bool" where
  "runs_on inp out dbg spec w r \<longleftrightarrow>
     (case r of
        None \<Rightarrow> spec = None
      | Some (q, w') \<Rightarrow> spec = Some (q, dbg w') \<and> inp w' = inp w \<and> out w' = out w)"

definition handlers_on ::
  "('w \<Rightarrow> string) \<Rightarrow> ('w \<Rightarrow> string) \<Rightarrow> ('w \<Rightarrow> 'd) \<Rightarrow> (string, 'd handler) umap \<Rightarrow> (string, 'w handler) umap \<Rightarrow> bool" where
  "handlers_on inp out dbg table hs \<longleftrightarrow> (\<forall>k.
     (case (um_find table k, um_find hs k) of
        (None, None) \<Rightarrow> True
      | (Some f, Some h) \<Rightarrow> (\<forall>c w. runs_on inp out dbg (f c (dbg w)) w (h c w))
      | _ \<Rightarrow> False))"

lemma handlers_on_none: "handlers_on inp out dbg table hs \<Longrightarrow> um_find table k = None \<Longrightarrow> um_find hs k = None"
  unfolding handlers_on_def by (drule spec [of _ k]) (auto split: option.splits)

lemma handlers_on_some:
  "handlers_on inp out dbg table hs \<Longrightarrow> um_find table k = Some f \<Longrightarrow>
     \<exists>h. um_find hs k = Some h \<and> (\<forall>c w. runs_on inp out dbg (f c (dbg w)) w (h c w))"
  unfolding handlers_on_def by (drule spec [of _ k]) (auto split: option.splits)

lemma respond_on:
  assumes "handlers_on inp out dbg table hs"
  shows "runs_on inp out dbg (respond render what table m (dbg w)) w (respond render what hs m w)"
proof (cases "um_find table (command m)")
  case None
  with handlers_on_none [OF assms] show ?thesis by (simp add: respond_def runs_on_def)
next
  case (Some f)
  from handlers_on_some [OF assms Some] obtain h where h: "um_find hs (command m) = Some h"
    and f: "runs_on inp out dbg (f (content m) (dbg w)) w (h (content m) w)" by blast
  show ?thesis
  proof (cases "h (content m) w")
    case None
    with h Some f show ?thesis by (simp add: respond_def runs_on_def)
  next
    case (Some p)
    obtain q w1 where p: "p = (q, w1)" by (cases p)
    with Some h f \<open>um_find table (command m) = Some f\<close> show ?thesis
      by (auto simp: respond_def runs_on_def Let_def split: sum.splits)
  qed
qed

lemma serve_request_frame:
  assumes "channel_contract net fd inp out dbg" and "handlers_on inp out dbg table (handlers srv)"
    and "inp w = frame (net_little_endian net) r @ rest" and "can_read net r"
    and "respond (net_render net) (net_what net) table (deserialize_message r) (dbg w) = Some (Inr m, d)"
  obtains w' where "serve_request net srv fd w = Some (Inr True, w')" and "inp w' = rest" and "dbg w' = d"
    and "out w' = out w @ frame (net_little_endian net) (serialize_message m)"
proof -
  obtain w1 where w1: "read_message net fd w = (Inr r, w1)" "inp w1 = rest" "out w1 = out w" "dbg w1 = dbg w"
    using read_frame [OF assms(1,3,4)] by blast
  obtain w2 where q: "respond (net_render net) (net_what net) (handlers srv) (deserialize_message r) w1 = Some (Inr m, w2)"
    and w2: "dbg w2 = d" "inp w2 = rest" "out w2 = out w"
    using respond_on [OF assms(2), of "net_render net" "net_what net" "deserialize_message r" w1] assms(5) w1
    by (auto simp: runs_on_def split: option.splits prod.splits)
  obtain w3 where w3: "send_message net fd (serialize_message m) w2 = (True, w3)" "inp w3 = inp w2"
      "out w3 = out w2 @ frame (net_little_endian net) (serialize_message m)" "dbg w3 = dbg w2"
    using send_frame [OF assms(1)] by blast
  show ?thesis
    using that [of w3] w1 w2 w3 q assms(4) by (simp add: serve_request_def can_read_def)
qed

text \<open>
  C14: The server answers every request: when the client sends a sequence of frames and closes the
  connection, \<open>handle_client\<close> returns, and it has sent exactly one frame per request, in the order
  of the requests, with the answers the handlers give.
\<close>

theorem handle_client_conversation:
  assumes "channel_contract net fd inp out dbg" and "handlers_on inp out dbg table (handlers srv)"
    and "running srv" and "list_all (can_read net) rs" and "length rest < 8"
    and "inp w = concat (map (frame (net_little_endian net)) rs) @ rest"
    and "replies (net_render net) (net_what net) table rs (dbg w) = Some (ms, d)"
  shows "\<exists>w'. handle_client net srv fd w = Some (Inr (), w') \<and> dbg w' = d
    \<and> length ms = length rs
    \<and> out w' = out w @ concat (map (\<lambda>m. frame (net_little_endian net) (serialize_message m)) ms)"
  using assms(4,6,7)
proof (induction rs arbitrary: w ms)
  case Nil
  with assms(5) obtain w1 where "read_message net fd w = (Inr [], w1)" "out w1 = out w" "dbg w1 = dbg w"
    using read_short [OF assms(1), of w] by auto
  with Nil assms(3) show ?case by (simp add: handle_client.simps [of net srv fd w] serve_request_def)
next
  case (Cons r rs)
  obtain m d1 ms1 where m: "respond (net_render net) (net_what net) table (deserialize_message r) (dbg w) = Some (Inr m, d1)"
      "replies (net_render net) (net_what net) table rs d1 = Some (ms1, d)" "ms = m # ms1"
    using Cons.prems(3) by (auto split: prod.splits sum.splits option.splits)
  have "inp w = frame (net_little_endian net) r @ (concat (map (frame (net_little_endian net)) rs) @ rest)"
    using Cons.prems(2) by simp
  then obtain w1 where w1: "serve_request net srv fd w = Some (Inr True, w1)" "dbg w1 = d1"
      "inp w1 = concat (map (frame (net_little_endian net)) rs) @ rest"
      "out w1 = out w @ frame (net_little_endian net) (serialize_message m)"
    using serve_request_frame [OF assms(1,2) _ _ m(1)] Cons.prems(1) by auto
  with Cons.IH [of w1 ms1] Cons.prems(1) m(2) obtain w' where
      "handle_client net srv fd w1 = Some (Inr (), w')" "dbg w' = d" "length ms1 = length rs"
      "out w' = out w1 @ concat (map (\<lambda>m. frame (net_little_endian net) (serialize_message m)) ms1)"
    by auto
  with w1 m(3) assms(3) show ?case by (simp add: handle_client.simps [of net srv fd w])
qed

definition demo_server :: "(string \<times> string) rpc_server" where
  "demo_server = RPCServer\<lparr>running := True\<rparr>"

lemma demo_handlers: "handlers_on fst snd (\<lambda>_. ()) [(''ping'', ping)] (handlers demo_server)"
  by (auto simp: handlers_on_def runs_on_def demo_server_def RPCServer_def register_handler_def um_find_def um_assign_def
      um_empty_def ping_def split: option.splits)

lemma demo_running: "running demo_server"
  by (simp add: demo_server_def)

lemma sim_little_endian: "net_little_endian sim_net"
  by (simp add: sim_net_def)

theorem handle_client_conversation_witness:
  "\<exists>w'. handle_client sim_net demo_server 4 (concat (map (frame True) [''ping|'', ''ping|hi'', ''quit|'']), [])
       = Some (Inr (), w')
     \<and> snd w' = concat (map (frame True) [''success|'' @ [CHR 0x22] @ ''pong'' @ [CHR 0x22], ''success|'' @ [CHR 0x22] @ ''hi'' @ [CHR 0x22],
         ''error|'' @ text_unknown @ ''quit''])"
proof -
  let ?ms = "[\<lparr>command = ''success'', content = [CHR 0x22] @ ''pong'' @ [CHR 0x22]\<rparr>,
     \<lparr>command = ''success'', content = [CHR 0x22] @ ''hi'' @ [CHR 0x22]\<rparr>,
     \<lparr>command = ''error'', content = text_unknown @ ''quit''\<rparr>]"
  have r: "replies (net_render sim_net) (net_what sim_net) [(''ping'', ping)] [''ping|'', ''ping|hi'', ''quit|''] ()
      = Some (?ms, ())"
    by code_simp
  have c: "list_all (can_read sim_net) [''ping|'', ''ping|hi'', ''quit|'']"
    by (simp add: can_read_def sim_net_def PTRDIFF_MAX_def)
  show ?thesis
    using handle_client_conversation [OF sim_channel demo_handlers _ c _ _ r, where rest = "[]" and fd = 4
        and w = "(concat (map (frame True) [''ping|'', ''ping|hi'', ''quit|'']), [])"]
    by (simp add: demo_running sim_little_endian serialize_message_def)
qed

section \<open>Messages, lengths and the life of the server\<close>

text \<open>
  A serialised message is read back as it was exactly when its command has no separator in it,
  whatever its content; a text without a separator is the empty message.
\<close>

theorem message_roundtrip:
  "(deserialize_message (serialize_message m) = m) = (CHR ''|'' \<notin> set (command m))
   \<and> (deserialize_message data = \<lparr>command = [], content = []\<rparr>) =
       (data = ''|'' \<or> list_all (\<lambda>c. c \<noteq> CHR ''|'') data)"
proof
  let ?p = "\<lambda>c. c \<noteq> CHR ''|''"
  show "(deserialize_message (serialize_message m) = m) = (CHR ''|'' \<notin> set (command m))"
  proof (cases "CHR ''|'' \<in> set (command m)")
    case False
    then have "takeWhile ?p (command m @ CHR ''|'' # content m) = command m"
      by (auto simp: takeWhile_tail takeWhile_append2)
    with False show ?thesis
      by (cases m) (simp add: deserialize_message_def serialize_message_def)
  next
    case True
    then obtain xs ys where c: "command m = xs @ CHR ''|'' # ys" "CHR ''|'' \<notin> set xs" by (meson split_list_first)
    then have "takeWhile ?p (command m @ CHR ''|'' # content m) = xs" by (auto simp: takeWhile_append2 takeWhile_tail)
    then have "command (deserialize_message (serialize_message m)) = xs"
      using c(1) by (simp add: deserialize_message_def serialize_message_def)
    with c(1) have "command (deserialize_message (serialize_message m)) \<noteq> command m" by simp
    with True show ?thesis by auto
  qed
  show "(deserialize_message data = \<lparr>command = [], content = []\<rparr>) =
      (data = ''|'' \<or> list_all (\<lambda>c. c \<noteq> CHR ''|'') data)"
  proof (cases "CHR ''|'' \<in> set data")
    case False
    then have "takeWhile ?p data = data" "list_all ?p data" by (auto simp: takeWhile_eq_all_conv list_all_iff)
    then show ?thesis by (simp add: deserialize_message_def del: takeWhile_eq_all_conv)
  next
    case True
    then obtain xs ys where d: "data = xs @ CHR ''|'' # ys" "CHR ''|'' \<notin> set xs" by (meson split_list_first)
    then have "takeWhile ?p data = xs" by (auto simp: takeWhile_append2 takeWhile_tail)
    with d show ?thesis by (auto simp: deserialize_message_def)
  qed
qed

text \<open>
  C29: Reading a frame that was sent gives back its data and leaves what follows, for every length
  the allocator can serve; and the length on the wire is big endian whatever the host.
\<close>

theorem frame_roundtrip:
  assumes "channel_contract net fd inp out dbg" and "can_read net data"
    and "inp w = frame (net_little_endian net) data @ rest" and "read_message net fd w = (r, w')"
  shows "r = Inr data \<and> inp w' = rest \<and> out w' = out w
    \<and> take 8 (frame le data) = byte_chars (rev (word_to_le 8 (of_nat (length data) :: u64)))"
proof -
  have "take 8 (frame le data) = byte_chars (host_bytes le 8 (to_big_endian le (of_nat (length data) :: u64)))"
    by (simp add: frame_def)
  moreover have "host_bytes le 8 (to_big_endian le (of_nat (length data) :: u64))
      = rev (word_to_le 8 (of_nat (length data) :: u64))"
    using host_bytes_to_big_endian [where 'a = 64 and n = 8 and le = le and w = "of_nat (length data)"] by simp
  ultimately show ?thesis
    using read_frame [OF assms(1,3,2)] assms(4) by (metis prod.inject)
qed

theorem frame_roundtrip_witness:
  "fst (read_message sim_net 4 (frame True ''ping|'' @ ''x'', [])) = Inr ''ping|''"
proof -
  have "can_read sim_net ''ping|''" by (simp add: can_read_def sim_net_def PTRDIFF_MAX_def)
  from frame_roundtrip [OF sim_channel this, where fd = 4 and w = "(frame True ''ping|'' @ ''x'', [])" and rest = "''x''"
      and r = "fst (read_message sim_net 4 (frame True ''ping|'' @ ''x'', []))"
      and w' = "snd (read_message sim_net 4 (frame True ''ping|'' @ ''x'', []))"]
  show ?thesis by (simp add: sim_little_endian)
qed

text \<open>
  C38: A client ends the server with eight bytes: a length no vector can have throws outside the
  \<open>try\<close> block, and the exception leaves \<open>handle_client\<close>.
\<close>

theorem huge_length_ends_server:
  assumes "channel_contract net fd inp out dbg" and "running srv"
    and "inp w = byte_chars (rev (word_to_le 8 (len :: u64))) @ rest" and "PTRDIFF_MAX < unat len"
  shows "\<exists>w'. handle_client net srv fd w = Some (Inl Length_error, w')"
proof -
  let ?le = "net_little_endian net"
  obtain k head w1 where r1: "net_recv net fd 8 w = ((k, head), w1)" by (metis prod_cases3 prod.collapse)
  have a: "k = 8" "head = byte_chars (rev (word_to_le 8 len))"
    using recv_rule [OF assms(1) r1] by (simp_all add: assms(3))
  have "rev (word_to_le 8 len) = host_bytes ?le 8 (to_big_endian ?le len)"
    using host_bytes_to_big_endian [where 'a = 64 and n = 8 and le = ?le and w = len] by simp
  then have "from_big_endian ?le (host_word ?le (char_bytes head) :: u64) = len"
    using frame_head [of ?le len] by (simp only: a(2))
  with assms(2,4) r1 a(1) show ?thesis
    by (simp add: handle_client.simps [of net srv fd w] serve_request_def read_message_def Let_def)
qed

theorem huge_length_ends_server_witness:
  "\<exists>w'. handle_client sim_net demo_server 4 (byte_chars (replicate 8 0xFF), []) = Some (Inl Length_error, w')"
proof -
  have "rev (word_to_le 8 (0xFFFFFFFFFFFFFFFF :: u64)) = replicate 8 0xFF" by code_simp
  then show ?thesis
    using huge_length_ends_server [OF sim_channel demo_running, where len = "0xFFFFFFFFFFFFFFFF" and rest = "[]"
        and fd = 4 and w = "(byte_chars (replicate 8 0xFF), [])"]
    by (simp add: PTRDIFF_MAX_def)
qed

definition loop_kept :: "'w rpc_server \<Rightarrow> (cxx_error + unit) \<times> 'w rpc_server \<times> 'w \<Rightarrow> bool" where
  "loop_kept srv r \<longleftrightarrow> running (fst (snd r)) = running srv \<and> server_fd (fst (snd r)) = server_fd srv
     \<and> handlers (fst (snd r)) = handlers srv \<and> server_port (fst (snd r)) = server_port srv
     \<and> (fst r = Inr () \<longrightarrow> \<not> connected srv \<longrightarrow> \<not> connected (fst (snd r)))"

lemma server_loop_kept:
  assumes "server_loop net srv w = Some r"
  shows "loop_kept srv r"
  using _ assms
proof (rule server_loop.raw_induct [where P = "\<lambda>_ srv _ r. loop_kept srv r"])
  fix loop net srv w r
  assume IH: "\<And>net srv w r. loop net srv w = Some r \<Longrightarrow> loop_kept srv r"
    and body: "(if \<not> running srv then Some (Inr (), srv, w)
      else
        (let r = net_accept net (server_fd srv) w; client_fd = fst (fst r); err = snd (fst r); w1 = snd r in
         if client_fd < 0 then
           (if err = EINTR then loop net srv w1 else Some (Inr (), srv, w1))
         else
           (let w2 = (if connected srv then snd (safe_close_fd net (current_client_fd srv) w1) else w1);
                srv1 = srv\<lparr>current_client_fd := client_fd, connected := True\<rparr>
            in case handle_client net srv1 client_fd w2 of
                 None \<Rightarrow> None
               | Some (Inl e, w3) \<Rightarrow> Some (Inl e, srv1, w3)
               | Some (Inr _, w3) \<Rightarrow>
                   loop net
                     (srv1\<lparr>current_client_fd := fst (safe_close_fd net client_fd w3), connected := False\<rparr>)
                     (snd (safe_close_fd net client_fd w3))))) = Some r"
  obtain fd err w1 where acc: "net_accept net (server_fd srv) w = ((fd, err), w1)" by (metis prod_cases3 prod.collapse)
  show "loop_kept srv r"
  proof (cases "running srv \<and> 0 \<le> fd")
    case False
    with body acc IH [of net srv w1 r] show ?thesis
      by (auto simp: loop_kept_def Let_def split: if_splits)
  next
    case True
    define srv1 where "srv1 = srv\<lparr>current_client_fd := fd, connected := True\<rparr>"
    define w2 where "w2 = (if connected srv then snd (safe_close_fd net (current_client_fd srv) w1) else w1)"
    from body True acc obtain q w3 where h: "handle_client net srv1 fd w2 = Some (q, w3)"
      by (cases "connected srv"; cases "handle_client net srv1 fd w2") (auto simp: Let_def srv1_def w2_def)
    show ?thesis
    proof (cases q)
      case (Inl e)
      with body True acc h have "r = (Inl e, srv1, w3)"
        by (cases "connected srv") (auto simp: Let_def srv1_def w2_def)
      then show ?thesis by (simp add: loop_kept_def srv1_def)
    next
      case (Inr u)
      let ?srv2 = "srv1\<lparr>current_client_fd := fst (safe_close_fd net fd w3), connected := False\<rparr>"
      have "loop net ?srv2 (snd (safe_close_fd net fd w3)) = Some r"
        using body True acc h Inr by (cases "connected srv") (auto simp: Let_def srv1_def w2_def)
      from IH [OF this] show ?thesis by (auto simp: loop_kept_def srv1_def)
    qed
  qed
qed

text \<open>
  C30: The life of the server: \<open>start\<close> comes back with true only after the loop has ended, yet the
  server then still counts as running, so that another \<open>start\<close> returns true and serves nobody;
  only \<open>stop\<close> brings it back to the state of a server that can be started.
\<close>

theorem start_leaves_running:
  assumes "\<not> running srv" and "\<not> connected srv" and "start net port srv w = Some (Inr True, srv', w')"
  shows "is_running srv' \<and> \<not> is_connected srv' \<and> get_port srv' = int (unat port)
    \<and> start net port' srv' w' = Some (Inr True, srv', w')
    \<and> \<not> is_running (fst (stop net srv' w')) \<and> server_fd (fst (stop net srv' w')) < 0
    \<and> handlers (fst (stop net srv' w')) = handlers srv"
proof -
  obtain srv1 w1 where "server_loop net srv1 w1 = Some (Inr (), srv', w')" "running srv1" "\<not> connected srv1"
    "server_port srv1 = int (unat port)" "handlers srv1 = handlers srv"
    using assms
    by (auto simp: start_def Let_def split: if_splits prod.splits option.splits sum.splits)
  from this(2-5) server_loop_kept [OF this(1)] show ?thesis
    by (auto simp: loop_kept_def is_running_def is_connected_def get_port_def start_def stop_def safe_close_fd_def)
qed

theorem start_leaves_running_witness:
  "\<exists>srv'. start sim_net 5073 RPCServer ([], []) = Some (Inr True, srv', ([], [])) \<and> is_running srv'"
proof -
  let ?srv = "RPCServer :: (string \<times> string) rpc_server"
  have f: "\<not> running ?srv" "\<not> connected ?srv" by (simp_all add: RPCServer_def register_handler_def)
  have "start sim_net 5073 ?srv ([], [])
      = Some (Inr True, ?srv\<lparr>server_fd := 3, server_port := 5073, running := True\<rparr>, ([], []))"
    by (simp add: start_def sim_net_def f server_loop.simps EINTR_def)
  with start_leaves_running [OF f this] show ?thesis by blast
qed

section \<open>What every request keeps\<close>

text \<open>
  The interface between the server and its handlers: an invariant of the world which the socket
  calls and the handlers of the table keep is kept by the loops that serve.
\<close>

locale service =
  fixes net :: "'w net" and table :: "(string, 'w handler) umap" and keeps :: "'w \<Rightarrow> bool"
  assumes sockets: "keeps w \<Longrightarrow> keeps (snd (net_socket net w))"
      "keeps w \<Longrightarrow> keeps (snd (net_reuse_address net fd w))" "keeps w \<Longrightarrow> keeps (snd (net_bind net fd port w))"
      "keeps w \<Longrightarrow> keeps (snd (net_listen net fd w))" "keeps w \<Longrightarrow> keeps (snd (net_accept net fd w))"
      "keeps w \<Longrightarrow> keeps (net_close net fd w)" "keeps w \<Longrightarrow> keeps (snd (net_recv net fd n w))"
      "keeps w \<Longrightarrow> keeps (snd (net_send net fd data w))"
    and handled: "um_find table cmd = Some h \<Longrightarrow> h params w = Some (r, w') \<Longrightarrow> keeps w \<Longrightarrow> keeps w'"
begin

lemma read_message_keeps:
  assumes "read_message net fd w = (r, w')" and "keeps w"
  shows "keeps w'"
proof -
  obtain k head w1 where a: "net_recv net fd 8 w = ((k, head), w1)" by (metis prod_cases3 prod.collapse)
  define n where "n = unat (from_big_endian (net_little_endian net) (host_word (net_little_endian net) (char_bytes head) :: u64))"
  obtain k2 data w2 where b: "net_recv net fd n w1 = ((k2, data), w2)" by (metis prod_cases3 prod.collapse)
  have "w' = w1 \<or> w' = w2"
    using assms(1) a b by (auto simp: read_message_def Let_def n_def split: if_splits)
  then show ?thesis
    using sockets(7) [OF assms(2), of fd 8] sockets(7) [of w1 fd n] a b by auto
qed

lemma respond_keeps: "respond render what table msg w = Some (r, w') \<Longrightarrow> keeps w \<Longrightarrow> keeps w'"
  using handled by (fastforce simp: respond_def Let_def split: option.splits sum.splits if_splits)

lemma serve_request_keeps:
  assumes "serve_request net srv fd w = Some (r, w')" and "handlers srv = table" and "keeps w"
  shows "keeps w'"
proof -
  obtain q w1 where a: "read_message net fd w = (q, w1)" by (metis prod.exhaust)
  have k1: "keeps w1" using read_message_keeps [OF a assms(3)] .
  show ?thesis
  proof (cases "\<exists>data. q = Inr data \<and> data \<noteq> []")
    case False
    with assms(1) a k1 show ?thesis by (cases q) (auto simp: serve_request_def)
  next
    case True
    then obtain data where q: "q = Inr data" "data \<noteq> []" by blast
    with assms(1,2) a obtain m w2 where
      b: "respond (net_render net) (net_what net) table (deserialize_message data) w1 = Some (m, w2)"
      by (cases "respond (net_render net) (net_what net) table (deserialize_message data) w1")
        (auto simp: serve_request_def)
    have k2: "keeps w2" using respond_keeps [OF b k1] .
    have "keeps (snd (send_message net fd d w2))" for d
      using sockets(8) [OF k2, of fd "frame (net_little_endian net) d"]
      by (simp add: send_message_def Let_def case_prod_unfold)
    then have "keeps u" if "send_message net fd d w2 = (x, u)" for d x u
      using that by (metis snd_conv)
    with assms(1,2) a q b k2 show ?thesis
      by (auto simp: serve_request_def split: sum.splits prod.splits)
  qed
qed

lemma handle_client_keeps:
  assumes "handle_client net srv fd w = Some (r, w')" and "handlers srv = table" and "keeps w"
  shows "keeps w'"
proof -
  have "n = net \<longrightarrow> handlers srv = table \<longrightarrow> keeps w \<longrightarrow> keeps (snd fr)"
    if "handle_client n srv fd w = Some fr" for n srv fd w fr
    using _ that
  proof (rule handle_client.raw_induct [where P = "\<lambda>n srv fd w fr. n = net \<longrightarrow> handlers srv = table \<longrightarrow> keeps w \<longrightarrow> keeps (snd fr)"])
    fix loop :: "'w net \<Rightarrow> 'w rpc_server \<Rightarrow> int \<Rightarrow> 'w \<Rightarrow> ((cxx_error + unit) \<times> 'w) option"
      and n :: "'w net" and srv :: "'w rpc_server" and fd w fr
    assume IH: "\<And>n srv fd w fr. loop n srv fd w = Some fr \<Longrightarrow>
          n = net \<longrightarrow> handlers srv = table \<longrightarrow> keeps w \<longrightarrow> keeps (snd fr)"
      and body: "(if \<not> running srv then Some (Inr (), w)
      else
        (case serve_request n srv fd w of
           None \<Rightarrow> None
         | Some (r, w1) \<Rightarrow>
             (case r of
                Inl e \<Rightarrow> Some (Inl e, w1)
              | Inr again \<Rightarrow> if again then loop n srv fd w1 else Some (Inr (), w1)))) = Some fr"
    show "n = net \<longrightarrow> handlers srv = table \<longrightarrow> keeps w \<longrightarrow> keeps (snd fr)"
      using body IH [of n srv fd _ fr] serve_request_keeps [of srv fd w]
      by (auto split: if_splits option.splits sum.splits)
  qed
  from this [OF assms(1)] assms(2,3) show ?thesis by simp
qed

lemma server_loop_keeps:
  assumes "server_loop net srv w = Some (r, srv', w')" and "handlers srv = table" and "keeps w"
  shows "keeps w'"
proof -
  have "n = net \<longrightarrow> handlers srv = table \<longrightarrow> keeps w \<longrightarrow> keeps (snd (snd fr))"
    if "server_loop n srv w = Some fr" for n srv w fr
    using _ that
  proof (rule server_loop.raw_induct [where P = "\<lambda>n srv w fr. n = net \<longrightarrow> handlers srv = table \<longrightarrow> keeps w \<longrightarrow> keeps (snd (snd fr))"])
    fix loop :: "'w net \<Rightarrow> 'w rpc_server \<Rightarrow> 'w \<Rightarrow> ((cxx_error + unit) \<times> 'w rpc_server \<times> 'w) option"
      and n :: "'w net" and srv :: "'w rpc_server" and w fr
    assume IH: "\<And>n srv w fr. loop n srv w = Some fr \<Longrightarrow>
          n = net \<longrightarrow> handlers srv = table \<longrightarrow> keeps w \<longrightarrow> keeps (snd (snd fr))"
      and body: "(if \<not> running srv then Some (Inr (), srv, w)
      else
        (let r = net_accept n (server_fd srv) w; client_fd = fst (fst r); err = snd (fst r); w1 = snd r in
         if client_fd < 0 then
           (if err = EINTR then loop n srv w1 else Some (Inr (), srv, w1))
         else
           (let w2 = (if connected srv then snd (safe_close_fd n (current_client_fd srv) w1) else w1);
                srv1 = srv\<lparr>current_client_fd := client_fd, connected := True\<rparr>
            in case handle_client n srv1 client_fd w2 of
                 None \<Rightarrow> None
               | Some (Inl e, w3) \<Rightarrow> Some (Inl e, srv1, w3)
               | Some (Inr _, w3) \<Rightarrow>
                   loop n
                     (srv1\<lparr>current_client_fd := fst (safe_close_fd n client_fd w3), connected := False\<rparr>)
                     (snd (safe_close_fd n client_fd w3))))) = Some fr"
    show "n = net \<longrightarrow> handlers srv = table \<longrightarrow> keeps w \<longrightarrow> keeps (snd (snd fr))"
    proof (intro impI)
      assume n: "n = net" and t: "handlers srv = table" and k: "keeps w"
      obtain fd err w1 where acc: "net_accept net (server_fd srv) w = ((fd, err), w1)" by (metis prod_cases3 prod.collapse)
      have k1: "keeps w1" using sockets(5) [OF k, of "server_fd srv"] acc by simp
      have closed: "keeps (snd (safe_close_fd net g u))" if "keeps u" for g u
        using that sockets(6) by (simp add: safe_close_fd_def)
      show "keeps (snd (snd fr))"
      proof (cases "running srv \<and> 0 \<le> fd")
        case False
        with body acc IH [of net srv w1 fr] n t k k1 show ?thesis
          by (auto simp: Let_def split: if_splits)
      next
        case True
        define srv1 where "srv1 = srv\<lparr>current_client_fd := fd, connected := True\<rparr>"
        define w2 where "w2 = (if connected srv then snd (safe_close_fd net (current_client_fd srv) w1) else w1)"
        have k2: "keeps w2" using k1 closed by (simp add: w2_def)
        from body True acc n obtain q w3 where h: "handle_client net srv1 fd w2 = Some (q, w3)"
          by (cases "connected srv"; cases "handle_client net srv1 fd w2") (auto simp: Let_def srv1_def w2_def)
        have k3: "keeps w3" using handle_client_keeps [OF h _ k2] t by (simp add: srv1_def)
        show ?thesis
        proof (cases q)
          case (Inl e)
          with body True acc h n have "fr = (Inl e, srv1, w3)"
            by (cases "connected srv") (auto simp: Let_def srv1_def w2_def)
          with k3 show ?thesis by simp
        next
          case (Inr u)
          let ?srv2 = "srv1\<lparr>current_client_fd := fst (safe_close_fd net fd w3), connected := False\<rparr>"
          have "loop net ?srv2 (snd (safe_close_fd net fd w3)) = Some fr"
            using body True acc h Inr n by (cases "connected srv") (auto simp: Let_def srv1_def w2_def)
          from IH [OF this] t closed [OF k3] show ?thesis by (simp add: srv1_def)
        qed
      qed
    qed
  qed
  from this [OF assms(1)] assms(2,3) show ?thesis by simp
qed

lemma start_keeps:
  assumes "start net port srv w = Some (r, srv', w')" and "handlers srv = table" and "keeps w"
  shows "keeps w'"
proof -
  obtain fd w1 where a: "net_socket net w = (fd, w1)" by (metis prod.exhaust)
  obtain r1 w2 where b: "net_reuse_address net fd w1 = (r1, w2)" by (metis prod.exhaust)
  obtain r2 w3 where c: "net_bind net fd port w2 = (r2, w3)" by (metis prod.exhaust)
  obtain r3 w4 where d: "net_listen net fd w3 = (r3, w4)" by (metis prod.exhaust)
  have k: "keeps w1" "keeps w2" "keeps w3" "keeps w4"
    using sockets(1) [of w] sockets(2) [of w1 fd] sockets(3) [of w2 fd port] sockets(4) [of w3 fd] a b c d assms(3)
    by simp_all
  have closed: "keeps (snd (safe_close_fd net g u))" if "keeps u" for g u
    using that sockets(6) by (simp add: safe_close_fd_def)
  define srv1 where "srv1 = srv\<lparr>server_fd := fd, server_port := int (unat port), running := True\<rparr>"
  have "w' \<in> {w, w1} \<or> w' \<in> (\<lambda>u. snd (safe_close_fd net fd u)) ` {w2, w3, w4}
      \<or> (\<exists>q. server_loop net srv1 w4 = Some (q, srv', w'))"
    using assms(1) a b c d
    by (cases "server_loop net srv1 w4")
      (auto simp: start_def Let_def srv1_def split: if_splits prod.splits sum.splits)
  moreover have "keeps w'" if "server_loop net srv1 w4 = Some (q, srv', w')" for q
    using server_loop_keeps [OF that _ k(4)] assms(2) by (simp add: srv1_def)
  ultimately show ?thesis
    using assms(3) k closed [OF k(2)] closed [OF k(3)] closed [OF k(4)] by auto
qed

lemma destroy_keeps: "destroy_server net srv w = (srv', w') \<Longrightarrow> keeps w \<Longrightarrow> keeps w'"
  using sockets(6) by (auto simp: destroy_server_def stop_def safe_close_fd_def Let_def split: if_splits)

end

end
