(* ===== verification/Command_Handlers.thy ===== *)
theory Command_Handlers
  imports Debugger_Registers Debugger_Launch Rpc_Server
begin

unbundle bit_operations_syntax

text \<open>
  \<open>acp_init\<close> and \<open>main\<close> of \<open>src/main.cpp\<close>: the commands of the protocol.  A handler is a closure over
  the one debugger, so that the world it works on is a pair of the debugger and the system's world.
  The JSON library's parser, the allocator and the signedness of \<open>char\<close> are in the record \<open>platform\<close>.
\<close>

section \<open>What the handlers use\<close>

record 'w platform =
  pl_os :: "'w os"
  pl_parse :: "string \<Rightarrow> cxx_error + json"
  pl_alloc :: "nat \<Rightarrow> bool"
  pl_char_signed :: bool

type_synonym 'w session_world = "debugger \<times> 'w"

text \<open>\<open>nlohmann::json::parse\<close> throws; the rest of a handler works on the document.\<close>

definition with_json ::
  "'w platform \<Rightarrow> string \<Rightarrow> 'w session_world \<Rightarrow>
     (json \<Rightarrow> ((cxx_error + status) \<times> 'w session_world) option) \<Rightarrow> ((cxx_error + status) \<times> 'w session_world) option" where
  "with_json pl params w f = (case pl_parse pl params of Inl e \<Rightarrow> Some (Inl e, w) | Inr j \<Rightarrow> f j)"

definition number_member :: "json \<Rightarrow> string \<Rightarrow> json option" where
  "number_member j k = (case json_member j k of Some v \<Rightarrow> if is_number v then Some v else None | None \<Rightarrow> None)"

definition json_u64 :: "u64 \<Rightarrow> json" where
  "json_u64 v = JInt (uint v)"

text \<open>The value of repeated \<open>push_back\<close> on a document that was null.\<close>

definition json_pushed :: "json list \<Rightarrow> json" where
  "json_pushed vs = (if vs = [] then JNull else JArray vs)"

definition answer :: "json \<Rightarrow> cxx_error + status" where
  "answer j = Inr (status_success (Dumped j))"

section \<open>Execution\<close>

definition handle_attach :: "'w platform \<Rightarrow> 'w session_world handler" where
  "handle_attach pl params = (\<lambda>(d, w). with_json pl params (d, w) (\<lambda>j.
     case json_member j ''target'' of
       Some (JString target) \<Rightarrow> (case attach_package (pl_os pl) target d w of (r, d1, w1) \<Rightarrow> Some (r, (d1, w1)))
     | _ \<Rightarrow> Some (Inr (status_fail (Note ''attach needs a target, a string'')), (d, w))))"

definition handle_launch :: "'w platform \<Rightarrow> 'w session_world handler" where
  "handle_launch pl params = (\<lambda>(d, w). with_json pl params (d, w) (\<lambda>j.
     case json_member j ''target'' of
       Some (JString program) \<Rightarrow>
         (case launch (pl_os pl) program d w of None \<Rightarrow> None | Some (r, d1, w1) \<Rightarrow> Some (r, (d1, w1)))
     | _ \<Rightarrow> Some (Inr (status_fail (Note ''launch needs a target, a string'')), (d, w))))"

definition handle_detach :: "'w platform \<Rightarrow> 'w session_world handler" where
  "handle_detach pl params = (\<lambda>(d, w). case detach (pl_os pl) d w of (s, w1) \<Rightarrow> Some (Inr s, (d, w1)))"

definition handle_kill :: "'w platform \<Rightarrow> 'w session_world handler" where
  "handle_kill pl params = (\<lambda>(d, w). case kill (pl_os pl) d w of (s, d1, w1) \<Rightarrow> Some (Inr s, (d1, w1)))"

definition handle_resume :: "'w platform \<Rightarrow> 'w session_world handler" where
  "handle_resume pl params = (\<lambda>(d, w). case resume (pl_os pl) d w of (s, w1) \<Rightarrow> Some (Inr s, (d, w1)))"

definition handle_pause :: "'w platform \<Rightarrow> 'w session_world handler" where
  "handle_pause pl params = (\<lambda>(d, w). case pause (pl_os pl) d w of (s, w1) \<Rightarrow> Some (Inr s, (d, w1)))"

definition handle_step_into :: "'w platform \<Rightarrow> 'w session_world handler" where
  "handle_step_into pl params = (\<lambda>(d, w). case step_into (pl_os pl) d w of (r, d1, w1) \<Rightarrow> Some (r, (d1, w1)))"

definition handle_step_over :: "'w platform \<Rightarrow> 'w session_world handler" where
  "handle_step_over pl params = (\<lambda>(d, w). case step_over (pl_os pl) d w of (r, d1, w1) \<Rightarrow> Some (r, (d1, w1)))"

section \<open>Memory\<close>

text \<open>A byte in a vector of \<open>char\<close> as a JSON number.\<close>

definition char_json :: "bool \<Rightarrow> u8 \<Rightarrow> json" where
  "char_json is_signed b = JInt (if is_signed then sint b else uint b)"

text \<open>\<open>std::vector<char> buffer(size)\<close> is filled with zeros.\<close>

definition handle_read_memory :: "'w platform \<Rightarrow> 'w session_world handler" where
  "handle_read_memory pl params = (\<lambda>(d, w). with_json pl params (d, w) (\<lambda>j.
     case (number_member j ''address'', number_member j ''size'') of
       (Some ja, Some js) \<Rightarrow>
         (case get_u64 ja of Inl e \<Rightarrow> Some (Inl e, (d, w)) | Inr address \<Rightarrow>
         (case get_u64 js of Inl e \<Rightarrow> Some (Inl e, (d, w)) | Inr buf_size \<Rightarrow>
            if PTRDIFF_MAX < unat buf_size then Some (Inl Length_error, (d, w))
            else if \<not> pl_alloc pl (unat buf_size) then Some (Inl Bad_alloc, (d, w))
            else
              (case core_read_memory (pl_os pl) address (replicate (unat buf_size) 0) d w of
                 (s, buffer, w1) \<Rightarrow>
                   if is_fail s then Some (Inr s, (d, w1))
                   else Some (answer (json_object
                     [(''address'', json_u64 address), (''size'', json_u64 buf_size),
                      (''data'', JArray (map (char_json (pl_char_signed pl)) buffer))]), (d, w1)))))
     | _ \<Rightarrow> Some (Inr (status_fail (Note ''read_memory needs address and size, numbers'')), (d, w))))"

definition handle_write_memory :: "'w platform \<Rightarrow> 'w session_world handler" where
  "handle_write_memory pl params = (\<lambda>(d, w). with_json pl params (d, w) (\<lambda>j.
     case (number_member j ''address'', json_member j ''data'') of
       (Some ja, Some (JArray xs)) \<Rightarrow>
         (case get_u64 ja of Inl e \<Rightarrow> Some (Inl e, (d, w)) | Inr address \<Rightarrow>
         (case get_bytes xs of Inl e \<Rightarrow> Some (Inl e, (d, w)) | Inr buffer \<Rightarrow>
            (case core_write_memory (pl_os pl) address buffer d w of (s, w1) \<Rightarrow> Some (Inr s, (d, w1)))))
     | _ \<Rightarrow> Some (Inr (status_fail (Note ''write_memory needs address and data'')), (d, w))))"

definition region_json :: "memory_region \<Rightarrow> json" where
  "region_json r = json_object
     [(''start_address'', json_u64 (start_address r)), (''size'', json_u64 (region_size r)),
      (''offset'', json_u64 (region_offset r)), (''device'', JString (device r)), (''inode'', json_u64 (inode r)),
      (''permissions'', JString (permissions r)), (''pathname'', JString (pathname r))]"

definition handle_get_memory_regions :: "'w platform \<Rightarrow> 'w session_world handler" where
  "handle_get_memory_regions pl params = (\<lambda>(d, w).
     case core_get_memory_regions (pl_os pl) [] d w of
       (Inl e, w1) \<Rightarrow> Some (Inl e, (d, w1))
     | (Inr (s, regions), w1) \<Rightarrow>
         if is_fail s then Some (Inr s, (d, w1))
         else Some (answer (json_pushed (map region_json regions)), (d, w1)))"

section \<open>Registers\<close>

definition handle_read_registers :: "'w platform \<Rightarrow> 'w session_world handler" where
  "handle_read_registers pl params = (\<lambda>(d, w). with_json pl params (d, w) (\<lambda>j.
     case read_registers (pl_os pl) j JNull d w of
       (Inl e, _, w1) \<Rightarrow> Some (Inl e, (d, w1))
     | (Inr s, result, w1) \<Rightarrow> if is_fail s then Some (Inr s, (d, w1)) else Some (answer result, (d, w1))))"

definition handle_write_registers :: "'w platform \<Rightarrow> 'w session_world handler" where
  "handle_write_registers pl params = (\<lambda>(d, w). with_json pl params (d, w) (\<lambda>j.
     case write_registers (pl_os pl) j d w of (r, w1) \<Rightarrow> Some (r, (d, w1))))"

section \<open>Breakpoints\<close>

definition handle_set_breakpoint :: "'w platform \<Rightarrow> 'w session_world handler" where
  "handle_set_breakpoint pl params = (\<lambda>(d, w). with_json pl params (d, w) (\<lambda>j.
     case (number_member j ''type'', number_member j ''address'') of
       (Some jt, Some ja) \<Rightarrow>
         (case get_int jt of Inl e \<Rightarrow> Some (Inl e, (d, w)) | Inr type \<Rightarrow>
         (case get_u64 ja of Inl e \<Rightarrow> Some (Inl e, (d, w)) | Inr address \<Rightarrow>
            (case set_breakpoint (pl_os pl) type address d w of
               (r, d1, w1) \<Rightarrow> Some (map_sum id fst r, (d1, w1)))))
     | _ \<Rightarrow> Some (Inr (status_fail (Note ''set_breakpoint needs type and address, numbers'')), (d, w))))"

text \<open>The three commands that name a breakpoint by its identifier.\<close>

definition with_breakpoint_id ::
  "'w platform \<Rightarrow> (int \<Rightarrow> debugger \<Rightarrow> 'w \<Rightarrow> status \<times> debugger \<times> 'w) \<Rightarrow> 'w session_world handler" where
  "with_breakpoint_id pl operation params = (\<lambda>(d, w). with_json pl params (d, w) (\<lambda>j.
     case number_member j ''breakpoint_id'' of
       None \<Rightarrow> Some (Inr (status_fail (Note ''breakpoint_id is needed, a number'')), (d, w))
     | Some ji \<Rightarrow>
         (case get_int ji of
            Inl e \<Rightarrow> Some (Inl e, (d, w))
          | Inr breakpoint_id \<Rightarrow> (case operation breakpoint_id d w of (s, d1, w1) \<Rightarrow> Some (Inr s, (d1, w1))))))"

definition handle_remove_breakpoint :: "'w platform \<Rightarrow> 'w session_world handler" where
  "handle_remove_breakpoint pl = with_breakpoint_id pl (core_remove_breakpoint (pl_os pl))"

definition handle_enable_breakpoint :: "'w platform \<Rightarrow> 'w session_world handler" where
  "handle_enable_breakpoint pl = with_breakpoint_id pl (enable_breakpoint (pl_os pl))"

definition handle_disable_breakpoint :: "'w platform \<Rightarrow> 'w session_world handler" where
  "handle_disable_breakpoint pl = with_breakpoint_id pl (disable_breakpoint (pl_os pl))"

fun type_code :: "breakpoint_type \<Rightarrow> int" where
  "type_code SOFTWARE = 1"
| "type_code HARDWARE_EXECUTION = 2"
| "type_code HARDWARE_WRITE = 3"
| "type_code HARDWARE_READWRITE = 4"

definition breakpoint_json :: "breakpoint \<Rightarrow> json" where
  "breakpoint_json bp = json_object
     [(''id'', JInt (bp_id bp)), (''tid'', JInt (bp_tid bp)), (''address'', json_u64 (bp_address bp)),
      (''type'', JInt (type_code (bp_type bp))), (''enabled'', JBool (bp_enabled bp))]"

definition handle_get_breakpoints :: "'w platform \<Rightarrow> 'w session_world handler" where
  "handle_get_breakpoints pl params = (\<lambda>(d, w). with_json pl params (d, w) (\<lambda>j.
     let list = (\<lambda>(s, breakpoints).
           if is_fail s then Some (Inr s, (d, w))
           else Some (answer (json_pushed (map breakpoint_json breakpoints)), (d, w)))
     in case json_member j ''tid'' of
          None \<Rightarrow> list (core_get_breakpoints d)
        | Some jt \<Rightarrow>
            if jt = JNull then list (core_get_breakpoints d)
            else (case get_int jt of
                    Inl e \<Rightarrow> Some (Inl e, (d, w))
                  | Inr tid \<Rightarrow> list (core_get_breakpoints_of tid d))))"

definition present :: "json \<Rightarrow> string \<Rightarrow> json option" where
  "present j k = (case json_member j k of Some v \<Rightarrow> if v = JNull then None else Some v | None \<Rightarrow> None)"

text \<open>The breakpoint is answered where the status is a success.\<close>

definition answer_breakpoint :: "status \<times> breakpoint option \<Rightarrow> cxx_error + status" where
  "answer_breakpoint r =
     (case r of (s, bp) \<Rightarrow>
        if is_fail s then Inr s
        else (case bp of None \<Rightarrow> Inr s | Some b \<Rightarrow> answer (breakpoint_json b)))"

definition handle_get_breakpoint :: "'w platform \<Rightarrow> 'w session_world handler" where
  "handle_get_breakpoint pl params = (\<lambda>(d, w). with_json pl params (d, w) (\<lambda>j.
     case present j ''address'' of
       Some ja \<Rightarrow>
         if \<not> is_number ja then Some (Inr (status_fail (Note ''address must be a number'')), (d, w))
         else (case get_u64 ja of
                 Inl e \<Rightarrow> Some (Inl e, (d, w))
               | Inr address \<Rightarrow>
                   (case core_get_breakpoint_at address d of
                      Inl e \<Rightarrow> Some (Inl e, (d, w))
                    | Inr r \<Rightarrow> Some (answer_breakpoint r, (d, w))))
     | None \<Rightarrow>
         (case present j ''breakpoint_id'' of
            Some ji \<Rightarrow>
              if \<not> is_number ji then Some (Inr (status_fail (Note ''breakpoint_id must be a number'')), (d, w))
              else (case get_int ji of
                      Inl e \<Rightarrow> Some (Inl e, (d, w))
                    | Inr breakpoint_id \<Rightarrow> Some (answer_breakpoint (core_get_breakpoint breakpoint_id d), (d, w)))
          | None \<Rightarrow> Some (Inr (status_fail (Note ''wrong parameters'')), (d, w)))))"

section \<open>Threads and state\<close>

definition handle_get_threads :: "'w platform \<Rightarrow> 'w session_world handler" where
  "handle_get_threads pl params = (\<lambda>(d, w).
     case get_threads d of (s, threads) \<Rightarrow>
       if is_fail s then Some (Inr s, (d, w)) else Some (answer (json_pushed (map JInt threads)), (d, w)))"

definition handle_switch_thread :: "'w platform \<Rightarrow> 'w session_world handler" where
  "handle_switch_thread pl params = (\<lambda>(d, w). with_json pl params (d, w) (\<lambda>j.
     case number_member j ''tid'' of
       None \<Rightarrow> Some (Inr (status_fail (Note ''switch_thread needs tid, a number'')), (d, w))
     | Some jt \<Rightarrow>
         (case get_int jt of
            Inl e \<Rightarrow> Some (Inl e, (d, w))
          | Inr tid \<Rightarrow> (case switch_thread tid d of (s, d1) \<Rightarrow> Some (Inr s, (d1, w))))))"

definition handle_get_pid :: "'w platform \<Rightarrow> 'w session_world handler" where
  "handle_get_pid pl params = (\<lambda>(d, w).
     case get_pid d of (s, pid) \<Rightarrow>
       if is_fail s then Some (Inr s, (d, w)) else Some (answer (JObject [(''pid'', JInt pid)]), (d, w)))"

definition handle_get_current_tid :: "'w platform \<Rightarrow> 'w session_world handler" where
  "handle_get_current_tid pl params = (\<lambda>(d, w).
     case get_current_tid d of (s, tid) \<Rightarrow>
       if is_fail s then Some (Inr s, (d, w)) else Some (answer (JObject [(''tid'', JInt tid)]), (d, w)))"

section \<open>The server\<close>

definition commands :: "'w platform \<Rightarrow> (string \<times> 'w session_world handler) list" where
  "commands pl =
     [(''attach'', handle_attach pl), (''launch'', handle_launch pl), (''detach'', handle_detach pl),
      (''kill'', handle_kill pl), (''resume'', handle_resume pl), (''pause'', handle_pause pl),
      (''step_into'', handle_step_into pl), (''step_over'', handle_step_over pl),
      (''read_memory'', handle_read_memory pl), (''write_memory'', handle_write_memory pl),
      (''get_memory_regions'', handle_get_memory_regions pl),
      (''read_registers'', handle_read_registers pl), (''write_registers'', handle_write_registers pl),
      (''set_breakpoint'', handle_set_breakpoint pl), (''remove_breakpoint'', handle_remove_breakpoint pl),
      (''enable_breakpoint'', handle_enable_breakpoint pl), (''disable_breakpoint'', handle_disable_breakpoint pl),
      (''get_breakpoints'', handle_get_breakpoints pl), (''get_breakpoint'', handle_get_breakpoint pl),
      (''get_threads'', handle_get_threads pl), (''switch_thread'', handle_switch_thread pl),
      (''get_pid'', handle_get_pid pl), (''get_current_tid'', handle_get_current_tid pl)]"

definition acp_init :: "'w platform \<Rightarrow> 'w session_world rpc_server \<Rightarrow> 'w session_world rpc_server" where
  "acp_init pl server = fold (\<lambda>(cmd, handler). register_handler cmd handler) (commands pl) server"

text \<open>The sockets of the process: no call on them reaches the debugger's members.\<close>

definition beside :: "('w \<Rightarrow> 'a \<times> 'w) \<Rightarrow> 'w session_world \<Rightarrow> 'a \<times> 'w session_world" where
  "beside call = (\<lambda>(d, w). case call w of (r, w1) \<Rightarrow> (r, (d, w1)))"

definition session_net :: "'w net \<Rightarrow> 'w session_world net" where
  "session_net net =
     \<lparr>net_socket = beside (net_socket net), net_reuse_address = (\<lambda>fd. beside (net_reuse_address net fd)),
      net_bind = (\<lambda>fd port. beside (net_bind net fd port)), net_listen = (\<lambda>fd. beside (net_listen net fd)),
      net_accept = (\<lambda>fd. beside (net_accept net fd)), net_close = (\<lambda>fd (d, w). (d, net_close net fd w)),
      net_recv = (\<lambda>fd n. beside (net_recv net fd n)), net_send = (\<lambda>fd data. beside (net_send net fd data)),
      net_little_endian = net_little_endian net, net_alloc = net_alloc net, net_render = net_render net,
      net_what = net_what net\<rparr>"

text \<open>
  \<open>main\<close>: an exception that nobody catches ends the process; otherwise the server is destroyed and the
  result is 0, whether the server has started or not.
\<close>

definition main_program ::
  "'w net \<Rightarrow> 'w platform \<Rightarrow> 'w \<Rightarrow>
     ((cxx_error + int) \<times> 'w session_world rpc_server \<times> 'w session_world) option" where
  "main_program net pl w =
     (case start (session_net net) 5073 (acp_init pl RPCServer) (DebuggerCore, w) of
        None \<Rightarrow> None
      | Some (Inl e, srv, s) \<Rightarrow> Some (Inl e, srv, s)
      | Some (Inr started, srv, s) \<Rightarrow>
          (case destroy_server (session_net net) srv s of (srv1, s1) \<Rightarrow> Some (Inr 0, srv1, s1)))"

section \<open>The table of commands\<close>

text \<open>What the server's table has for a command.\<close>

definition command_handler :: "'w platform \<Rightarrow> string \<Rightarrow> 'w session_world handler option" where
  "command_handler pl cmd = um_find (handlers (acp_init pl RPCServer)) cmd"

lemma handlers_register [simp]:
  "handlers (register_handler cmd h srv) = um_assign cmd h (handlers srv)"
  by (simp add: register_handler_def)

lemma find_registered:
  "um_find (handlers (fold (\<lambda>(cmd, handler). register_handler cmd handler) hs srv)) c =
     (case map_of (rev hs) c of Some h \<Rightarrow> Some h | None \<Rightarrow> um_find (handlers srv) c)"
  by (induction hs arbitrary: srv) (auto simp: map_add_def split: option.splits)

lemma command_names_distinct: "distinct (''ping'' # map fst (commands pl))"
  by (simp add: commands_def)

lemma find_ping: "um_find (handlers RPCServer) c = (if c = ''ping'' then Some ping else None)"
  by (simp add: RPCServer_def um_find_def um_empty_def um_assign_def)

lemma command_handler_cases:
  "command_handler pl cmd =
     (case map_of (commands pl) cmd of Some h \<Rightarrow> Some h | None \<Rightarrow> if cmd = ''ping'' then Some ping else None)"
proof -
  have "map_of (rev (commands pl)) = map_of (commands pl)"
    using command_names_distinct [of pl] by (subst map_of_inject_set) (auto simp flip: rev_map)
  then show ?thesis
    by (simp add: command_handler_def acp_init_def find_registered find_ping split: option.split)
qed

section \<open>Sessions\<close>

text \<open>
  Every state a session comes to between two calls: the sockets and the traced process go on by
  themselves, and the server runs handlers of its table in any order on any parameters.
\<close>

inductive session_reachable :: "'w platform \<Rightarrow> 'w session_world \<Rightarrow> bool" for pl where
  Served_start: "session_reachable pl (DebuggerCore, w)"
| Served_world: "session_reachable pl (d, w) \<Longrightarrow> session_reachable pl (d, w')"
| Served_handler: "session_reachable pl s \<Longrightarrow> command_handler pl cmd = Some h \<Longrightarrow> h params s = Some (r, s') \<Longrightarrow>
    session_reachable pl s'"

lemma beside_reachable: "session_reachable pl s \<Longrightarrow> session_reachable pl (snd (beside call s))"
  by (cases s) (auto simp: beside_def intro: Served_world split: prod.split)

interpretation served: service "session_net net" "handlers (acp_init pl RPCServer)" "session_reachable pl" for net pl
proof unfold_locales
  fix cmd h params r w w'
  assume "um_find (handlers (acp_init pl RPCServer)) cmd = Some h" "h params w = Some (r, w')" "session_reachable pl w"
  then show "session_reachable pl w'" by (metis Served_handler command_handler_def)
qed (auto simp: session_net_def intro: beside_reachable Served_world)

lemma main_program_session:
  "main_program net pl w = Some (r, srv, s) \<Longrightarrow> session_reachable pl s"
  by (auto simp: main_program_def Served_start split: option.splits sum.splits prod.splits
      dest!: served.start_keeps intro: served.destroy_keeps)

section \<open>Every command is a run of the debugger's operations\<close>

lemma reachable_world: "core_reachable os d w \<Longrightarrow> core_reachable os d u"
  by (metis Core_next Core_world)

lemma reachable_step: "core_step os d u d' u' \<Longrightarrow> core_reachable os d w \<Longrightarrow> core_reachable os d' w'"
  by (metis Core_next reachable_world)

lemma reachable_launch: "launch os p d u = Some (r, d', u') \<Longrightarrow> core_reachable os d w \<Longrightarrow> core_reachable os d' w'"
  by (metis launch_reachable reachable_world)

lemmas reachable_steps = Core_attach_package [THEN reachable_step] Core_kill [THEN reachable_step]
  Core_step_into [THEN reachable_step] Core_step_over [THEN reachable_step] Core_set_breakpoint [THEN reachable_step]
  Core_remove_breakpoint [THEN reachable_step] Core_enable_breakpoint [THEN reachable_step]
  Core_disable_breakpoint [THEN reachable_step] Core_switch_thread [THEN reachable_step] reachable_launch

definition handler_reaches :: "'w platform \<Rightarrow> 'w session_world handler \<Rightarrow> bool" where
  "handler_reaches pl h \<longleftrightarrow> (\<forall>params d w r d' w' u u'. h params (d, w) = Some (r, (d', w')) \<longrightarrow>
     core_reachable (pl_os pl) d u \<longrightarrow> core_reachable (pl_os pl) d' u')"

lemma with_json_cases:
  assumes "with_json pl params s f = Some (r, s')"
  obtains (thrown) e where "pl_parse pl params = Inl e" "r = Inl e" "s' = s"
  | (parsed) j where "pl_parse pl params = Inr j" "f j = Some (r, s')"
  using assms by (auto simp: with_json_def split: sum.splits)

lemmas handler_parts = handler_reaches_def with_json_def number_member_def present_def answer_breakpoint_def Let_def

lemma execution_reaches:
  "handler_reaches pl (handle_attach pl)" "handler_reaches pl (handle_launch pl)"
  "handler_reaches pl (handle_detach pl)" "handler_reaches pl (handle_kill pl)"
  "handler_reaches pl (handle_resume pl)" "handler_reaches pl (handle_pause pl)"
  "handler_reaches pl (handle_step_into pl)" "handler_reaches pl (handle_step_over pl)"
  by (auto simp: handler_parts handle_attach_def handle_launch_def handle_detach_def handle_kill_def
      handle_resume_def handle_pause_def handle_step_into_def handle_step_over_def
      split: sum.splits option.splits json.splits prod.splits intro: reachable_world reachable_steps)

lemma memory_reaches:
  "handler_reaches pl (handle_read_memory pl)" "handler_reaches pl (handle_write_memory pl)"
  "handler_reaches pl (handle_get_memory_regions pl)" "handler_reaches pl (handle_read_registers pl)"
  "handler_reaches pl (handle_write_registers pl)"
  by (auto simp: handler_parts handle_read_memory_def handle_write_memory_def handle_get_memory_regions_def
      handle_read_registers_def handle_write_registers_def
      split: sum.splits option.splits json.splits prod.splits if_splits intro: reachable_world)

lemma breakpoint_reaches:
  "handler_reaches pl (handle_set_breakpoint pl)" "handler_reaches pl (handle_remove_breakpoint pl)"
  "handler_reaches pl (handle_enable_breakpoint pl)" "handler_reaches pl (handle_disable_breakpoint pl)"
  by (auto simp: handler_parts handle_set_breakpoint_def handle_remove_breakpoint_def handle_enable_breakpoint_def
      handle_disable_breakpoint_def with_breakpoint_id_def
      split: sum.splits option.splits prod.splits if_splits intro: reachable_world reachable_steps)

lemma query_reaches:
  "handler_reaches pl (handle_get_breakpoints pl)" "handler_reaches pl (handle_get_breakpoint pl)"
  "handler_reaches pl (handle_get_threads pl)" "handler_reaches pl (handle_switch_thread pl)"
  "handler_reaches pl (handle_get_pid pl)" "handler_reaches pl (handle_get_current_tid pl)"
  "handler_reaches pl ping"
  by (auto simp: handler_parts handle_get_breakpoints_def handle_get_breakpoint_def handle_get_threads_def
      handle_switch_thread_def handle_get_pid_def handle_get_current_tid_def ping_def
      split: sum.splits option.splits prod.splits if_splits intro: reachable_world reachable_steps)

lemma commands_reach: "command_handler pl cmd = Some h \<Longrightarrow> handler_reaches pl h"
proof -
  have "list_all (handler_reaches pl) (map snd (commands pl))"
    by (simp add: commands_def execution_reaches memory_reaches breakpoint_reaches query_reaches)
  then show "command_handler pl cmd = Some h \<Longrightarrow> handler_reaches pl h"
    using query_reaches(7) [of pl]
    by (auto simp: command_handler_cases list_all_iff split: option.splits if_splits dest!: map_of_SomeD)
qed

lemma session_core: "session_reachable pl s \<Longrightarrow> core_reachable (pl_os pl) (fst s) (snd s)"
proof (induction rule: session_reachable.induct)
  case (Served_start w)
  show ?case by (simp add: Core_start)
next
  case (Served_world d w w')
  then show ?case by (auto intro: reachable_world)
next
  case (Served_handler s cmd h params r s')
  then show ?case
    using commands_reach [OF Served_handler(2)] unfolding handler_reaches_def by (cases s; cases s') fastforce
qed

end
