(* ===== verification/Command_Answers.thy ===== *)
theory Command_Answers
  imports Command_Handlers
begin

text \<open>
  What the answers to the commands show a client: which requests the server always answers, that the
  answers about threads and breakpoints agree with each other, and what a failed read is answered.
\<close>

section \<open>Requests that cannot end the server\<close>

text \<open>A request none of whose numbers is a floating point number.\<close>

definition no_float :: "json \<Rightarrow> bool" where
  "no_float v = (case v of JFloat _ \<Rightarrow> False | _ \<Rightarrow> True)"

definition integral_request :: "json \<Rightarrow> bool" where
  "integral_request j =
     (case j of
        JObject ms \<Rightarrow> list_all (\<lambda>(k, v). no_float v \<and> (case v of JArray xs \<Rightarrow> list_all no_float xs | _ \<Rightarrow> True)) ms
      | _ \<Rightarrow> True)"

abbreviation defined :: "cxx_error + 'a \<Rightarrow> bool" where
  "defined r \<equiv> r \<noteq> Inl Undefined_behaviour"

lemma get_defined: "no_float v \<Longrightarrow> defined (get_u64 v)" "no_float v \<Longrightarrow> defined (get_int v)" "no_float v \<Longrightarrow> defined (get_u8 v)"
  by (cases v; simp add: no_float_def)+

lemma get_bytes_defined: "list_all no_float xs \<Longrightarrow> defined (get_bytes xs)"
  by (induction xs) (auto simp: map_sum_def dest: get_defined(3) split: sum.splits)

lemma member_integral:
  assumes "integral_request j" and "json_member j k = Some v"
  shows "no_float v" and "v = JArray xs \<Longrightarrow> list_all no_float xs"
proof -
  obtain ms where ms: "j = JObject ms" "(k, v) \<in> set ms"
    using assms(2) by (cases j) (auto dest: map_of_SomeD)
  with assms(1) show "no_float v" "v = JArray xs \<Longrightarrow> list_all no_float xs"
    by (auto simp: integral_request_def list_all_iff)
qed

lemma number_member_defined:
  assumes "integral_request j" and "number_member j k = Some v"
  shows "defined (get_u64 v)" and "defined (get_int v)"
  using assms get_defined member_integral(1)
  by (auto simp: number_member_def split: option.splits if_splits)

lemma stoull_defined: "defined (stoull base s)"
  by (auto simp: stoull_def split: option.split)

lemma parse_maps_lines_defined: "defined (parse_maps_lines ls)"
proof (induction ls)
  case (Cons line ls)
  have "defined (parse_maps_line line)"
    using stoull_defined by (auto simp: parse_maps_line_def Let_def split: prod.splits option.splits sum.splits)
  with Cons show ?case by (auto split: sum.splits option.splits)
qed simp

lemma core_regions_defined: "core_get_memory_regions os r d w = (q, w') \<Longrightarrow> defined q"
  using parse_maps_lines_defined
  by (auto simp: core_get_memory_regions_def get_memory_regions_def Let_def split: prod.splits sum.splits if_splits)

lemma set_software_defined:
  "set_software_breakpoint os tid a m w = (r, m', w') \<Longrightarrow> m_next_breakpoint_id m \<noteq> INT_MAX \<Longrightarrow> defined r"
  by (auto simp: set_software_breakpoint_def new_breakpoint_def make_breakpoint_def Let_def
      split: prod.splits if_splits sum.splits)

lemma set_breakpoint_defined:
  assumes "set_breakpoint os type a d w = (r, d', w')" and "core_inv d"
    and "m_next_breakpoint_id (bp_manager d) \<noteq> INT_MAX"
  shows "defined r"
proof (cases "breakpoint_type_of type")
  case None
  with assms(1) show ?thesis by (auto simp: set_breakpoint_def)
next
  case (Some ty)
  obtain q m1 w1 where run: "(if ty = SOFTWARE then set_software_breakpoint os (m_current_tid d) a (bp_manager d) w
      else set_hardware_breakpoint os (m_current_tid d) a ty (bp_manager d) w) = (q, m1, w1)" by (metis prod_cases3)
  have "defined q"
    using run assms(2,3)
    by (auto simp: core_inv_def split: if_splits dest: set_software_defined set_hardware_only)
  with assms(1) Some run show ?thesis by (cases q) (auto simp: set_breakpoint_def)
qed

lemma single_step_defined:
  assumes "single_step_impl os mode d w = (r, d', w')" and "m_next_breakpoint_id (bp_manager d) \<noteq> INT_MAX"
  shows "defined r"
  using assms
  by (auto simp: single_step_impl_def Let_def split: option.splits if_splits prod.splits sum.splits
      dest: set_software_defined)

lemma step_defined:
  "step_into os d w = (r, d', w') \<Longrightarrow> m_next_breakpoint_id (bp_manager d) \<noteq> INT_MAX \<Longrightarrow> defined r"
  "step_over os d w = (r, d', w') \<Longrightarrow> m_next_breakpoint_id (bp_manager d) \<noteq> INT_MAX \<Longrightarrow> defined r"
  by (auto simp: step_into_def step_over_def software_step_into_def split: prod.splits sum.splits if_splits
      dest: single_step_defined)

lemma write_loops_defined:
  "write_gprs os tid ms w = (r, w') \<Longrightarrow> defined r" "write_fprs os tid ms w = (q, w'') \<Longrightarrow> defined q"
  by (induction ms arbitrary: w) (auto split: json.splits option.splits if_splits prod.splits sum.splits simp: Let_def)

lemma write_registers_defined: "write_registers os j d w = (r, w') \<Longrightarrow> defined r"
  by (auto simp: write_registers_def write_block_def dest: write_loops_defined
      split: prod.splits sum.splits option.splits json.splits)

lemma json_set_defined: "defined (json_set k v j)"
  by (cases j) simp_all

lemma read_registers_defined: "read_registers os j r d w = (q, r', w') \<Longrightarrow> defined q"
  using json_set_defined
  by (auto simp: read_registers_def read_block_def split: prod.splits sum.splits option.splits if_splits)


text \<open>A handler that comes back from every integral request, without undefined behaviour, in every good state.\<close>

definition answers :: "((cxx_error + status) \<times> 'w) option \<Rightarrow> bool" where
  "answers q \<longleftrightarrow> (case q of None \<Rightarrow> False | Some (r, _) \<Rightarrow> defined r)"

lemma answers_simps [simp]: "answers (Some q) = defined (fst q)" "\<not> answers None" "defined (answer j)"
  by (simp_all add: answers_def answer_def case_prod_unfold)

definition serviceable :: "debugger \<Rightarrow> bool" where
  "serviceable d \<longleftrightarrow> core_inv d \<and> m_next_breakpoint_id (bp_manager d) \<noteq> INT_MAX"

definition handler_total :: "'w platform \<Rightarrow> 'w session_world handler \<Rightarrow> bool" where
  "handler_total pl h \<longleftrightarrow> (\<forall>params d w.
     defined (pl_parse pl params) \<longrightarrow> (\<forall>j. pl_parse pl params = Inr j \<longrightarrow> integral_request j) \<longrightarrow> serviceable d \<longrightarrow>
     answers (h params (d, w)))"

lemma handler_totalI: "(\<And>params d w. serviceable d \<Longrightarrow> answers (h params (d, w))) \<Longrightarrow> handler_total pl h"
  by (simp add: handler_total_def)

lemma handler_total_json:
  assumes "\<And>params d w. h params (d, w) = with_json pl params (d, w) (f d w)"
    and "\<And>j d w. integral_request j \<Longrightarrow> serviceable d \<Longrightarrow> answers (f d w j)"
  shows "handler_total pl h"
  using assms(2) by (auto simp: handler_total_def assms(1) with_json_def split: sum.split)

lemma plain_total:
  "handler_total pl (handle_detach pl)" "handler_total pl (handle_kill pl)" "handler_total pl (handle_resume pl)"
  "handler_total pl (handle_pause pl)" "handler_total pl (handle_get_threads pl)" "handler_total pl (handle_get_pid pl)"
  "handler_total pl (handle_get_current_tid pl)" "handler_total pl ping"
  by (auto intro!: handler_totalI simp: handle_detach_def handle_kill_def handle_resume_def handle_pause_def
      handle_get_threads_def handle_get_pid_def handle_get_current_tid_def ping_def split: prod.split)

lemma step_total:
  "handler_total pl (handle_step_into pl)" "handler_total pl (handle_step_over pl)"
  "handler_total pl (handle_get_memory_regions pl)"
    apply (rule handler_totalI, simp add: handle_step_into_def serviceable_def)
    apply (metis prod.collapse step_defined(1))
   apply (rule handler_totalI, simp add: handle_step_over_def serviceable_def)
   apply (metis prod.collapse step_defined(2))
  apply (rule handler_totalI)
  apply (auto simp: handle_get_memory_regions_def split: prod.split sum.split dest: core_regions_defined)
  done

lemma registers_total:
  "handler_total pl (handle_read_registers pl)" "handler_total pl (handle_write_registers pl)"
   apply (rule handler_total_json, simp add: handle_read_registers_def)
   apply (auto split: prod.split sum.split dest: read_registers_defined)[1]
  apply (rule handler_total_json, simp add: handle_write_registers_def)
  apply (auto split: prod.split dest: write_registers_defined)[1]
  done

lemma memory_total:
  "handler_total pl (handle_read_memory pl)" "handler_total pl (handle_write_memory pl)"
   apply (rule handler_total_json, simp add: handle_read_memory_def)
   apply (auto split: option.split sum.split prod.split dest: number_member_defined)[1]
  apply (rule handler_total_json, simp add: handle_write_memory_def)
  apply (auto split: option.split json.split sum.split prod.split dest: number_member_defined get_bytes_defined [OF member_integral(2)])[1]
  done

lemma with_id_total: "handler_total pl (with_breakpoint_id pl operation)"
  apply (rule handler_total_json, simp add: with_breakpoint_id_def)
  apply (auto split: option.split sum.split prod.split dest: number_member_defined)[1]
  done

lemma breakpoints_total:
  "handler_total pl (handle_set_breakpoint pl)" "handler_total pl (handle_remove_breakpoint pl)"
  "handler_total pl (handle_enable_breakpoint pl)" "handler_total pl (handle_disable_breakpoint pl)"
  subgoal
    apply (rule handler_total_json, simp add: handle_set_breakpoint_def)
    apply (auto simp: serviceable_def map_sum_def split: option.split sum.split prod.split
        dest: number_member_defined set_breakpoint_defined)
    done
  by (simp_all add: handle_remove_breakpoint_def handle_enable_breakpoint_def handle_disable_breakpoint_def with_id_total)

lemma query_total: "handler_total pl (handle_switch_thread pl)" "handler_total pl (handle_get_breakpoints pl)"
  subgoal
    apply (rule handler_total_json, simp add: handle_switch_thread_def)
    apply (auto split: option.split sum.split prod.split dest: number_member_defined)
    done
  apply (rule handler_total_json, simp add: handle_get_breakpoints_def)
  apply (auto simp: Let_def split: option.split sum.split prod.split dest: get_defined(2) [OF member_integral(1)])
  done


text \<open>The commands for which this is shown; \<open>attach\<close> and \<open>get_breakpoint\<close> have undefined cases, and \<open>launch\<close> waits.\<close>

lemma commands_total:
  assumes "map_of (commands pl) cmd = Some h" and "cmd \<notin> {''attach'', ''launch'', ''get_breakpoint''}"
  shows "handler_total pl h"
proof -
  have "list_all (\<lambda>(c, h). c \<in> {''attach'', ''launch'', ''get_breakpoint''} \<or> handler_total pl h) (commands pl)"
    by (simp add: commands_def plain_total step_total registers_total memory_total breakpoints_total query_total)
  with assms show ?thesis by (fastforce simp: list_all_iff dest: map_of_SomeD)
qed


section \<open>Answers about threads and breakpoints\<close>

text \<open>
  C18: The three queries about threads tell one story, in every state a session comes to and after
  the server has ended: no process and no threads, or a process whose threads include its main
  thread and the current one; asking changes nothing.
\<close>

theorem thread_queries_consistent:
  assumes "session_reachable pl s \<or> (\<exists>net w r srv. main_program net pl w = Some (r, srv, s))"
  shows "\<exists>pid tid tids. handle_get_pid pl p1 s = Some (answer (JObject [(''pid'', JInt pid)]), s)
    \<and> handle_get_current_tid pl p2 s = Some (answer (JObject [(''tid'', JInt tid)]), s)
    \<and> handle_get_threads pl p3 s = Some (answer (json_pushed (map JInt tids)), s)
    \<and> (if pid = -1 then tids = [] else 0 \<le> pid \<and> pid \<in> set tids \<and> tid \<in> set tids)"
proof -
  obtain d w where s: "s = (d, w)" by (cases s)
  have "session_reachable pl (d, w)" using assms s by (auto dest: main_program_session)
  from core_reachable_inv [OF session_core [OF this]] have "threads_wf d" by (simp add: core_inv_def)
  then have "if m_pid d = -1 then m_tids d = []
      else 0 \<le> m_pid d \<and> m_pid d \<in> set (m_tids d) \<and> m_current_tid d \<in> set (m_tids d)"
    by (auto simp: threads_wf_def)
  then show ?thesis
    unfolding s
    by (intro exI [of _ "m_pid d"] exI [of _ "m_current_tid d"] exI [of _ "m_tids d"])
      (simp add: handle_get_pid_def handle_get_current_tid_def handle_get_threads_def get_pid_def get_current_tid_def
        get_threads_def)
qed

text \<open>What a successful set adds to the table and a successful remove takes from it.\<close>

lemma set_breakpoint_adds:
  assumes "bm_wf m" and "set_software_breakpoint os tid a m w = (Inr i, m', w')" and "i \<noteq> -1"
  obtains b where "bp_id b = i" "bp_tid b = tid" "bp_address b = a" "bp_type b = SOFTWARE" "bp_enabled b"
    and "0 < i" and "i < INT_MAX" and "um_find (m_breakpoints m) i = None"
    and "um_find (m_breakpoints m') = (um_find (m_breakpoints m))(i \<mapsto> b)"
proof -
  obtain q where n: "new_breakpoint tid a SOFTWARE q m = (Inr i, m')"
    using assms(2,3) by (auto simp: set_software_breakpoint_def split: if_splits prod.splits)
  have t: "0 < m_next_breakpoint_id m \<and> m_next_breakpoint_id m \<le> INT_MAX"
    using assms(1) by (auto simp: bm_wf_def table_ok_def)
  from n show thesis
  proof (cases rule: new_breakpoint_cases)
    case (added k)
    then show thesis
      using that [of "\<lparr>bp_id = i, bp_tid = tid, bp_address = a, bp_type = SOFTWARE, bp_enabled = True,
             original_instruction = q, hardware_register = DBR_INVALID\<rparr>"] t bm_wf_fresh [OF assms(1)]
      by simp
  qed simp
qed

lemma breakpoints_of_table:
  "bm_wf m \<Longrightarrow> b \<in> set (get_breakpoints m) \<longleftrightarrow> um_find (m_breakpoints m) (bp_id b) = Some b"
  using bps_found [of m b] hm.val_found [of "m_breakpoints m"] by (auto simp: bm_wf_def get_breakpoints_def)

lemma remove_takes:
  assumes "remove_breakpoint os i m w = (st, m', w')" and "is_success st" and "bm_wf m"
  shows "um_find (m_breakpoints m') = (um_find (m_breakpoints m))(i := None)"
proof -
  have "um_wf (m_breakpoints m)" using assms(3) by (simp add: bm_wf_def)
  with assms(1,2) show ?thesis
    by (auto simp: remove_breakpoint_def forget_breakpoint_def return_register_def Let_def
        split: option.splits if_splits prod.splits)
qed


text \<open>
  C5: Setting a software breakpoint by its command and listing the breakpoints: the answer has
  the new one, of the current thread, at the address asked for and enabled, with an identifier and an address no other has,
  beside the old ones as they were; and removing it by that identifier leaves exactly the old ones.
\<close>

theorem breakpoint_commands:
  assumes "session_reachable pl (d, w)"
    and "pl_parse pl ps = Inr js" and "number_member js ''type'' = Some (JInt 1)"
    and "number_member js ''address'' = Some (JInt a)"
    and "handle_set_breakpoint pl ps (d, w) = Some (Inr st, (d1, w1))" and "is_success st"
    and "pl_parse pl pg = Inr jg" and "json_member jg ''tid'' = None"
  shows "\<exists>b bs. handle_get_breakpoints pl pg (d1, w2) = Some (answer (JArray (map breakpoint_json bs)), (d1, w2))
    \<and> set bs = insert b (set (get_breakpoints (bp_manager d)))
    \<and> bp_address b = word_of_int a \<and> bp_type b = SOFTWARE \<and> bp_enabled b \<and> bp_tid b = m_current_tid d
    \<and> list_all (\<lambda>c. bp_id c \<noteq> bp_id b \<and> bp_address c \<noteq> bp_address b) (get_breakpoints (bp_manager d))
    \<and> (\<forall>pr jr w3 sr d3 w4. pl_parse pl pr = Inr jr \<longrightarrow> number_member jr ''breakpoint_id'' = Some (JInt (bp_id b)) \<longrightarrow>
         handle_remove_breakpoint pl pr (d1, w3) = Some (Inr sr, (d3, w4)) \<longrightarrow> is_success sr \<longrightarrow>
         set (get_breakpoints (bp_manager d3)) = set (get_breakpoints (bp_manager d)))"
proof -
  let ?m = "bp_manager d" and ?a = "word_of_int a :: u64"
  have inv: "core_inv d" using core_reachable_inv [OF session_core [OF assms(1)]] by simp
  then have wf: "bm_wf ?m" by (simp add: core_inv_def software_only_def)
  obtain r d' u where run: "set_breakpoint (pl_os pl) 1 ?a d w = (r, d', u)" by (metis prod_cases3)
  have r: "d' = d1" "u = w1" "\<exists>i. r = Inr (st, i)"
    using assms(2-5) run by (auto simp: handle_set_breakpoint_def with_json_def map_sum_def split: sum.splits)
  then obtain i m1 where "set_software_breakpoint (pl_os pl) (m_current_tid d) ?a ?m w = (Inr i, m1, w1)"
      "i \<noteq> -1" and d1: "d1 = d\<lparr>bp_manager := m1\<rparr>"
    using run assms(6)
    by (auto simp: set_breakpoint_def breakpoint_type_of_def split: prod.splits sum.splits if_splits)
  from set_breakpoint_adds [OF wf this(1,2)] obtain b where b: "bp_id b = i" "bp_tid b = m_current_tid d"
      "bp_address b = ?a" "bp_type b = SOFTWARE" "bp_enabled b" "0 < i" "i < INT_MAX"
      "um_find (m_breakpoints ?m) i = None"
      "um_find (m_breakpoints m1) = (um_find (m_breakpoints ?m))(i \<mapsto> b)" .
  have inv1: "core_inv d1" using set_breakpoint_inv [OF run inv] r(1) by simp
  then have wf1: "bm_wf m1" by (simp add: core_inv_def software_only_def d1)
  have id: "bp_id c = k" if "um_find (m_breakpoints ?m) k = Some c" for k c
    using wf that by (auto simp: bm_wf_def table_ok_def)
  note in_old = breakpoints_of_table [OF wf] and in_new = breakpoints_of_table [OF wf1]
  have bs: "set (get_breakpoints m1) = insert b (set (get_breakpoints ?m))"
  proof (rule set_eqI)
    fix c show "c \<in> set (get_breakpoints m1) \<longleftrightarrow> c \<in> insert b (set (get_breakpoints ?m))"
      using b(1,8,9) by (cases "bp_id c = i") (auto simp: in_old in_new)
  qed
  have other: "bp_id c \<noteq> i \<and> bp_address c \<noteq> ?a" if "c \<in> set (get_breakpoints ?m)" for c
  proof -
    have c: "um_find (m_breakpoints ?m) (bp_id c) = Some c" using that in_old by simp
    with b(8) have n: "bp_id c \<noteq> i" by auto
    with c b(9) have "um_find (m_breakpoints m1) (bp_id c) = Some c" "um_find (m_breakpoints m1) i = Some b" by simp_all
    with wf1 n b(3) show ?thesis unfolding bm_wf_def addresses_ok_def by (metis option.inject)
  qed
  have list: "handle_get_breakpoints pl pg (d1, w2)
      = Some (answer (JArray (map breakpoint_json (get_breakpoints m1))), (d1, w2))"
    using assms(7,8) bs
    by (auto simp: handle_get_breakpoints_def with_json_def core_get_breakpoints_def json_pushed_def d1 Let_def)
  have undone: "set (get_breakpoints (bp_manager d3)) = set (get_breakpoints ?m)"
    if "pl_parse pl pr = Inr jr" "number_member jr ''breakpoint_id'' = Some (JInt i)"
      "handle_remove_breakpoint pl pr (d1, w3) = Some (Inr sr, (d3, w4))" "is_success sr" for pr jr w3 sr d3 w4
  proof -
    have "sint (word_of_int i :: u32) = i"
      using b(6,7) by (simp add: sint_sbintrunc' INT_MAX_def signed_take_bit_int_eq_self)
    with that obtain m3 where m3: "remove_breakpoint (pl_os pl) i m1 w3 = (sr, m3, w4)" "d3 = d1\<lparr>bp_manager := m3\<rparr>"
      by (auto simp: handle_remove_breakpoint_def with_breakpoint_id_def with_json_def core_remove_breakpoint_def d1
          split: prod.splits)
    have "um_find (m_breakpoints m3) = um_find (m_breakpoints ?m)"
      using remove_takes [OF m3(1) that(4) wf1] b(8,9) by auto
    moreover have "bm_wf m3" using remove_breakpoint_wf [OF wf1 m3(1)] .
    ultimately show ?thesis using m3(2) by (auto simp: breakpoints_of_table in_old)
  qed
  show ?thesis
  proof (intro exI conjI allI impI)
    show "list_all (\<lambda>c. bp_id c \<noteq> bp_id b \<and> bp_address c \<noteq> bp_address b) (get_breakpoints ?m)"
      using other b(1,3) by (simp add: list_all_iff)
  qed (use list bs b(1-5) undone in blast)+
qed


section \<open>A session\<close>

text \<open>The platform of the witnesses: it has the texts of five requests.\<close>

definition demo_platform :: "kstate platform" where
  "demo_platform =
     \<lparr>pl_os = tree_os demo_tree,
      pl_parse = (\<lambda>s. case map_of
         [(''target'', JObject [(''target'', JString ''demo.app'')]),
          (''set'', JObject [(''address'', JInt 0x8000), (''type'', JInt 1)]),
          (''id'', JObject [(''breakpoint_id'', JInt 1)]),
          (''read'', JObject [(''address'', JInt 0x10), (''size'', JInt 4)]),
          (''none'', JObject [])] s of
        Some j \<Rightarrow> Inr j | None \<Rightarrow> Inl Json_parse_error),
      pl_alloc = (\<lambda>n. n < 1000), pl_char_signed = True\<rparr>"

definition demo_attached :: "debugger \<times> kstate" where
  "demo_attached = snd (the (handle_attach demo_platform ''target'' (DebuggerCore, demo_kernel)))"

lemma demo_attached_run:
  "handle_attach demo_platform ''target'' (DebuggerCore, demo_kernel)
     = Some (Inr (status_success (Dumped (JString ''attach succeeded''))), demo_attached)"
proof -
  have "map_option fst (handle_attach demo_platform ''target'' (DebuggerCore, demo_kernel))
      = Some (Inr (status_success (Dumped (JString ''attach succeeded''))))" by code_simp
  then show ?thesis by (auto simp: demo_attached_def)
qed

lemma demo_attached_reachable: "session_reachable demo_platform demo_attached"
proof -
  have "command_handler demo_platform ''attach'' = Some (handle_attach demo_platform)"
    by (simp add: command_handler_cases commands_def)
  from Served_handler [OF Served_start this demo_attached_run] show ?thesis .
qed

theorem thread_queries_consistent_witness:
  "handle_get_threads demo_platform [] demo_attached = Some (answer (JArray [JInt 100, JInt 101]), demo_attached)
     \<and> (\<exists>tid \<in> {100, 101}. handle_get_current_tid demo_platform [] demo_attached
          = Some (answer (JObject [(''tid'', JInt tid)]), demo_attached))"
proof -
  have t: "m_tids (fst demo_attached) = [100, 101]" by code_simp
  then have g: "handle_get_threads demo_platform [] demo_attached = Some (answer (JArray [JInt 100, JInt 101]), demo_attached)"
    by (simp add: handle_get_threads_def get_threads_def json_pushed_def case_prod_unfold)
  have e: "json_pushed (map JInt tids) = JArray [JInt 100, JInt 101] \<longleftrightarrow> tids = [100, 101]" for tids
    by (auto simp: json_pushed_def)
  have a: "answer i = answer j \<longleftrightarrow> i = j" for i j by (simp add: answer_def status_success_def)
  from thread_queries_consistent [OF disjI1 [OF demo_attached_reachable], of "[]" "[]" "[]"] g show ?thesis
    by (fastforce simp: a e split: if_splits)
qed

definition demo_set :: "debugger \<times> kstate" where
  "demo_set = snd (the (handle_set_breakpoint demo_platform ''set'' demo_attached))"

theorem breakpoint_commands_witness:
  "\<exists>b bs. handle_get_breakpoints demo_platform ''none'' demo_set = Some (answer (JArray (map breakpoint_json bs)), demo_set)
     \<and> b \<in> set bs \<and> bp_address b = 0x8000 \<and> bp_tid b = 100 \<and> bp_enabled b"
proof -
  have "map_option fst (handle_set_breakpoint demo_platform ''set'' demo_attached)
      = Some (Inr (status_success (Dumped (JString ''set_breakpoint succeeded''))))" by code_simp
  then have run: "handle_set_breakpoint demo_platform ''set'' (fst demo_attached, snd demo_attached)
      = Some (Inr (status_success (Dumped (JString ''set_breakpoint succeeded''))), (fst demo_set, snd demo_set))"
    by (auto simp: demo_set_def)
  have p: "pl_parse demo_platform ''set'' = Inr (JObject [(''address'', JInt 0x8000), (''type'', JInt 1)])"
    "pl_parse demo_platform ''none'' = Inr (JObject [])" "m_current_tid (fst demo_attached) = 100" by code_simp+
  from breakpoint_commands [OF _ p(1) _ _ run _ p(2), where a = "0x8000" and ?w2.0 = "snd demo_set"]
  show ?thesis using demo_attached_reachable p(3) by (fastforce simp: number_member_def)
qed



end
