(* ===== verification/Debugger_Stepping.thy ===== *)
theory Debugger_Stepping
  imports Debugger_Core
begin

unbundle bit_operations_syntax

text \<open>
  Stepping over an instruction by software, \<open>step_over\<close> of \<open>src/debugger_core.cpp\<close>: a breakpoint on the
  next instruction that is set, run to and removed again.  For a kernel that keeps its contracts the
  program's own memory and the table of breakpoints are what they were, apart from what the
  tracee itself did while it ran.
\<close>

section \<open>Letting the tracee run\<close>

text \<open>
  Continuing a thread and waiting for it: the tracee may change everything but its code, the
  addresses in \<open>code\<close>, and its mappings.
\<close>

definition ran :: "nat \<Rightarrow> (u64 \<Rightarrow> bool) \<Rightarrow> kstate \<Rightarrow> kstate \<Rightarrow> bool" where
  "ran s code st st' \<longleftrightarrow> k_space st' = k_space st \<and> k_readable st' = k_readable st \<and> k_writable st' = k_writable st
     \<and> (kstate_wf st \<longrightarrow> kstate_wf st') \<and> (\<forall>x. code x \<longrightarrow> k_mem st' s x = k_mem st s x)"

definition run_contract :: "'w os \<Rightarrow> ('w \<Rightarrow> kstate) \<Rightarrow> nat \<Rightarrow> (u64 \<Rightarrow> bool) \<Rightarrow> bool" where
  "run_contract os view s code \<longleftrightarrow> (\<forall>p w r w1 old q status w2.
     os_ptrace os PTRACE_CONT p w = (r, w1) \<and> os_waitpid os p WAIT_WALL old w1 = ((q, status), w2) \<longrightarrow>
       ran s code (view w) (view w2))"

lemma run_rule:
  assumes "run_contract os view s code" and "tid \<in> set (m_tids d)"
    and "resume_thread os tid d w = (st, w1)" and "waitpid_wrapper os tid old WAIT_WALL w1 = (q, status, w2)"
  shows "ran s code (view w) (view w2)"
proof -
  obtain r w1' where c: "os_ptrace os PTRACE_CONT tid w = (r, w1')" by (metis prod.exhaust)
  with assms(2,3) have "w1' = w1" by (auto simp: resume_thread_def ptrace_wrapper_def)
  moreover have "os_waitpid os tid WAIT_WALL old w1 = ((q, status), w2)"
    using assms(4) by (auto simp: waitpid_wrapper_def split: prod.splits)
  ultimately show ?thesis using assms(1) c unfolding run_contract_def by blast
qed

text \<open>The breakpoints stay over the program's memory, which the run may have changed outside the code.\<close>

lemma refines_ran:
  assumes "refines le s M m st" and "ran s code st st'"
    and "\<And>i b x. software m i = Some b \<Longrightarrow> covers b x \<Longrightarrow> code x"
  shows "\<exists>M'. refines le s M' m st' \<and> (\<forall>x. code x \<longrightarrow> M' x = M x)"
proof -
  define M' where "M' x = (if \<exists>i b. software m i = Some b \<and> covers b x then M x else k_mem st' s x)" for x
  have ov: "overlay le M (software m) (k_mem st s)" using assms(1) by (simp add: refines_def)
  have same: "k_mem st' s x = k_mem st s x" if "code x" for x
    using assms(2) that by (simp add: ran_def)
  have "overlay le M' (software m) (k_mem st' s)"
  proof (rule overlay_tracee [OF ov])
    show "M' x = M x \<and> k_mem st' s x = k_mem st s x" if "software m i = Some b" "covers b x" for i b x
      using that same assms(3) by (auto simp: M'_def)
    show "M' x = k_mem st' s x" if "\<And>i b. software m i = Some b \<Longrightarrow> \<not> covers b x" for x
      using that by (auto simp: M'_def)
  qed
  then have "refines le s M' m st'"
    using assms(1,2) by (simp add: refines_def ran_def site_def)
  moreover have "M' x = M x" if "code x" for x
    using same [OF that] overlay_elsewhere [OF ov, of x] by (auto simp: M'_def)
  ultimately show ?thesis by blast
qed

section \<open>Setting and removing the temporary breakpoint\<close>

lemma set_software_table:
  assumes "bm_wf m" and "set_software_breakpoint os tid a m w = (r, m', w')"
  obtains (refused) "m_breakpoints m' = m_breakpoints m" "r = Inr (-1) \<or> (\<exists>e. r = Inl e)"
  | (set) n b where "r = Inr n" "n \<noteq> -1" "bp_type b = SOFTWARE" "bp_address b = a" "bp_tid b = tid"
      "um_find (m_breakpoints m) n = None"
      "um_find (m_breakpoints m') = (um_find (m_breakpoints m))(n \<mapsto> b)"
proof -
  have fresh: "um_find (m_breakpoints m) (m_next_breakpoint_id m) = None" using bm_wf_fresh [OF assms(1)] .
  have pos: "0 < m_next_breakpoint_id m" using assms(1) by (simp add: bm_wf_def table_ok_def)
  consider "m' = m" "r = Inr (-1) \<or> (\<exists>e. r = Inl e)"
    | ins where "new_breakpoint tid a SOFTWARE ins m = (r, m')"
    using assms(2) by (auto simp: set_software_breakpoint_def split: if_splits prod.splits)
  then show thesis
  proof cases
    case 1
    with refused show thesis by simp
  next
    case 2
    then show thesis
    proof (cases rule: new_breakpoint_cases)
      case (failed e)
      with refused show thesis by auto
    next
      case (added n)
      show thesis by (rule set [OF added(1)]) (use added fresh pos in auto)
    qed
  qed
qed

lemma remove_software_run:
  assumes "memory_contract os view" and "refines le s M m (view w)" and "software m i = Some b"
    and "remove_breakpoint os i m w = (st, m', w')"
  shows "is_success st \<and> um_find (m_breakpoints m') = (um_find (m_breakpoints m))(i := None)"
proof -
  let ?bs = "host_bytes (os_little_endian os) 4 (original_instruction b)"
  obtain ok w1 where wr: "write_memory os (bp_tid b) (bp_address b) ?bs w = (ok, w1)" by (metis prod.exhaust)
  have "site (view w) s (bp_tid b) (bp_address b)" using assms(2,3) by (simp add: refines_def)
  from site_write [OF assms(1) this _ wr] have ok by simp
  with assms(3,4) wr show ?thesis
    by (auto simp: remove_breakpoint_def software_some forget_breakpoint_def Let_def)
qed

text \<open>The proof, for the property and for runs of the whole debugger.\<close>

lemma step_over_refines:
  assumes "memory_contract os view" and "regset_contract os view" and "run_contract os view s code"
    and "refines (os_little_endian os) s M (bp_manager d) (view w)"
    and "1 \<le> m_current_tid d" and "m_current_tid d \<in> set (m_tids d)"
    and "m_next_breakpoint_id (bp_manager d) \<noteq> INT_MAX"
    and "\<And>i b x. software (bp_manager d) i = Some b \<Longrightarrow> covers b x \<Longrightarrow> code x"
    and "next_pc = pt_pc (k_gpr (view w) (m_current_tid d)) + 4" and "site (view w) s (m_current_tid d) next_pc"
    and "\<And>x. unat (x - next_pc) < 4 \<Longrightarrow> code x"
    and "step_over os d w = (r, d', w')"
  shows "(\<exists>M'. refines (os_little_endian os) s M' (bp_manager d') (view w') \<and> (\<forall>x. code x \<longrightarrow> M' x = M x))
    \<and> um_find (m_breakpoints (bp_manager d')) = um_find (m_breakpoints (bp_manager d))
    \<and> d' = d\<lparr>bp_manager := bp_manager d'\<rparr>"
proof -
  let ?t = "m_current_tid d" and ?m = "bp_manager d" and ?le = "os_little_endian os"
  have wf: "bm_wf ?m" using assms(4) by (simp add: refines_def)
  obtain pc w1 where pc: "get_gpr os ?t PC w = (pc, w1)" by (metis prod.exhaust)
  have v1: "view w1 = view w" and pc_val: "pc = None \<or> the pc + 4 = next_pc"
    using pc get_all_gpr_contract [OF assms(2), of ?t w] assms(9)
    by (auto simp: get_gpr_def get_gpr_pointer_def enum_le split: prod.splits option.splits)
  obtain ok buf w2 where rd: "read_memory os (m_pid d) next_pc (host_bytes ?le 4 (0 :: u32)) w1 = (ok, buf, w2)"
    by (metis prod_cases3)
  have v2: "view w2 = view w" using read_memory_sound(1) [OF assms(1) rd] v1 by simp
  obtain q m1 w3 where st: "set_software_breakpoint os ?t next_pc ?m w2 = (q, m1, w3)" by (metis prod_cases3)
  have ref1: "refines ?le s M m1 (view w3)"
    by (rule set_software_refines [OF assms(1) _ _ assms(5,7) st]) (use assms(4,10) v2 in simp_all)
  obtain s4 w4 where rs: "resume_thread os ?t d w3 = (s4, w4)" by (metis prod.exhaust)
  obtain p5 s5 w5 where wt: "waitpid_wrapper os ?t 0 WAIT_WALL w4 = (p5, s5, w5)" by (metis prod_cases3)
  obtain s6 m2 w6 where rm: "remove_breakpoint os (projr q) m1 w5 = (s6, m2, w6)" by (metis prod_cases3)
  have run: "(d' = d \<and> view w' = view w) \<or> (d' = d\<lparr>bp_manager := m1\<rparr> \<and> w' = w3 \<and> (q = Inr (-1) \<or> (\<exists>e. q = Inl e)))
      \<or> (d' = d\<lparr>bp_manager := m2\<rparr> \<and> w' = w6 \<and> (\<exists>n. q = Inr n \<and> n \<noteq> -1))"
  proof (cases pc)
    case None
    with assms(12) pc v1 show ?thesis by (simp add: step_over_def single_step_impl_def)
  next
    case (Some pc')
    then have "pc' + 4 = next_pc" using pc_val by simp
    with Some assms(12) pc rd st rs wt rm v1 v2 show ?thesis
      by (cases q) (simp_all add: step_over_def single_step_impl_def Let_def split: if_splits)
  qed
  from wf st show ?thesis
  proof (cases rule: set_software_table)
    case refused
    with run assms(4) ref1 show ?thesis by auto
  next
    case (set n b)
    have sw: "software m1 i = Some c \<Longrightarrow> software ?m i = Some c \<or> (i = n \<and> c = b)" for i c
      using set by (auto simp: software_some split: if_splits)
    have code: "code x" if "software m1 i = Some c" "covers c x" for i c x
      using sw [OF that(1)] that(2) assms(8,11) set(4) by (auto simp: covers_def)
    have "\<exists>M'. refines ?le s M' m1 (view w5) \<and> (\<forall>x. code x \<longrightarrow> M' x = M x)"
      by (rule refines_ran [OF ref1 run_rule [OF assms(3,6) rs wt]]) (rule code)
    then obtain M' where M': "refines ?le s M' m1 (view w5)" "\<forall>x. code x \<longrightarrow> M' x = M x" by blast
    have n: "software m1 n = Some b" using set by (simp add: software_some)
    have rm': "remove_breakpoint os n m1 w5 = (s6, m2, w6)" using rm set(1) by simp
    note gone = remove_software_run [OF assms(1) M'(1) n rm'] and ref2 = remove_refines [OF assms(1,2) M'(1) rm']
    have "um_find (m_breakpoints m2) = um_find (m_breakpoints ?m)" using gone set by (auto simp: fun_eq_iff)
    with run M'(2) ref2 assms(4) set(1,2) show ?thesis by auto
  qed
qed


lemma sim_run_contract: "run_contract sim_os id s code"
  by (auto simp: run_contract_def ran_def sim_os_def kstate_wf_def split: if_splits)


end
