(* ===== verification/Control_Calls.thy ===== *)
theory Control_Calls
  imports Debugger_Stepping
begin

text \<open>
  Which system calls the operations of the debugger make that attach, let go, continue, pause and step: they
  are runs of control calls (\<open>ptrace\<close> requests without data, waiting, signals but \<open>SIGKILL\<close>, and reading
  files), and leave the breakpoint manager alone.
\<close>

section \<open>Runs of control calls\<close>

definition control_request :: "ptrace_request \<Rightarrow> bool" where
  "control_request req \<longleftrightarrow> (case req of
     PTRACE_PEEKDATA _ \<Rightarrow> False | PTRACE_POKEDATA _ _ \<Rightarrow> False
   | PTRACE_GETREGSET _ \<Rightarrow> False | PTRACE_SETREGSET _ _ \<Rightarrow> False | _ \<Rightarrow> True)"

text \<open>The world after one of the calls, whatever its arguments.\<close>

inductive control_call :: "'w os \<Rightarrow> 'w \<Rightarrow> 'w \<Rightarrow> bool" for os where
  Call_ptrace: "control_request req \<Longrightarrow> control_call os w (snd (os_ptrace os req p w))"
| Call_waitpid: "control_call os w (snd (os_waitpid os p options status w))"
| Call_kill: "sig \<noteq> SIGKILL \<Longrightarrow> control_call os w (snd (os_kill os p sig w))"
| Call_is_dir: "control_call os w (snd (os_is_dir os path w))"
| Call_opendir: "control_call os w (snd (os_opendir os path w))"
| Call_open_file: "control_call os w (snd (os_open_file os path w))"

definition control_calls :: "'w os \<Rightarrow> 'w \<Rightarrow> 'w \<Rightarrow> bool" where
  "control_calls os = (control_call os)\<^sup>*\<^sup>*"

named_theorems calls "operations that are runs of control calls"

lemma calls_refl [simp]: "control_calls os w w"
  by (simp add: control_calls_def)

lemma calls_trans: "control_calls os a b \<Longrightarrow> control_calls os b c \<Longrightarrow> control_calls os a c"
  by (simp add: control_calls_def)

lemma calls_one: "control_call os a b \<Longrightarrow> control_calls os a b"
  by (auto simp: control_calls_def)

lemma primitive_calls [calls]:
  "ptrace_wrapper os req p w = (ok, reply, w') \<Longrightarrow> control_request req \<Longrightarrow> control_calls os w w'"
  "waitpid_wrapper os p old options w = (q, status, w') \<Longrightarrow> control_calls os w w'"
  "os_kill os p sig w = (ret, w') \<Longrightarrow> sig \<noteq> SIGKILL \<Longrightarrow> control_calls os w w'"
  using Call_ptrace [THEN calls_one, of req os w p] Call_waitpid [THEN calls_one, of os w p options old]
    Call_kill [THEN calls_one, of sig os w p]
  by (auto simp: ptrace_wrapper_def waitpid_wrapper_def split: prod.splits if_splits)

lemma control_requests [simp]:
  "control_request PTRACE_ATTACH" "control_request PTRACE_DETACH" "control_request PTRACE_CONT"
  "control_request PTRACE_SYSCALL" "control_request PTRACE_SINGLESTEP" "control_request (PTRACE_SETOPTIONS o')"
  "control_request PTRACE_GETEVENTMSG"
  by (simp_all add: control_request_def)

section \<open>Reading files and processes\<close>

lemma file_open_calls [calls]: "file_open os p w = (f, w') \<Longrightarrow> control_calls os w w'"
proof -
  assume opened: "file_open os p w = (f, w')"
  obtain b u where d: "os_is_dir os p w = (b, u)" by (metis prod.exhaust)
  have "control_calls os w u" using Call_is_dir [THEN calls_one, of os w p] d by simp
  moreover have "control_calls os u w'"
    using opened d Call_opendir [THEN calls_one, of os u p] Call_open_file [THEN calls_one, of os u p]
    by (auto simp: file_open_def file_open_as_def open_path_def check_directory_type_def Let_def
        split: prod.splits option.splits if_splits)
  ultimately show ?thesis by (rule calls_trans)
qed

lemma get_process_state_calls [calls]: "get_process_state os p w = (st, w') \<Longrightarrow> control_calls os w w'"
  by (auto simp: get_process_state_def get_process_state_char_def parse_status_def
      split: prod.splits if_splits option.splits list.splits dest: file_open_calls)

lemma get_thread_ids_calls [calls]: "get_thread_ids os p w = (r, w') \<Longrightarrow> control_calls os w w'"
  by (auto simp: get_thread_ids_def split: prod.splits if_splits dest: file_open_calls)

lemma match_entries_calls: "match_entries os name es w = (r, w') \<Longrightarrow> control_calls os w w'"
proof (induction es arbitrary: w r)
  case (Cons e es)
  then show ?case
    by (auto simp: Let_def split: if_splits sum.splits prod.splits dest: file_open_calls intro: calls_trans)
qed simp

lemma find_pid_calls [calls]: "find_pid_by_package_name os name w = (r, w') \<Longrightarrow> control_calls os w w'"
  by (auto simp: find_pid_by_package_name_def split: if_splits prod.splits sum.splits
      dest: file_open_calls match_entries_calls intro: calls_trans)

section \<open>Execution control\<close>

lemma attach_thread_calls [calls]: "attach_thread os t w = (kept, w') \<Longrightarrow> control_calls os w w'"
  by (auto simp: attach_thread_def set_default_ptrace_options_def Let_def split: prod.splits if_splits
      dest!: calls intro: calls_trans)

lemma attach_threads_calls: "attach_threads os ts w = (r, w') \<Longrightarrow> control_calls os w w'"
  by (induction ts arbitrary: w r) (auto split: prod.splits dest!: attach_thread_calls intro: calls_trans)

lemma attach_calls: "attach os p d w = (r, d', w') \<Longrightarrow> control_calls os w w' \<and> bp_manager d' = bp_manager d"
  by (auto simp: attach_def split: prod.splits sum.splits if_splits
      dest!: get_thread_ids_calls attach_threads_calls intro: calls_trans)

lemma attach_package_calls:
  "attach_package os name d w = (r, d', w') \<Longrightarrow> control_calls os w w' \<and> bp_manager d' = bp_manager d"
  by (auto simp: attach_package_def split: prod.splits sum.splits list.splits
      dest!: find_pid_calls attach_calls intro: calls_trans)

lemma detach_threads_calls: "detach_threads os ts w = (r, w') \<Longrightarrow> control_calls os w w'"
  by (induction ts arbitrary: w r)
    (auto split: prod.splits if_splits dest!: primitive_calls(1) get_process_state_calls intro: calls_trans)

lemma detach_calls: "detach os d w = (st, w') \<Longrightarrow> control_calls os w w'"
  by (auto simp: detach_def split: prod.splits if_splits dest!: primitive_calls(3) detach_threads_calls intro: calls_trans)

lemma resume_thread_calls: "resume_thread os t d w = (st, w') \<Longrightarrow> control_calls os w w'"
  by (auto simp: resume_thread_def split: prod.splits if_splits dest!: primitive_calls(1))

lemma resume_threads_calls: "resume_threads os d ts w = (r, w') \<Longrightarrow> control_calls os w w'"
  by (induction ts arbitrary: w r)
    (auto split: prod.splits if_splits dest!: get_process_state_calls resume_thread_calls intro: calls_trans)

lemma resume_calls: "resume os d w = (st, w') \<Longrightarrow> control_calls os w w'"
  by (auto simp: resume_def split: prod.splits if_splits dest!: resume_threads_calls)

lemma pause_thread_calls: "pause_thread os t d w = (st, w') \<Longrightarrow> control_calls os w w'"
  by (auto simp: pause_thread_def split: prod.splits if_splits dest!: primitive_calls(3))

lemma pause_threads_calls: "pause_threads os d ts w = (r, w') \<Longrightarrow> control_calls os w w'"
  by (induction ts arbitrary: w r)
    (auto split: prod.splits if_splits dest!: get_process_state_calls pause_thread_calls intro: calls_trans)

lemma pause_calls: "pause os d w = (st, w') \<Longrightarrow> control_calls os w w'"
  by (auto simp: pause_def split: prod.splits if_splits dest!: pause_threads_calls)

lemma hardware_step_calls: "hardware_step_into os d w = (st, w') \<Longrightarrow> control_calls os w w'"
  by (auto simp: hardware_step_into_def split: prod.splits if_splits dest!: primitive_calls(1,2) intro: calls_trans)

end
