(* ===== verification/Debugger_Memory.thy ===== *)
theory Debugger_Memory
  imports Control_Calls
begin

text \<open>
  The whole debugger against one view of the tracee: through every run of commands, up to its killing, the code
  in the tracee's memory is the code it had, except under the enabled software breakpoints.  The
  tracee itself may run in every call that may let it.
\<close>

section \<open>The tracee\<close>

text \<open>In every control call the tracee may have run: it may change everything but its code and its mappings.\<close>

definition tracee_contract :: "'w os \<Rightarrow> ('w \<Rightarrow> kstate) \<Rightarrow> nat \<Rightarrow> (u64 \<Rightarrow> bool) \<Rightarrow> bool" where
  "tracee_contract os view s code \<longleftrightarrow> (\<forall>w w'. control_call os w w' \<longrightarrow> ran s code (view w) (view w'))"

lemma ran_refl [simp]: "ran s code st st"
  by (simp add: ran_def)

lemma ran_trans: "ran s code a b \<Longrightarrow> ran s code b c \<Longrightarrow> ran s code a c"
  by (simp add: ran_def)

lemma calls_ran:
  assumes "tracee_contract os view s code" and "control_calls os w w'"
  shows "ran s code (view w) (view w')"
  using assms(2) unfolding control_calls_def
proof (induction rule: rtranclp_induct)
  case (step u v)
  then show ?case using assms(1) ran_trans unfolding tracee_contract_def by blast
qed simp

lemma tracee_run_contract: "tracee_contract os view s code \<Longrightarrow> run_contract os view s code"
  unfolding run_contract_def
proof (intro allI impI)
  fix p w r w1 old q status w2
  assume c: "tracee_contract os view s code"
    and r: "os_ptrace os PTRACE_CONT p w = (r, w1) \<and> os_waitpid os p WAIT_WALL old w1 = ((q, status), w2)"
  have "control_call os w w1" "control_call os w1 w2"
    using r Call_ptrace [of PTRACE_CONT os w p] Call_waitpid [of os w1 p WAIT_WALL old] by simp_all
  with c show "ran s code (view w) (view w2)"
    unfolding tracee_contract_def by (blast intro: ran_trans)
qed

section \<open>Runs of the debugger\<close>

text \<open>
  A run of commands on the address space \<open>s\<close> whose code is at the addresses \<open>code\<close>.  Breakpoints are set and steps
  made at instructions in a page that can be read and written, and a client writes to data only; all other
  commands have no conditions.
\<close>

definition code_site :: "kstate \<Rightarrow> nat \<Rightarrow> (u64 \<Rightarrow> bool) \<Rightarrow> pid \<Rightarrow> u64 \<Rightarrow> bool" where
  "code_site st s code tid a \<longleftrightarrow> site st s tid a \<and> 1 \<le> tid \<and> list_all (\<lambda>i. code (a + of_nat i)) [0..<4]"

inductive debug_run ::
  "'w os \<Rightarrow> ('w \<Rightarrow> kstate) \<Rightarrow> nat \<Rightarrow> (u64 \<Rightarrow> bool) \<Rightarrow> debugger \<Rightarrow> 'w \<Rightarrow> debugger \<Rightarrow> 'w \<Rightarrow> bool" for os view s code where
  Run_attach: "attach os pid d w = (r, d', w') \<Longrightarrow> debug_run os view s code d w d' w'"
| Run_attach_package: "attach_package os name d w = (r, d', w') \<Longrightarrow> debug_run os view s code d w d' w'"
| Run_detach: "detach os d w = (st, w') \<Longrightarrow> debug_run os view s code d w d w'"
| Run_resume_thread: "resume_thread os tid d w = (st, w') \<Longrightarrow> debug_run os view s code d w d w'"
| Run_pause_thread: "pause_thread os tid d w = (st, w') \<Longrightarrow> debug_run os view s code d w d w'"
| Run_resume: "resume os d w = (st, w') \<Longrightarrow> debug_run os view s code d w d w'"
| Run_pause: "pause os d w = (st, w') \<Longrightarrow> debug_run os view s code d w d w'"
| Run_step_into: "step_into os d w = (r, d', w') \<Longrightarrow> debug_run os view s code d w d' w'"
| Run_step_over: "code_site (view w) s code (m_current_tid d) (pt_pc (k_gpr (view w) (m_current_tid d)) + 4) \<Longrightarrow>
    m_current_tid d \<in> set (m_tids d) \<Longrightarrow> m_next_breakpoint_id (bp_manager d) \<noteq> INT_MAX \<Longrightarrow>
    step_over os d w = (r, d', w') \<Longrightarrow> debug_run os view s code d w d' w'"
| Run_set_software: "code_site (view w) s code (m_current_tid d) a \<Longrightarrow>
    m_next_breakpoint_id (bp_manager d) \<noteq> INT_MAX \<Longrightarrow>
    set_breakpoint os 1 a d w = (r, d', w') \<Longrightarrow> debug_run os view s code d w d' w'"
| Run_set_other: "type \<noteq> 1 \<Longrightarrow> set_breakpoint os type a d w = (r, d', w') \<Longrightarrow> debug_run os view s code d w d' w'"
| Run_remove: "core_remove_breakpoint os i d w = (st, d', w') \<Longrightarrow> debug_run os view s code d w d' w'"
| Run_enable: "enable_breakpoint os i d w = (st, d', w') \<Longrightarrow> debug_run os view s code d w d' w'"
| Run_disable: "disable_breakpoint os i d w = (st, d', w') \<Longrightarrow> debug_run os view s code d w d' w'"
| Run_read_memory: "core_read_memory os a buf d w = (st, buf', w') \<Longrightarrow> debug_run os view s code d w d w'"
| Run_write_memory: "k_space (view w) (m_pid d) = Some s \<Longrightarrow> on_range (k_writable (view w) s) a (length buf) \<Longrightarrow>
    (\<And>x. code x \<Longrightarrow> length buf \<le> unat (x - a)) \<Longrightarrow>
    core_write_memory os a buf d w = (st, w') \<Longrightarrow> debug_run os view s code d w d w'"
| Run_switch_thread: "switch_thread tid d = (st, d') \<Longrightarrow> debug_run os view s code d w d' w"
| Run_tracee: "ran s code (view w) (view w') \<Longrightarrow> debug_run os view s code d w d w'"

text \<open>Runs from a fresh debugger, in the world \<open>w0\<close>.\<close>

inductive debugged :: "'w os \<Rightarrow> ('w \<Rightarrow> kstate) \<Rightarrow> nat \<Rightarrow> (u64 \<Rightarrow> bool) \<Rightarrow> 'w \<Rightarrow> debugger \<Rightarrow> 'w \<Rightarrow> bool"
  for os view s code w0 where
  Debugged_start: "kstate_wf (view w0) \<Longrightarrow> debugged os view s code w0 DebuggerCore w0"
| Debugged_next: "debugged os view s code w0 d w \<Longrightarrow> debug_run os view s code d w d' w' \<Longrightarrow>
    debugged os view s code w0 d' w'"

section \<open>The invariant\<close>

definition covered :: "(u64 \<Rightarrow> bool) \<Rightarrow> breakpoint_manager \<Rightarrow> bool" where
  "covered code m \<longleftrightarrow> (\<forall>i b x. software m i = Some b \<longrightarrow> covers b x \<longrightarrow> code x)"

definition keeps_code :: "bool \<Rightarrow> nat \<Rightarrow> (u64 \<Rightarrow> bool) \<Rightarrow> memory \<Rightarrow> breakpoint_manager \<Rightarrow> kstate \<Rightarrow> bool" where
  "keeps_code le s code M0 m st \<longleftrightarrow> covered code m \<and> (\<exists>M. refines le s M m st \<and> (\<forall>x. code x \<longrightarrow> M x = M0 x))"

lemma keeps_ran: "keeps_code le s code M0 m st \<Longrightarrow> ran s code st st' \<Longrightarrow> keeps_code le s code M0 m st'"
proof -
  assume k: "keeps_code le s code M0 m st" and r: "ran s code st st'"
  from k obtain M where M: "refines le s M m st" "\<forall>x. code x \<longrightarrow> M x = M0 x" by (auto simp: keeps_code_def)
  have "\<exists>M'. refines le s M' m st' \<and> (\<forall>x. code x \<longrightarrow> M' x = M x)"
    by (rule refines_ran [OF M(1) r]) (use k in \<open>auto simp: keeps_code_def covered_def\<close>)
  with k M(2) show ?thesis by (fastforce simp: keeps_code_def)
qed

lemma site_code:
  assumes "code_site st s code tid a" and "unat (x - a) < 4"
  shows "code x"
proof -
  have "unat (x - a) \<in> set [0..<4]" using assms(2) by simp
  then have "code (a + of_nat (unat (x - a)))" using assms(1) unfolding code_site_def list_all_iff by blast
  then show ?thesis by simp
qed

lemma covers_code: "code_site st s code tid a \<Longrightarrow> bp_address b = a \<Longrightarrow> covers b x \<Longrightarrow> code x"
  by (auto simp: covers_def intro: site_code)

text \<open>What the calls of the manager do to the addresses of the software breakpoints.\<close>

lemma remove_shrinks:
  "remove_breakpoint os i m w = (st, m', w') \<Longrightarrow> software m' j = Some b \<Longrightarrow> software m j = Some b"
  by (auto simp: remove_breakpoint_def Let_def software_forget split: option.splits if_splits prod.splits)

lemma enable_same:
  "enable os i m w = (st, m', w') \<Longrightarrow> software m' j = Some b \<Longrightarrow> \<exists>c. software m j = Some c \<and> bp_address c = bp_address b"
  by (auto simp: enable_def Let_def put_breakpoint_def software_some split: option.splits if_splits prod.splits)

lemma disable_same:
  "disable os i m w = (st, m', w') \<Longrightarrow> software m' j = Some b \<Longrightarrow> \<exists>c. software m j = Some c \<and> bp_address c = bp_address b"
  by (auto simp: disable_def Let_def put_breakpoint_def software_some split: option.splits if_splits prod.splits)

lemma covered_same:
  assumes "covered code m" and "\<And>j b. software m' j = Some b \<Longrightarrow> \<exists>c. software m j = Some c \<and> bp_address c = bp_address b"
  shows "covered code m'"
  using assms unfolding covered_def covers_def by metis

section \<open>Every command keeps the code\<close>

definition debug_inv :: "bool \<Rightarrow> nat \<Rightarrow> (u64 \<Rightarrow> bool) \<Rightarrow> memory \<Rightarrow> debugger \<Rightarrow> kstate \<Rightarrow> bool" where
  "debug_inv le s code M0 d st \<longleftrightarrow> core_inv d \<and> keeps_code le s code M0 (bp_manager d) st"

lemma debug_inv_refines:
  assumes "debug_inv le s code M0 d st"
  obtains M where "refines le s M (bp_manager d) st" "\<forall>x. code x \<longrightarrow> M x = M0 x"
  using assms unfolding debug_inv_def keeps_code_def by blast

text \<open>A step that keeps the invariant of the debugger and refines the same memory, or the same code.\<close>

lemma debug_invI:
  "core_inv d' \<Longrightarrow> covered code (bp_manager d') \<Longrightarrow> refines le s M' (bp_manager d') st' \<Longrightarrow>
     (\<And>x. code x \<Longrightarrow> M' x = M0 x) \<Longrightarrow> debug_inv le s code M0 d' st'"
  unfolding debug_inv_def keeps_code_def by blast

lemma debug_inv_covered: "debug_inv le s code M0 d st \<Longrightarrow> covered code (bp_manager d)"
  by (simp add: debug_inv_def keeps_code_def)

lemma debug_inv_ran:
  assumes "debug_inv le s code M0 d st" and "ran s code st st'" and "core_inv d'" and "bp_manager d' = bp_manager d"
  shows "debug_inv le s code M0 d' st'"
  using assms keeps_ran unfolding debug_inv_def by metis

text \<open>The tracee may run in a run of control calls.\<close>

lemma debug_inv_calls:
  assumes "tracee_contract os view s code" and "debug_inv le s code M0 d (view w)" and "control_calls os w w'"
    and "core_inv d'" and "bp_manager d' = bp_manager d"
  shows "debug_inv le s code M0 d' (view w')"
  using debug_inv_ran [OF assms(2) calls_ran [OF assms(1,3)] assms(4,5)] .

lemma debug_inv_remove:
  assumes "memory_contract os view" and "regset_contract os view"
    and "debug_inv (os_little_endian os) s code M0 d (view w)" and "core_remove_breakpoint os i d w = (st, d', w')"
  shows "debug_inv (os_little_endian os) s code M0 d' (view w')"
proof -
  obtain M where M: "refines (os_little_endian os) s M (bp_manager d) (view w)" "\<forall>x. code x \<longrightarrow> M x = M0 x"
    using assms(3) by (rule debug_inv_refines)
  obtain m where run: "remove_breakpoint os i (bp_manager d) w = (st, m, w')" "d' = d\<lparr>bp_manager := m\<rparr>"
    using assms(4) by (auto simp: core_remove_breakpoint_def split: prod.splits)
  have "core_inv d'" using breakpoint_ops_inv(1) [OF assms(4)] assms(3) by (simp add: debug_inv_def)
  moreover have "covered code m"
    by (rule covered_same [OF debug_inv_covered [OF assms(3)]]) (use remove_shrinks [OF run(1)] in blast)
  ultimately show ?thesis
    using remove_refines [OF assms(1,2) M(1) run(1)] M(2) run(2) by (intro debug_invI [where M' = M]) auto
qed

lemma debug_inv_enable:
  assumes "memory_contract os view" and "regset_contract os view"
    and "debug_inv (os_little_endian os) s code M0 d (view w)" and "enable_breakpoint os i d w = (st, d', w')"
  shows "debug_inv (os_little_endian os) s code M0 d' (view w')"
proof -
  obtain M where M: "refines (os_little_endian os) s M (bp_manager d) (view w)" "\<forall>x. code x \<longrightarrow> M x = M0 x"
    using assms(3) by (rule debug_inv_refines)
  obtain m where run: "enable os i (bp_manager d) w = (st, m, w')" "d' = d\<lparr>bp_manager := m\<rparr>"
    using assms(4) by (auto simp: enable_breakpoint_def split: prod.splits)
  have "core_inv d'" using breakpoint_ops_inv(2) [OF assms(4)] assms(3) by (simp add: debug_inv_def)
  moreover have "covered code m"
    by (rule covered_same [OF debug_inv_covered [OF assms(3)] enable_same [OF run(1)]])
  ultimately show ?thesis
    using enable_refines [OF assms(1,2) M(1) run(1)] M(2) run(2) by (intro debug_invI [where M' = M]) auto
qed

lemma debug_inv_disable:
  assumes "memory_contract os view" and "regset_contract os view"
    and "debug_inv (os_little_endian os) s code M0 d (view w)" and "disable_breakpoint os i d w = (st, d', w')"
  shows "debug_inv (os_little_endian os) s code M0 d' (view w')"
proof -
  obtain M where M: "refines (os_little_endian os) s M (bp_manager d) (view w)" "\<forall>x. code x \<longrightarrow> M x = M0 x"
    using assms(3) by (rule debug_inv_refines)
  obtain m where run: "disable os i (bp_manager d) w = (st, m, w')" "d' = d\<lparr>bp_manager := m\<rparr>"
    using assms(4) by (auto simp: disable_breakpoint_def split: prod.splits)
  have "core_inv d'" using breakpoint_ops_inv(3) [OF assms(4)] assms(3) by (simp add: debug_inv_def)
  moreover have "covered code m"
    by (rule covered_same [OF debug_inv_covered [OF assms(3)] disable_same [OF run(1)]])
  ultimately show ?thesis
    using disable_refines [OF assms(1,2) M(1) run(1)] M(2) run(2) by (intro debug_invI [where M' = M]) auto
qed

lemma covered_set:
  assumes "covered code m" and "bm_wf m" and "code_site st s code tid a"
    and "set_software_breakpoint os tid a m w = (r, m', w')"
  shows "covered code m'"
  using assms(2,4)
proof (cases rule: set_software_table)
  case refused
  then show ?thesis using assms(1) software_cong by (metis covered_def)
next
  case (set n b)
  have "software m' i = Some c \<Longrightarrow> software m i = Some c \<or> c = b" for i c
    using set(7) by (auto simp: software_some split: if_splits)
  with assms(1) covers_code [OF assms(3) set(4)] show ?thesis unfolding covered_def by metis
qed

lemma debug_inv_set_software:
  assumes "memory_contract os view" and "debug_inv (os_little_endian os) s code M0 d (view w)"
    and "code_site (view w) s code (m_current_tid d) a" and "m_next_breakpoint_id (bp_manager d) \<noteq> INT_MAX"
    and "set_breakpoint os 1 a d w = (r, d', w')"
  shows "debug_inv (os_little_endian os) s code M0 d' (view w')"
proof -
  obtain M where M: "refines (os_little_endian os) s M (bp_manager d) (view w)" "\<forall>x. code x \<longrightarrow> M x = M0 x"
    using assms(2) by (rule debug_inv_refines)
  have site: "site (view w) s (m_current_tid d) a" "1 \<le> m_current_tid d" using assms(3) by (simp_all add: code_site_def)
  have wf: "bm_wf (bp_manager d)" using M(1) by (simp add: refines_def)
  obtain q m where run: "set_software_breakpoint os (m_current_tid d) a (bp_manager d) w = (q, m, w')"
      "d' = d\<lparr>bp_manager := m\<rparr>"
    using assms(5) by (auto simp: set_breakpoint_def breakpoint_type_of_def split: prod.splits sum.splits)
  have "core_inv d'" using set_breakpoint_inv [OF assms(5)] assms(2) by (simp add: debug_inv_def)
  then show ?thesis
    using set_software_refines [OF assms(1) M(1) site assms(4) run(1)] M(2) run(2)
      covered_set [OF debug_inv_covered [OF assms(2)] wf assms(3) run(1)]
    by (intro debug_invI [where M' = M]) auto
qed

lemma debug_inv_set_other:
  assumes "debug_inv le s code M0 d (view w)" and "type \<noteq> 1" and "set_breakpoint os type a d w = (r, d', w')"
  shows "debug_inv le s code M0 d' (view w')"
proof (cases "breakpoint_type_of type")
  case None
  with assms show ?thesis by (simp add: set_breakpoint_def)
next
  case (Some ty)
  then have "ty \<noteq> SOFTWARE" using assms(2) by (auto simp: breakpoint_type_of_def split: if_splits)
  then obtain q m where run: "set_hardware_breakpoint os (m_current_tid d) a ty (bp_manager d) w = (q, m, w')"
      "d' = d\<lparr>bp_manager := m\<rparr>"
    using assms(3) Some by (auto simp: set_breakpoint_def split: prod.splits sum.splits)
  have "software_only (bp_manager d)" using assms(1) by (simp add: debug_inv_def core_inv_def)
  note h = set_hardware_only [OF this run(1)]
  have sw: "software m = software (bp_manager d)" using h by (auto intro: software_cong)
  have "bm_wf m" using h by (simp add: software_only_def)
  obtain M where M: "refines le s M (bp_manager d) (view w)" "\<forall>x. code x \<longrightarrow> M x = M0 x"
    using assms(1) by (rule debug_inv_refines)
  have "core_inv d'" using set_breakpoint_inv [OF assms(3)] assms(1) by (simp add: debug_inv_def)
  moreover have "covered code m" using debug_inv_covered [OF assms(1)] sw by (simp add: covered_def)
  moreover have "refines le s M m (view w')" using M(1) sw h \<open>bm_wf m\<close> by (simp add: refines_def)
  ultimately show ?thesis using M(2) run(2) by (intro debug_invI [where M' = M]) auto
qed

lemma debug_inv_step_over:
  assumes "memory_contract os view" and "regset_contract os view" and "tracee_contract os view s code"
    and "debug_inv (os_little_endian os) s code M0 d (view w)"
    and "code_site (view w) s code (m_current_tid d) (pt_pc (k_gpr (view w) (m_current_tid d)) + 4)"
    and "m_current_tid d \<in> set (m_tids d)" and "m_next_breakpoint_id (bp_manager d) \<noteq> INT_MAX"
    and "step_over os d w = (r, d', w')"
  shows "debug_inv (os_little_endian os) s code M0 d' (view w')"
proof -
  let ?pc = "pt_pc (k_gpr (view w) (m_current_tid d)) + 4"
  obtain M where M: "refines (os_little_endian os) s M (bp_manager d) (view w)" "\<forall>x. code x \<longrightarrow> M x = M0 x"
    using assms(4) by (rule debug_inv_refines)
  have cov: "covered code (bp_manager d)" using assms(4) by (rule debug_inv_covered)
  have site: "site (view w) s (m_current_tid d) ?pc" "1 \<le> m_current_tid d"
    using assms(5) by (simp_all add: code_site_def)
  have own: "code x" if "software (bp_manager d) i = Some b" "covers b x" for i b x
    using cov that unfolding covered_def by blast
  have new: "code x" if "unat (x - ?pc) < 4" for x
    using site_code [OF assms(5) that] .
  have over: "(\<exists>M'. refines (os_little_endian os) s M' (bp_manager d') (view w') \<and> (\<forall>x. code x \<longrightarrow> M' x = M x))
      \<and> um_find (m_breakpoints (bp_manager d')) = um_find (m_breakpoints (bp_manager d))
      \<and> d' = d\<lparr>bp_manager := bp_manager d'\<rparr>"
    by (rule step_over_refines [OF assms(1,2) tracee_run_contract [OF assms(3)] M(1) site(2) assms(6,7) _ refl
        site(1) _ assms(8)]) (fact own new)+
  then obtain M' where M': "refines (os_little_endian os) s M' (bp_manager d') (view w')"
      "\<forall>x. code x \<longrightarrow> M' x = M x" by blast
  have "covered code (bp_manager d')"
    using over cov by (simp add: covered_def software_def)
  moreover have "core_inv d'" using step_over_inv [OF assms(8)] assms(4) by (simp add: debug_inv_def)
  ultimately show ?thesis using M' M(2) by (intro debug_invI [where M' = M']) auto
qed

lemma software_step_idle:
  assumes "regset_contract os view" and "software_step_into os d w = (r, d', w')"
  shows "d' = d \<and> view w' = view w"
proof -
  obtain pc w1 where pc: "get_gpr os (m_current_tid d) PC w = (pc, w1)" by (metis prod.exhaust)
  have "view w1 = view w"
    using pc get_all_gpr_contract [OF assms(1), of "m_current_tid d" w]
    by (auto simp: get_gpr_def get_gpr_pointer_def enum_le split: prod.splits option.splits)
  with assms(2) pc show ?thesis
    by (cases pc) (auto simp: software_step_into_def single_step_impl_def)
qed

lemma debug_inv_step_into:
  assumes "regset_contract os view" and "tracee_contract os view s code"
    and "debug_inv le s code M0 d (view w)" and "step_into os d w = (r, d', w')"
  shows "debug_inv le s code M0 d' (view w')"
proof -
  obtain hw w1 where h: "hardware_step_into os d w = (hw, w1)" by (metis prod.exhaust)
  obtain q d2 w2 where sw: "software_step_into os d w1 = (q, d2, w2)" by (metis prod_cases3)
  have "debug_inv le s code M0 d (view w1)"
    by (rule debug_inv_calls [OF assms(2,3) hardware_step_calls [OF h]])
      (use assms(3) in \<open>simp_all add: debug_inv_def\<close>)
  moreover have "d' = d \<and> view w' = view w1"
    using assms(4) h sw software_step_idle [OF assms(1) sw]
    by (cases q) (auto simp: step_into_def split: if_splits)
  ultimately show ?thesis by simp
qed

lemma write_ran:
  assumes "memory_contract os view" and "k_space (view w) (m_pid d) = Some s"
    and "on_range (k_writable (view w) s) a (length buf)" and "\<And>x. code x \<Longrightarrow> length buf \<le> unat (x - a)"
    and "core_write_memory os a buf d w = (st, w')"
  shows "ran s code (view w) (view w')"
proof (cases "a \<le> 0 \<or> length buf \<le> 0")
  case True
  with assms(5) show ?thesis by (auto simp: core_write_memory_def split: if_splits)
next
  case False
  obtain ok w1 where wr: "write_memory os (m_pid d) a buf w = (ok, w1)" by (metis prod.exhaust)
  have "view w1 = put_mem s a buf (view w)"
    using write_memory_fast(2) [OF assms(1) wr _ assms(2,3)] False by simp
  moreover have "w' = w1" using assms(5) wr False by (auto simp: core_write_memory_def split: if_splits)
  ultimately show ?thesis
    using assms(4) by (auto simp: ran_def mem_write_def kstate_wf_def linorder_not_less [symmetric])
qed

lemma read_idle:
  assumes "memory_contract os view" and "core_read_memory os a buf d w = (st, buf', w')"
  shows "view w' = view w"
proof -
  obtain ok b w1 where rd: "read_memory os (m_pid d) a buf w = (ok, b, w1)" by (metis prod_cases3)
  with assms(2) read_memory_sound(1) [OF assms(1) rd] show ?thesis
    by (auto simp: core_read_memory_def split: if_splits)
qed

lemma debug_run_inv:
  assumes "memory_contract os view" and "regset_contract os view" and "tracee_contract os view s code"
    and "debug_run os view s code d w d' w'" and "debug_inv (os_little_endian os) s code M0 d (view w)"
  shows "debug_inv (os_little_endian os) s code M0 d' (view w')"
proof -
  have inv: "core_inv d" using assms(5) by (simp add: debug_inv_def)
  note calls = debug_inv_calls [OF assms(3,5)]
  from assms(4) show ?thesis
  proof (cases rule: debug_run.cases)
    case (Run_attach pid r)
    then show ?thesis by (intro calls) (auto dest: attach_calls attach_inv simp: inv)
  next
    case (Run_attach_package name r)
    then show ?thesis by (intro calls) (auto dest: attach_package_calls attach_package_inv simp: inv)
  next
    case (Run_detach st)
    then show ?thesis by (intro calls) (auto dest: detach_calls simp: inv)
  next
    case (Run_resume_thread tid st)
    then show ?thesis by (intro calls) (auto dest: resume_thread_calls simp: inv)
  next
    case (Run_pause_thread tid st)
    then show ?thesis by (intro calls) (auto dest: pause_thread_calls simp: inv)
  next
    case (Run_resume st)
    then show ?thesis by (intro calls) (auto dest: resume_calls simp: inv)
  next
    case (Run_pause st)
    then show ?thesis by (intro calls) (auto dest: pause_calls simp: inv)
  next
    case (Run_step_into r)
    then show ?thesis by (blast intro: debug_inv_step_into [OF assms(2,3,5)])
  next
    case (Run_step_over r)
    then show ?thesis by (blast intro: debug_inv_step_over [OF assms(1,2,3,5)])
  next
    case (Run_set_software a r)
    then show ?thesis by (blast intro: debug_inv_set_software [OF assms(1,5)])
  next
    case (Run_set_other type a r)
    then show ?thesis by (blast intro: debug_inv_set_other [of _ _ _ _ d view w, OF assms(5)])
  next
    case (Run_remove i st)
    then show ?thesis by (blast intro: debug_inv_remove [OF assms(1,2,5)])
  next
    case (Run_enable i st)
    then show ?thesis by (blast intro: debug_inv_enable [OF assms(1,2,5)])
  next
    case (Run_disable i st)
    then show ?thesis by (blast intro: debug_inv_disable [OF assms(1,2,5)])
  next
    case (Run_read_memory a buf st buf')
    then show ?thesis using read_idle [OF assms(1)] assms(5) by metis
  next
    case (Run_write_memory buf a st)
    have "ran s code (view w) (view w')"
      by (rule write_ran [OF assms(1) Run_write_memory(2,3) _ Run_write_memory(5)]) (rule Run_write_memory(4))
    then show ?thesis using debug_inv_ran [OF assms(5)] inv Run_write_memory(1) by blast
  next
    case (Run_switch_thread tid st)
    have "core_inv d'" "bp_manager d' = bp_manager d"
      using Run_switch_thread(2) inv
      by (auto simp: switch_thread_def core_inv_def threads_wf_def split: if_splits)
    then show ?thesis using debug_inv_ran [OF assms(5) ran_refl] Run_switch_thread(1) by simp
  next
    case Run_tracee
    then show ?thesis using debug_inv_ran [OF assms(5)] inv by blast
  qed
qed

lemma debugged_inv:
  assumes "memory_contract os view" and "regset_contract os view" and "tracee_contract os view s code"
  shows "debugged os view s code w0 d w \<Longrightarrow> debug_inv (os_little_endian os) s code (k_mem (view w0) s) d (view w)"
proof (induction rule: debugged.induct)
  case Debugged_start
  have none: "software (bp_manager DebuggerCore) i = None" for i
    by (simp add: DebuggerCore_def software_initial)
  show ?case
    by (rule debug_invI [OF core_inv_initial, of _ _ _ "k_mem (view w0) s"])
      (use Debugged_start none bm_wf_initial in \<open>simp_all add: covered_def refines_def overlay_def DebuggerCore_def\<close>)
next
  case (Debugged_next d w d' w')
  then show ?case using debug_run_inv [OF assms] by blast
qed


lemma tree_tracee_contract: "tracee_contract (tree_os tree) id s code"
proof -
  have "ran s code w w'" if "control_call (tree_os tree) w w'" for w w'
    using that
    by cases (auto simp: ran_def tree_os_def sim_os_def kstate_wf_def control_request_def
        split: if_splits option.splits ptrace_request.splits node.splits)
  then show ?thesis by (simp add: tracee_contract_def)
qed

lemma tree_calls:
  "os_vm_readv (tree_os tree) = os_vm_readv sim_os" "os_vm_writev (tree_os tree) = os_vm_writev sim_os"
  "os_ptrace (tree_os tree) = os_ptrace sim_os" "os_little_endian (tree_os tree) = os_little_endian sim_os"
  by (simp_all add: tree_os_def)

lemma tree_memory_contracts: "memory_contract (tree_os tree) id" "regset_contract (tree_os tree) id"
  using sim_memory_contract sim_regset_contract
  unfolding memory_contract_def regset_contract_def vm_readv_contract_def vm_writev_contract_def
    peekdata_contract_def pokedata_contract_def tree_calls by blast+

text \<open>Attach, then set a breakpoint at \<open>0x8000\<close>.\<close>

definition demo_set :: "(cxx_error + status \<times> int) \<times> debugger \<times> kstate" where
  "demo_set = set_breakpoint (tree_os demo_tree) 1 0x8000 demo_core (snd (snd demo_attach))"


end
