(* ===== verification/Session_Memory.thy ===== *)
theory Session_Memory
  imports Command_Answers Debugger_Memory
begin

text \<open>
  The tracee's memory as a client sees it: sessions of commands are runs of the debugger, and what
  \<open>read_memory\<close> answers for code is the code the program had when the debugger started.
\<close>

section \<open>Requests and what they may touch\<close>

text \<open>
  A request that keeps to the conditions of \<open>debug_run\<close>: breakpoints and steps at instructions in pages that
  can be read and written, writes to data only, and the process is not killed or replaced.  A request that
  is refused before it gets there has no condition.
\<close>

definition careful :: "'w platform \<Rightarrow> ('w \<Rightarrow> kstate) \<Rightarrow> nat \<Rightarrow> (u64 \<Rightarrow> bool) \<Rightarrow> string \<Rightarrow> string \<Rightarrow> debugger \<Rightarrow> 'w \<Rightarrow> bool" where
  "careful pl view s code cmd params d w \<longleftrightarrow>
     cmd \<noteq> ''kill'' \<and> cmd \<noteq> ''launch''
     \<and> (cmd = ''step_over'' \<longrightarrow> m_current_tid d \<in> set (m_tids d) \<and> m_next_breakpoint_id (bp_manager d) \<noteq> INT_MAX
          \<and> code_site (view w) s code (m_current_tid d) (pt_pc (k_gpr (view w) (m_current_tid d)) + 4))
     \<and> (cmd = ''set_breakpoint'' \<longrightarrow> (\<forall>j jt ja a. pl_parse pl params = Inr j \<and> number_member j ''type'' = Some jt
          \<and> number_member j ''address'' = Some ja \<and> get_int jt = Inr 1 \<and> get_u64 ja = Inr a \<longrightarrow>
          code_site (view w) s code (m_current_tid d) a \<and> m_next_breakpoint_id (bp_manager d) \<noteq> INT_MAX))
     \<and> (cmd = ''write_memory'' \<longrightarrow> (\<forall>j ja xs a buf. pl_parse pl params = Inr j \<and> number_member j ''address'' = Some ja
          \<and> json_member j ''data'' = Some (JArray xs) \<and> get_u64 ja = Inr a \<and> get_bytes xs = Inr buf \<longrightarrow>
          k_space (view w) (m_pid d) = Some s \<and> on_range (k_writable (view w) s) a (length buf)
          \<and> (\<forall>x. code x \<longrightarrow> length buf \<le> unat (x - a))))"

text \<open>Sessions in which the client keeps to that, and the tracee runs between requests.\<close>

inductive code_session ::
  "'w platform \<Rightarrow> ('w \<Rightarrow> kstate) \<Rightarrow> nat \<Rightarrow> (u64 \<Rightarrow> bool) \<Rightarrow> 'w \<Rightarrow> debugger \<Rightarrow> 'w \<Rightarrow> bool" for pl view s code w0 where
  Code_start: "kstate_wf (view w0) \<Longrightarrow> code_session pl view s code w0 DebuggerCore w0"
| Code_tracee: "code_session pl view s code w0 d w \<Longrightarrow> ran s code (view w) (view w') \<Longrightarrow>
    code_session pl view s code w0 d w'"
| Code_request: "code_session pl view s code w0 d w \<Longrightarrow> command_handler pl cmd = Some h \<Longrightarrow>
    careful pl view s code cmd params d w \<Longrightarrow> h params (d, w) = Some (r, (d', w')) \<Longrightarrow>
    code_session pl view s code w0 d' w'"

section \<open>Calls that leave memory alone\<close>

lemma regs_frame_ran: "regs_frame a b \<Longrightarrow> ran s code a b"
  by (simp add: regs_frame_def ran_def)

lemma set_gpr_ran:
  assumes "regset_contract os view" and "kstate_wf (view w)" and "set_gpr os tid reg v w = (ok, w')"
  shows "regs_frame (view w) (view w')"
proof -
  obtain r w1 where g: "get_all_gpr os tid w = (r, w1)" by (metis prod.exhaust)
  note c = get_all_gpr_contract [OF assms(1) g]
  have len: "length (pt_regs x) = 31" if "r = Some x" for x
    using c(2) [OF that] assms(2) by (simp add: kstate_wf_def)
  show ?thesis
    using assms(3) g c(1) len set_all_gpr_contract(1) [OF assms(1), of tid _ w1]
    by (auto simp: set_gpr_def split: option.splits)
qed

lemma set_fpr_ran:
  assumes "regset_contract os view" and "kstate_wf (view w)" and "set_fpr os tid reg v w = (ok, w')"
  shows "regs_frame (view w) (view w')"
proof -
  obtain r w1 where g: "get_all_fpr os tid w = (r, w1)" by (metis prod.exhaust)
  note c = get_all_fpr_contract [OF assms(1) g]
  have len: "length (fp_vregs x) = 32" if "r = Some x" for x
    using c(2) [OF that] assms(2) by (simp add: kstate_wf_def)
  show ?thesis
    using assms(3) g c(1) len set_all_fpr_contract(1) [OF assms(1), of tid _ w1]
    by (auto simp: set_fpr_def split: option.splits dest: fpr_store_wf)
qed

lemma get_register_idle:
  assumes "regset_contract os view"
  shows "get_gpr os tid reg w = (r, w') \<Longrightarrow> view w' = view w" "get_fpr os tid freg w = (q, w') \<Longrightarrow> view w' = view w"
  using get_all_gpr_contract(1) [OF assms, of tid w] get_all_fpr_contract(1) [OF assms, of tid w]
  by (auto simp: get_gpr_def get_fpr_def split: prod.splits option.splits)

lemma frame_wf: "regs_frame a b \<Longrightarrow> kstate_wf a \<Longrightarrow> kstate_wf b"
  by (simp add: regs_frame_def)

lemma write_loops_ran:
  assumes "regset_contract os view"
  shows "kstate_wf (view w) \<Longrightarrow> write_gprs os tid ms w = (r, w') \<Longrightarrow> regs_frame (view w) (view w')"
    and "kstate_wf (view w) \<Longrightarrow> write_fprs os tid ms w = (q, w'') \<Longrightarrow> regs_frame (view w) (view w'')"
proof (induction ms arbitrary: w)
  case (Cons m ms)
  {
    case 1
    have "regs_frame (view w) (view w')"
      if "set_gpr os tid reg v w = (ok, u)" "write_gprs os tid ms u = (r, w')" for reg v ok u
      using set_gpr_ran [OF assms 1(1) that(1)] Cons.IH(1) [OF frame_wf that(2)] 1(1) regs_frame_trans by blast
    with 1(2) set_gpr_ran [OF assms 1(1)] show ?case
      by (cases m) (auto simp: Let_def split: json.splits option.splits if_splits prod.splits)
  next
    case 2
    have "regs_frame (view w) (view w'')"
      if "set_fpr os tid reg v w = (ok, u)" "write_fprs os tid ms u = (q, w'')" for reg v ok u
      using set_fpr_ran [OF assms 2(1) that(1)] Cons.IH(2) [OF frame_wf that(2)] 2(1) regs_frame_trans by blast
    with 2(2) set_fpr_ran [OF assms 2(1)] show ?case
      by (cases m) (auto simp: Let_def split: json.splits sum.splits if_splits prod.splits)
  }
qed simp_all

lemma write_registers_ran:
  assumes "regset_contract os view" and "kstate_wf (view w)" and "write_registers os j d w = (r, w')"
  shows "regs_frame (view w) (view w')"
proof -
  obtain q w1 where g: "write_block (write_gprs os (m_current_tid d)) (json_member j ''GPR'') w = (q, w1)"
    by (metis prod.exhaust)
  obtain q2 w2 where f: "write_block (write_fprs os (m_current_tid d)) (json_member j ''FPR'') w1 = (q2, w2)"
    by (metis prod.exhaust)
  have 1: "regs_frame (view w) (view w1)"
    using g write_loops_ran(1) [OF assms(1,2)] by (auto simp: write_block_def split: option.splits json.splits)
  have 2: "regs_frame (view w1) (view w2)"
    using f write_loops_ran(2) [OF assms(1) frame_wf [OF 1 assms(2)]]
    by (auto simp: write_block_def split: option.splits json.splits)
  have "w' = w1 \<or> w' = w2" using assms(3) g f by (auto simp: write_registers_def split: sum.splits option.splits)
  then show ?thesis using 1 regs_frame_trans [OF 1 2] by auto
qed

lemma read_loops_idle:
  assumes "regset_contract os view"
  shows "read_gprs os tid names res w = (r, w') \<Longrightarrow> view w' = view w"
    and "read_fprs os tid names res w = (q, w'') \<Longrightarrow> view w'' = view w"
proof (induction names arbitrary: w res)
  case (Cons n names)
  {
    case 1
    then show ?case
      using Cons.IH(1) get_register_idle(1) [OF assms]
      by (cases n) (fastforce simp: Let_def split: option.splits if_splits prod.splits)+
  next
    case 2
    then show ?case
      using Cons.IH(2) get_register_idle(2) [OF assms]
      by (cases n) (fastforce simp: Let_def split: option.splits if_splits prod.splits)+
  }
qed simp_all

lemma read_registers_idle:
  assumes "regset_contract os view" and "read_registers os j res d w = (r, res', w')"
  shows "view w' = view w"
proof -
  note loops = read_loops_idle [OF assms(1)] and sets = get_all_gpr_contract(1) [OF assms(1)] get_all_fpr_contract(1) [OF assms(1)]
  have requests: "read_gpr_request os t req u = (q, u') \<Longrightarrow> view u' = view u"
    "read_fpr_request os t req u = (q, u') \<Longrightarrow> view u' = view u" for t req u q u'
    by (auto simp: read_gpr_request_def read_fpr_request_def split: json.splits if_splits prod.splits option.splits
        dest: loops sets)
  obtain q res1 w1 where g: "read_block (read_gpr_request os (m_current_tid d)) ''GPR'' j res w = (q, res1, w1)"
    by (metis prod_cases3)
  obtain q2 res2 w2 where f: "read_block (read_fpr_request os (m_current_tid d)) ''FPR'' j res1 w1 = (q2, res2, w2)"
    by (metis prod_cases3)
  have "view w1 = view w" "view w2 = view w1"
    using g f by (auto simp: read_block_def split: option.splits if_splits prod.splits sum.splits dest: requests)
  moreover have "w' = w1 \<or> w' = w2"
    using assms(2) g f by (auto simp: read_registers_def split: sum.splits option.splits)
  ultimately show ?thesis by auto
qed

section \<open>Every careful request is a run of the debugger\<close>

definition runs_debugger ::
  "'w platform \<Rightarrow> ('w \<Rightarrow> kstate) \<Rightarrow> nat \<Rightarrow> (u64 \<Rightarrow> bool) \<Rightarrow> string \<Rightarrow> 'w session_world handler \<Rightarrow> bool" where
  "runs_debugger pl view s code cmd h \<longleftrightarrow> (\<forall>params d w r d' w'.
     kstate_wf (view w) \<and> careful pl view s code cmd params d w \<and> h params (d, w) = Some (r, (d', w')) \<longrightarrow>
     debug_run (pl_os pl) view s code d w d' w')"

lemma run_idle [simp]: "debug_run os view s code d w d w"
  by (simp add: Run_tracee)

lemma run_view: "view w' = view w \<Longrightarrow> debug_run os view s code d w d w'"
  by (simp add: Run_tracee)

lemmas control_runs = Run_attach Run_attach_package Run_detach Run_resume Run_pause Run_step_into Run_remove Run_enable
  Run_disable Run_read_memory Run_switch_thread

lemma execution_runs:
  "runs_debugger pl view s code ''attach'' (handle_attach pl)" "runs_debugger pl view s code ''detach'' (handle_detach pl)"
  "runs_debugger pl view s code ''resume'' (handle_resume pl)" "runs_debugger pl view s code ''pause'' (handle_pause pl)"
  "runs_debugger pl view s code ''step_into'' (handle_step_into pl)"
  "runs_debugger pl view s code ''kill'' (handle_kill pl)" "runs_debugger pl view s code ''launch'' (handle_launch pl)"
  by (auto simp: runs_debugger_def careful_def with_json_def handle_attach_def handle_detach_def handle_resume_def
      handle_pause_def handle_step_into_def
      split: prod.splits sum.splits option.splits json.splits intro: control_runs)

lemma step_over_runs: "runs_debugger pl view s code ''step_over'' (handle_step_over pl)"
  by (auto simp: runs_debugger_def careful_def handle_step_over_def split: prod.splits intro: Run_step_over)

lemma query_runs:
  "runs_debugger pl view s code ''get_breakpoints'' (handle_get_breakpoints pl)"
  "runs_debugger pl view s code ''get_breakpoint'' (handle_get_breakpoint pl)"
  "runs_debugger pl view s code ''get_threads'' (handle_get_threads pl)"
  "runs_debugger pl view s code ''get_pid'' (handle_get_pid pl)"
  "runs_debugger pl view s code ''get_current_tid'' (handle_get_current_tid pl)"
  "runs_debugger pl view s code ''ping'' ping"
  by (auto simp: runs_debugger_def with_json_def number_member_def present_def answer_breakpoint_def Let_def
      handle_get_breakpoints_def handle_get_breakpoint_def handle_get_threads_def handle_get_pid_def
      handle_get_current_tid_def ping_def
      split: prod.splits sum.splits option.splits if_splits)

lemma switch_runs: "runs_debugger pl view s code ''switch_thread'' (handle_switch_thread pl)"
  by (auto simp: runs_debugger_def with_json_def handle_switch_thread_def
      split: prod.splits sum.splits option.splits intro: Run_switch_thread)

lemma breakpoint_runs:
  "runs_debugger pl view s code ''remove_breakpoint'' (handle_remove_breakpoint pl)"
  "runs_debugger pl view s code ''enable_breakpoint'' (handle_enable_breakpoint pl)"
  "runs_debugger pl view s code ''disable_breakpoint'' (handle_disable_breakpoint pl)"
  by (auto simp: runs_debugger_def with_json_def with_breakpoint_id_def handle_remove_breakpoint_def
      handle_enable_breakpoint_def handle_disable_breakpoint_def
      split: prod.splits sum.splits option.splits intro: control_runs)

lemma run_set_breakpoint:
  "type = 1 \<longrightarrow> code_site (view w) s code (m_current_tid d) a \<and> m_next_breakpoint_id (bp_manager d) \<noteq> INT_MAX \<Longrightarrow>
     set_breakpoint os type a d w = (r, d', w') \<Longrightarrow> debug_run os view s code d w d' w'"
  by (cases "type = 1") (auto intro: Run_set_software Run_set_other)

lemma run_write_memory:
  "k_space (view w) (m_pid d) = Some s \<and> on_range (k_writable (view w) s) a (length buf)
     \<and> (\<forall>x. code x \<longrightarrow> length buf \<le> unat (x - a)) \<Longrightarrow>
     core_write_memory os a buf d w = (st, w') \<Longrightarrow> debug_run os view s code d w d w'"
  by (blast intro: Run_write_memory)

lemma set_breakpoint_runs: "runs_debugger pl view s code ''set_breakpoint'' (handle_set_breakpoint pl)"
  by (auto simp: runs_debugger_def careful_def with_json_def handle_set_breakpoint_def
      split: prod.splits sum.splits option.splits intro: run_set_breakpoint)

lemma write_memory_runs: "runs_debugger pl view s code ''write_memory'' (handle_write_memory pl)"
  by (auto simp: runs_debugger_def careful_def with_json_def handle_write_memory_def
      split: prod.splits sum.splits option.splits json.splits intro: run_write_memory)

lemma read_memory_runs: "runs_debugger pl view s code ''read_memory'' (handle_read_memory pl)"
  by (auto simp: runs_debugger_def with_json_def handle_read_memory_def
      split: prod.splits sum.splits option.splits if_splits intro: Run_read_memory)

lemma regions_runs:
  assumes "tracee_contract (pl_os pl) view s code"
  shows "runs_debugger pl view s code ''get_memory_regions'' (handle_get_memory_regions pl)"
proof -
  have "ran s code (view w) (view w')" if "core_get_memory_regions (pl_os pl) [] d w = (r, w')" for d w r w'
  proof -
    have "control_calls (pl_os pl) w w'"
      using that by (auto simp: core_get_memory_regions_def get_memory_regions_def Let_def
          split: prod.splits sum.splits if_splits dest: file_open_calls)
    then show ?thesis by (rule calls_ran [OF assms])
  qed
  then show ?thesis
    by (auto simp: runs_debugger_def handle_get_memory_regions_def split: prod.splits sum.splits if_splits
        intro!: Run_tracee)
qed

lemma registers_runs:
  assumes "regset_contract (pl_os pl) view"
  shows "runs_debugger pl view s code ''read_registers'' (handle_read_registers pl)"
    and "runs_debugger pl view s code ''write_registers'' (handle_write_registers pl)"
  by (auto simp: runs_debugger_def with_json_def handle_read_registers_def handle_write_registers_def
      split: prod.splits sum.splits if_splits
      dest!: read_registers_idle [OF assms] write_registers_ran [OF assms]
      intro: run_view Run_tracee regs_frame_ran)

lemma command_runs:
  assumes "regset_contract (pl_os pl) view" and "tracee_contract (pl_os pl) view s code"
    and "command_handler pl cmd = Some h"
  shows "runs_debugger pl view s code cmd h"
proof -
  have "list_all (\<lambda>(c, h). runs_debugger pl view s code c h) (commands pl)"
    by (simp add: commands_def execution_runs step_over_runs query_runs switch_runs breakpoint_runs set_breakpoint_runs
        write_memory_runs read_memory_runs regions_runs [OF assms(2)] registers_runs [OF assms(1)])
  then show ?thesis
    using assms(3) query_runs(6) [of pl view s code]
    by (auto simp: command_handler_cases list_all_iff split: option.splits if_splits dest!: map_of_SomeD)
qed

lemma code_session_debugged:
  assumes "memory_contract (pl_os pl) view" and "regset_contract (pl_os pl) view"
    and "tracee_contract (pl_os pl) view s code"
  shows "code_session pl view s code w0 d w \<Longrightarrow> debugged (pl_os pl) view s code w0 d w"
proof (induction rule: code_session.induct)
  case Code_start
  then show ?case by (rule Debugged_start)
next
  case (Code_tracee d w w')
  then show ?case by (blast intro: Debugged_next Run_tracee)
next
  case (Code_request d w cmd h params r d' w')
  have "kstate_wf (view w)"
    using debugged_inv [OF assms Code_request.IH] by (auto simp: debug_inv_def keeps_code_def refines_def)
  then have "debug_run (pl_os pl) view s code d w d' w'"
    using command_runs [OF assms(2,3) Code_request(2)] Code_request(3,4) unfolding runs_debugger_def by blast
  then show ?case by (rule Debugged_next [OF Code_request.IH])
qed

section \<open>What a client reads\<close>


text \<open>Attach, set a breakpoint at \<open>0x8000\<close>, and read the instruction after it.\<close>

definition code_platform :: "kstate platform" where
  "code_platform = demo_platform\<lparr>pl_parse := (\<lambda>s.
     if s = ''code'' then Inr (JObject [(''address'', JInt 0x8004), (''size'', JInt 4)]) else pl_parse demo_platform s)\<rparr>"

definition code_attached :: "debugger \<times> kstate" where
  "code_attached = snd (the (handle_attach code_platform ''target'' (DebuggerCore, demo_kernel)))"

definition code_stop :: "debugger \<times> kstate" where
  "code_stop = snd (the (handle_set_breakpoint code_platform ''set'' (fst code_attached, snd code_attached)))"

lemma code_session_demo: "code_session code_platform id 0 (\<lambda>_. True) demo_kernel (fst code_stop) (snd code_stop)"
proof -
  have "handle_attach code_platform ''target'' (DebuggerCore, demo_kernel) \<noteq> None" by code_simp
  then obtain r where a: "handle_attach code_platform ''target'' (DebuggerCore, demo_kernel)
      = Some (r, (fst code_attached, snd code_attached))"
    by (auto simp: code_attached_def)
  have "handle_set_breakpoint code_platform ''set'' (fst code_attached, snd code_attached) \<noteq> None" by code_simp
  then obtain q where b: "handle_set_breakpoint code_platform ''set'' (fst code_attached, snd code_attached)
      = Some (q, (fst code_stop, snd code_stop))"
    by (auto simp: code_stop_def)
  have table: "command_handler code_platform ''attach'' = Some (handle_attach code_platform)"
    "command_handler code_platform ''set_breakpoint'' = Some (handle_set_breakpoint code_platform)"
    by (simp_all add: command_handler_cases commands_def)
  have p: "pl_parse code_platform ''set'' = Inr (JObject [(''address'', JInt 0x8000), (''type'', JInt 1)])" by code_simp
  have s: "code_site (snd code_attached) 0 (\<lambda>_. True) (m_current_tid (fst code_attached)) 0x8000"
    "m_next_breakpoint_id (bp_manager (fst code_attached)) \<noteq> INT_MAX"
    by code_simp+
  have "code_session code_platform id 0 (\<lambda>_. True) demo_kernel (fst code_attached) (snd code_attached)"
    by (rule Code_request [OF Code_start table(1) _ a]) (simp_all add: demo_kernel_wf careful_def)
  then show ?thesis
    by (rule Code_request [OF _ table(2) _ b]) (use s in \<open>auto simp: careful_def p number_member_def\<close>)
qed

lemma code_memory: "memory_contract (pl_os code_platform) id" "regset_contract (pl_os code_platform) id"
    "tracee_contract (pl_os code_platform) id s c"
  using tree_memory_contracts tree_tracee_contract by (simp_all add: code_platform_def demo_platform_def)


end
