(* ===== verification/Session_Breakpoints.thy ===== *)
theory Session_Breakpoints
  imports Session_Memory
begin

unbundle bit_operations_syntax

text \<open>
  What happens to the table of breakpoints over a session: no command but \<open>remove_breakpoint\<close> takes one from it,
  not even the end of the process it was set in, and what that means for the next process.
\<close>

section \<open>The table keeps its breakpoints\<close>

text \<open>Every breakpoint of the first table is in the second one; it may have been enabled or disabled.\<close>

definition keeps_breakpoints :: "breakpoint_manager \<Rightarrow> breakpoint_manager \<Rightarrow> bool" where
  "keeps_breakpoints m m' \<longleftrightarrow> (\<forall>i b. um_find (m_breakpoints m) i = Some b \<longrightarrow>
     (\<exists>e. um_find (m_breakpoints m') i = Some (b\<lparr>bp_enabled := e\<rparr>)))"

lemma same_flag [simp]: "\<exists>e. b = b\<lparr>bp_enabled := e\<rparr>" for b :: breakpoint
  by (rule exI [of _ "bp_enabled b"]) simp

lemma keeps_same: "m_breakpoints m' = m_breakpoints m \<Longrightarrow> keeps_breakpoints m m'"
  by (simp add: keeps_breakpoints_def)

lemma keeps_refl [simp]: "keeps_breakpoints m m"
  by (simp add: keeps_same)

lemma keeps_trans: "keeps_breakpoints a b \<Longrightarrow> keeps_breakpoints b c \<Longrightarrow> keeps_breakpoints a c"
  unfolding keeps_breakpoints_def by fastforce

lemma keeps_others:
  assumes "\<And>i b. um_find (m_breakpoints m) i = Some b \<Longrightarrow> um_find (m_breakpoints m') i = Some b"
  shows "keeps_breakpoints m m'"
  using assms by (simp add: keeps_breakpoints_def)

lemma set_software_keeps:
  assumes "bm_wf m" and "set_software_breakpoint os tid a m w = (r, m', w')"
  shows "keeps_breakpoints m m'"
  using assms
proof (cases rule: set_software_table)
  case (set n b)
  then show ?thesis by (intro keeps_others) (auto split: if_splits)
qed (simp add: keeps_same)

lemma remove_others:
  "remove_breakpoint os i m w = (st, m', w') \<Longrightarrow> j \<noteq> i \<Longrightarrow> um_find (m_breakpoints m') j = um_find (m_breakpoints m) j"
  by (auto simp: remove_breakpoint_def forget_breakpoint_def return_register_def Let_def
      split: option.splits if_splits prod.splits)

lemma put_keeps:
  "um_find (m_breakpoints m) i = Some b \<Longrightarrow> keeps_breakpoints m (put_breakpoint i (b\<lparr>bp_enabled := e\<rparr>) m)"
  by (auto simp: keeps_breakpoints_def put_breakpoint_def)

lemma enable_keeps: "enable os i m w = (st, m', w') \<Longrightarrow> keeps_breakpoints m m'"
  by (auto simp: enable_def Let_def put_keeps split: option.splits if_splits prod.splits)

lemma disable_keeps: "disable os i m w = (st, m', w') \<Longrightarrow> keeps_breakpoints m m'"
  by (auto simp: disable_def Let_def put_keeps split: option.splits if_splits prod.splits)

section \<open>No command but one takes a breakpoint away\<close>

lemma single_step_keeps:
  assumes "single_step_impl os mode d w = (r, d', w')" and "core_inv d"
  shows "keeps_breakpoints (bp_manager d) (bp_manager d')"
proof -
  have wf: "bm_wf (bp_manager d)" using assms(2) by (simp add: core_inv_def software_only_def)
  from assms(1) show ?thesis
  proof (cases rule: single_step_manager)
    case (set a u q m1 u')
    with set_software_keeps [OF wf set(1)] show ?thesis by simp
  next
    case (removed a u q m1 u' i v st m2 v')
    from wf removed(1) show ?thesis
    proof (cases rule: set_software_table)
      case refused
      with removed(4,5) show ?thesis by auto
    next
      case (set n b)
      then have "n = i" using removed(4) by simp
      have "um_find (m_breakpoints m2) j = Some c" if c: "um_find (m_breakpoints (bp_manager d)) j = Some c" for j c
      proof -
        have "j \<noteq> i" using set(6) \<open>n = i\<close> c by auto
        with remove_others [OF removed(2) this] set(7) \<open>n = i\<close> c show ?thesis by simp
      qed
      then show ?thesis unfolding removed(3) by (intro keeps_others) simp
    qed
  qed simp
qed

lemma set_breakpoint_keeps:
  assumes "set_breakpoint os type a d w = (r, d', w')" and "core_inv d"
  shows "keeps_breakpoints (bp_manager d) (bp_manager d')"
proof (cases "breakpoint_type_of type")
  case None
  with assms show ?thesis by (simp add: set_breakpoint_def)
next
  case (Some ty)
  have m: "software_only (bp_manager d)" using assms(2) by (simp add: core_inv_def)
  then have wf: "bm_wf (bp_manager d)" by (simp add: software_only_def)
  obtain q m1 w1 where run: "(if ty = SOFTWARE then set_software_breakpoint os (m_current_tid d) a (bp_manager d) w
      else set_hardware_breakpoint os (m_current_tid d) a ty (bp_manager d) w) = (q, m1, w1)" by (metis prod_cases3)
  then have "keeps_breakpoints (bp_manager d) m1"
    by (cases "ty = SOFTWARE") (auto intro: set_software_keeps [OF wf] keeps_same dest: set_hardware_only [OF m])
  moreover have "d' = d\<lparr>bp_manager := m1\<rparr>"
    using assms(1) Some run by (cases q) (auto simp: set_breakpoint_def)
  ultimately show ?thesis by simp
qed

lemma flag_keeps:
  "enable_breakpoint os i d w = (st, d', w') \<Longrightarrow> keeps_breakpoints (bp_manager d) (bp_manager d')"
  "disable_breakpoint os i d w = (st, d', w') \<Longrightarrow> keeps_breakpoints (bp_manager d) (bp_manager d')"
  by (auto simp: enable_breakpoint_def disable_breakpoint_def split: prod.splits dest: enable_keeps disable_keeps)

lemma step_keeps:
  "step_over os d w = (r, d', w') \<Longrightarrow> core_inv d \<Longrightarrow> keeps_breakpoints (bp_manager d) (bp_manager d')"
  "step_into os d w = (r, d', w') \<Longrightarrow> core_inv d \<Longrightarrow> keeps_breakpoints (bp_manager d) (bp_manager d')"
  by (auto simp: step_over_def step_into_def software_step_into_def split: prod.splits sum.splits if_splits
      dest: single_step_keeps)

lemma control_keeps:
  "attach os p d w = (r, d', w') \<Longrightarrow> bp_manager d' = bp_manager d"
  "attach_package os name d w = (r, d', w') \<Longrightarrow> bp_manager d' = bp_manager d"
  "kill os d w = (st, d', w') \<Longrightarrow> bp_manager d' = bp_manager d"
  "launch os activity d w = Some (r, d', w') \<Longrightarrow> bp_manager d' = bp_manager d"
  "switch_thread tid d = (st, d') \<Longrightarrow> bp_manager d' = bp_manager d"
  by (auto simp: kill_def switch_thread_def split: prod.splits if_splits
      dest: attach_calls attach_package_calls elim!: launch_cases)

definition handler_keeps :: "'w platform \<Rightarrow> 'w session_world handler \<Rightarrow> bool" where
  "handler_keeps pl h \<longleftrightarrow> (\<forall>params d w r d' w'. core_inv d \<and> h params (d, w) = Some (r, (d', w')) \<longrightarrow>
     keeps_breakpoints (bp_manager d) (bp_manager d'))"

lemma execution_keeps:
  "handler_keeps pl (handle_attach pl)" "handler_keeps pl (handle_launch pl)" "handler_keeps pl (handle_detach pl)"
  "handler_keeps pl (handle_kill pl)" "handler_keeps pl (handle_resume pl)" "handler_keeps pl (handle_pause pl)"
  "handler_keeps pl (handle_step_into pl)" "handler_keeps pl (handle_step_over pl)"
  by (auto simp: handler_keeps_def with_json_def handle_attach_def handle_launch_def handle_detach_def handle_kill_def
      handle_resume_def handle_pause_def handle_step_into_def handle_step_over_def
      split: sum.splits option.splits json.splits prod.splits dest: control_keeps step_keeps)

lemma memory_keeps:
  "handler_keeps pl (handle_read_memory pl)" "handler_keeps pl (handle_write_memory pl)"
  "handler_keeps pl (handle_get_memory_regions pl)" "handler_keeps pl (handle_read_registers pl)"
  "handler_keeps pl (handle_write_registers pl)"
  by (auto simp: handler_keeps_def with_json_def handle_read_memory_def handle_write_memory_def
      handle_get_memory_regions_def handle_read_registers_def handle_write_registers_def
      split: sum.splits option.splits json.splits prod.splits if_splits)

lemma breakpoint_keeps:
  "handler_keeps pl (handle_set_breakpoint pl)" "handler_keeps pl (handle_enable_breakpoint pl)"
  "handler_keeps pl (handle_disable_breakpoint pl)"
  by (auto simp: handler_keeps_def with_json_def handle_set_breakpoint_def handle_enable_breakpoint_def
      handle_disable_breakpoint_def with_breakpoint_id_def
      split: sum.splits option.splits prod.splits if_splits dest: set_breakpoint_keeps flag_keeps)

lemma query_keeps:
  "handler_keeps pl (handle_get_breakpoints pl)" "handler_keeps pl (handle_get_breakpoint pl)"
  "handler_keeps pl (handle_get_threads pl)" "handler_keeps pl (handle_switch_thread pl)"
  "handler_keeps pl (handle_get_pid pl)" "handler_keeps pl (handle_get_current_tid pl)" "handler_keeps pl ping"
  by (auto simp: handler_keeps_def with_json_def number_member_def present_def answer_breakpoint_def Let_def
      handle_get_breakpoints_def handle_get_breakpoint_def handle_get_threads_def
      handle_switch_thread_def handle_get_pid_def handle_get_current_tid_def ping_def
      split: sum.splits option.splits prod.splits if_splits dest: control_keeps)

lemma command_keeps:
  assumes "command_handler pl cmd = Some h" and "cmd \<noteq> ''remove_breakpoint''"
  shows "handler_keeps pl h"
proof -
  have "list_all (\<lambda>(c, h). c = ''remove_breakpoint'' \<or> handler_keeps pl h) (commands pl)"
    by (simp add: commands_def execution_keeps memory_keeps breakpoint_keeps query_keeps)
  then show ?thesis
    using assms query_keeps(7) [of pl]
    by (auto simp: command_handler_cases list_all_iff split: option.splits if_splits dest!: map_of_SomeD)
qed

section \<open>Sequences of requests\<close>

text \<open>The state after the requests of a client, none of which hangs; an unknown command does nothing.\<close>

primrec run_requests :: "'w platform \<Rightarrow> (string \<times> string) list \<Rightarrow> 'w session_world \<Rightarrow> 'w session_world option" where
  "run_requests pl [] s = Some s"
| "run_requests pl (q # qs) s =
     (case command_handler pl (fst q) of
        None \<Rightarrow> run_requests pl qs s
      | Some h \<Rightarrow> (case h (snd q) s of None \<Rightarrow> None | Some (r, s') \<Rightarrow> run_requests pl qs s'))"

lemma run_requests_reachable:
  "run_requests pl qs s = Some s' \<Longrightarrow> session_reachable pl s \<Longrightarrow> session_reachable pl s'"
  by (induction qs arbitrary: s) (auto split: option.splits prod.splits intro: Served_handler)

lemma session_inv: "session_reachable pl s \<Longrightarrow> core_inv (fst s)"
  using core_reachable_inv [OF session_core] by blast

lemma run_requests_keeps:
  assumes "run_requests pl qs s = Some s'" and "session_reachable pl s"
    and "\<forall>q \<in> set qs. fst q \<noteq> ''remove_breakpoint''"
  shows "keeps_breakpoints (bp_manager (fst s)) (bp_manager (fst s'))"
  using assms
proof (induction qs arbitrary: s)
  case (Cons q qs)
  show ?case
  proof (cases "command_handler pl (fst q)")
    case None
    with Cons show ?thesis by simp
  next
    case (Some h)
    then obtain r t where h: "h (snd q) s = Some (r, t)" and rest: "run_requests pl qs t = Some s'"
      using Cons.prems(1) by (auto split: option.splits)
    have "handler_keeps pl h" using command_keeps [OF Some] Cons.prems(3) by simp
    then have "keeps_breakpoints (bp_manager (fst s)) (bp_manager (fst t))"
      using h session_inv [OF Cons.prems(2)] unfolding handler_keeps_def by (metis prod.collapse)
    moreover have "keeps_breakpoints (bp_manager (fst t)) (bp_manager (fst s'))"
      using Cons.IH [OF rest Served_handler [OF Cons.prems(2) Some h]] Cons.prems(3) by simp
    ultimately show ?thesis by (rule keeps_trans)
  qed
qed simp

section \<open>Breakpoints of a process that has ended\<close>

text \<open>Writing to memory makes no address spaces: a thread without one stays without one.\<close>

definition space_contract :: "'w os \<Rightarrow> ('w \<Rightarrow> kstate) \<Rightarrow> bool" where
  "space_contract os view \<longleftrightarrow> (\<forall>p a bs w. k_space (view (snd (os_vm_writev os p a bs w))) = k_space (view w))"

lemma write_to_nothing:
  assumes "memory_contract os view" and "space_contract os view" and "k_space (view w) p = None"
    and "length bs = 4" and "write_memory os p a bs w = (ok, w')"
  shows "\<not> ok"
proof -
  have c: "vm_writev_contract os view" "peekdata_contract os view" using assms(1) by (simp_all add: memory_contract_def)
  obtain ret w1 where wv: "os_vm_writev os p a bs w = (ret, w1)" by (metis prod.exhaust)
  have none: "k_space (view w1) p = None" using assms(2,3) wv unfolding space_contract_def by (metis snd_conv)
  have "bs \<noteq> []" using assms(4) by auto
  then have ret: "ret \<noteq> int (length bs)" using writev_sound(1) [OF c(1) wv] assms(3) by auto
  obtain r w2 where pk: "os_ptrace os (PTRACE_PEEKDATA a) p w1 = (r, w2)" by (metis prod.exhaust)
  have "\<not> reply_ok r" using c(2) pk none unfolding peekdata_contract_def by (metis option.distinct(1))
  then have "ptrace_wrapper os (PTRACE_PEEKDATA a) p w1 = (False, r, w2)" using pk by (simp add: ptrace_wrapper_iff)
  then have "write_memory_ptrace_loop os p a bs 0 w1 = (False, w2)"
    using assms(4) by (simp add: write_memory_ptrace_loop.simps)
  with assms(5) wv ret show ?thesis by (simp add: write_memory_def write_memory_ptrace_def)
qed

text \<open>
  C11: Breakpoints outlive their process.  After any requests but \<open>remove_breakpoint\<close>, killing the process,
  detaching from it and attaching to another included, a breakpoint is still in the table with its address and
  thread, and setting a breakpoint at that address is refused without a look at the process attached to;
  and once the thread's memory cannot be reached any more, \<open>remove_breakpoint\<close> cannot remove it either.
\<close>

theorem breakpoints_outlive_their_process:
  assumes "session_reachable pl s" and "b \<in> set (get_breakpoints (bp_manager (fst s)))"
    and "run_requests pl qs s = Some (d', w')" and "\<forall>q \<in> set qs. fst q \<noteq> ''remove_breakpoint''"
    and "pl_parse pl params = Inr j" and "number_member j ''type'' = Some jt" and "number_member j ''address'' = Some ja"
    and "get_int jt = Inr 1" and "get_u64 ja = Inr (bp_address b)"
    and "memory_contract (pl_os pl) view" and "space_contract (pl_os pl) view"
    and "pl_parse pl params' = Inr j'" and "number_member j' ''breakpoint_id'' = Some ji" and "get_int ji = Inr (bp_id b)"
  shows "(\<exists>e. b\<lparr>bp_enabled := e\<rparr> \<in> set (get_breakpoints (bp_manager d')))
    \<and> (\<exists>st. handle_set_breakpoint pl params (d', w') = Some (Inr st, (d', w')) \<and> is_fail st)
    \<and> (k_space (view w') (bp_tid b) = None \<longrightarrow>
         (\<exists>st w''. handle_remove_breakpoint pl params' (d', w') = Some (Inr st, (d', w'')) \<and> is_fail st))"
proof -
  let ?m = "bp_manager (fst s)" and ?m' = "bp_manager d'"
  have wf: "bm_wf ?m" "bm_wf ?m'" and soft: "software_only ?m"
    using session_inv [OF assms(1)] session_inv [OF run_requests_reachable [OF assms(3,1)]]
    by (simp_all add: core_inv_def software_only_def)
  have "um_find (m_breakpoints ?m) (bp_id b) = Some b" using bps_found [OF wf(1) assms(2)] .
  then obtain e where e: "um_find (m_breakpoints ?m') (bp_id b) = Some (b\<lparr>bp_enabled := e\<rparr>)"
    using run_requests_keeps [OF assms(3,1,4)] unfolding keeps_breakpoints_def by auto
  have listed: "b\<lparr>bp_enabled := e\<rparr> \<in> set (get_breakpoints ?m')"
    using breakpoints_of_table [OF wf(2)] e by simp
  have "bp_address b \<in> set (map bp_address (get_breakpoints ?m'))"
    unfolding set_map by (rule image_eqI [OF _ listed]) simp
  moreover have "bp_address b AND 3 = 0"
    using wf(1) \<open>um_find (m_breakpoints ?m) (bp_id b) = Some b\<close> unfolding bm_wf_def table_ok_def insn_aligned_def by blast
  ultimately have "set_software_breakpoint (pl_os pl) t (bp_address b) ?m' w' = (Inr (-1), ?m', w')" for t
    using set_breakpoint_refused [of "bp_address b" "pl_os pl" t ?m' w'] by blast
  then have "\<exists>st. handle_set_breakpoint pl params (d', w') = Some (Inr st, (d', w')) \<and> is_fail st"
    using assms(5-9) by (simp add: handle_set_breakpoint_def with_json_def set_breakpoint_def breakpoint_type_of_def)
  moreover have "\<exists>st w''. handle_remove_breakpoint pl params' (d', w') = Some (Inr st, (d', w'')) \<and> is_fail st"
    if "k_space (view w') (bp_tid b) = None"
  proof -
    obtain ok w'' where wr: "write_memory (pl_os pl) (bp_tid b) (bp_address b)
        (host_bytes (os_little_endian (pl_os pl)) 4 (original_instruction b)) w' = (ok, w'')" by (metis prod.exhaust)
    have "\<not> ok" by (rule write_to_nothing [OF assms(10,11) that _ wr]) simp
    moreover have "bp_type b = SOFTWARE"
      using soft \<open>um_find (m_breakpoints ?m) (bp_id b) = Some b\<close> by (simp add: software_only_def)
    ultimately show ?thesis
      using assms(12-14) e wr
      by (simp add: handle_remove_breakpoint_def with_breakpoint_id_def with_json_def core_remove_breakpoint_def
          remove_breakpoint_def)
  qed
  ultimately show ?thesis using listed by blast
qed

text \<open>A kernel in which \<open>SIGKILL\<close> ends the process: its threads have no address space any more.\<close>

definition mortal_platform :: "kstate platform" where
  "mortal_platform = demo_platform\<lparr>pl_os := (tree_os demo_tree)
     \<lparr>os_kill := (\<lambda>p sig w. (0, if sig = SIGKILL then w\<lparr>k_space := (\<lambda>_. None)\<rparr> else w))\<rparr>\<rparr>"

definition mortal_attached :: "debugger \<times> kstate" where
  "mortal_attached = snd (the (handle_attach mortal_platform ''target'' (DebuggerCore, demo_kernel)))"

definition mortal_set :: "debugger \<times> kstate" where
  "mortal_set = snd (the (handle_set_breakpoint mortal_platform ''set'' mortal_attached))"

definition mortal_killed :: "debugger \<times> kstate" where
  "mortal_killed = snd (the (handle_kill mortal_platform [] mortal_set))"

lemma mortal_runs:
  "run_requests mortal_platform [(''attach'', ''target''), (''set_breakpoint'', ''set'')] (DebuggerCore, demo_kernel)
     = Some mortal_set"
  "run_requests mortal_platform [(''kill'', [])] mortal_set = Some mortal_killed"
proof -
  have "handle_attach mortal_platform ''target'' (DebuggerCore, demo_kernel) \<noteq> None"
    "handle_set_breakpoint mortal_platform ''set'' mortal_attached \<noteq> None"
    "handle_kill mortal_platform [] mortal_set \<noteq> None"
    by code_simp+
  moreover have "command_handler mortal_platform ''attach'' = Some (handle_attach mortal_platform)"
    "command_handler mortal_platform ''set_breakpoint'' = Some (handle_set_breakpoint mortal_platform)"
    "command_handler mortal_platform ''kill'' = Some (handle_kill mortal_platform)"
    by (simp_all add: command_handler_cases commands_def)
  ultimately show "run_requests mortal_platform [(''attach'', ''target''), (''set_breakpoint'', ''set'')]
      (DebuggerCore, demo_kernel) = Some mortal_set"
    "run_requests mortal_platform [(''kill'', [])] mortal_set = Some mortal_killed"
    by (auto simp: mortal_attached_def mortal_set_def mortal_killed_def)
qed

lemma mortal_contracts: "memory_contract (pl_os mortal_platform) id" "space_contract (pl_os mortal_platform) id"
proof -
  have "os_vm_readv (pl_os mortal_platform) = os_vm_readv sim_os" "os_vm_writev (pl_os mortal_platform) = os_vm_writev sim_os"
    "os_ptrace (pl_os mortal_platform) = os_ptrace sim_os" "os_little_endian (pl_os mortal_platform) = os_little_endian sim_os"
    by (simp_all add: mortal_platform_def tree_os_def)
  note same = this
  show "memory_contract (pl_os mortal_platform) id"
    using sim_memory_contract unfolding memory_contract_def vm_readv_contract_def vm_writev_contract_def
      peekdata_contract_def pokedata_contract_def same by blast
  show "space_contract (pl_os mortal_platform) id"
    unfolding space_contract_def same by (auto simp: sim_vm_writev_def put_mem_def split: option.splits)
qed

theorem breakpoints_outlive_their_process_witness:
  "m_pid (fst mortal_killed) = -1
     \<and> (\<exists>st. handle_set_breakpoint mortal_platform ''set'' mortal_killed = Some (Inr st, mortal_killed) \<and> is_fail st)
     \<and> (\<exists>st w. handle_remove_breakpoint mortal_platform ''id'' mortal_killed = Some (Inr st, (fst mortal_killed, w)) \<and> is_fail st)"
proof -
  have "map (\<lambda>b. (bp_id b, bp_tid b, bp_address b)) (get_breakpoints (bp_manager (fst mortal_set))) = [(1, 100, 0x8000)]"
    by code_simp
  then obtain b where b: "b \<in> set (get_breakpoints (bp_manager (fst mortal_set)))" "bp_id b = 1" "bp_tid b = 100"
      "bp_address b = 0x8000" by auto
  have p: "pl_parse mortal_platform ''set'' = Inr (JObject [(''address'', JInt 0x8000), (''type'', JInt 1)])"
    "pl_parse mortal_platform ''id'' = Inr (JObject [(''breakpoint_id'', JInt 1)])"
    by code_simp+
  have k: "m_pid (fst mortal_killed) = -1" "k_space (snd mortal_killed) 100 = None" by code_simp+
  have run: "run_requests mortal_platform [(''kill'', [])] mortal_set = Some (fst mortal_killed, snd mortal_killed)"
    using mortal_runs(2) by simp
  from breakpoints_outlive_their_process [OF run_requests_reachable [OF mortal_runs(1) Served_start] b(1) run _ p(1) _ _ _ _
      mortal_contracts p(2)]
  show ?thesis using k b(2-4) by (fastforce simp: number_member_def)
qed

end
