(* ===== verification/Launch_Effects.thy ===== *)
theory Launch_Effects
  imports Debugger_Launch
begin

unbundle bit_operations_syntax

text \<open>
  What \<open>launch\<close> achieves: when it is a success the debugger is attached, with its threads stopped, to a process
  whose command line is the package asked for; otherwise the debugger is as it was.
\<close>

section \<open>The wait for the fork\<close>

text \<open>Some process had the package's name when its command line was read.\<close>

definition named_process :: "'w os \<Rightarrow> string \<Rightarrow> pid \<Rightarrow> bool" where
  "named_process os name p \<longleftrightarrow> (\<exists>u u'. find_package_name_by_pid os p u = (Some name, u'))"

definition event_result :: "'w os \<Rightarrow> string \<Rightarrow> status + pid \<Rightarrow> bool" where
  "event_result os name r \<longleftrightarrow> (case r of Inl st \<Rightarrow> is_fail st | Inr p \<Rightarrow> named_process os name p)"

lemma zygote_event_result:
  "zygote_event os z name status w = (Inl st, w') \<Longrightarrow> is_fail st"
  "zygote_event os z name status w = (Inr (Some p), w') \<Longrightarrow> named_process os name p"
  by (auto simp: zygote_event_def named_process_def Let_def split: if_splits prod.splits option.splits)

lemma launch_loop_result:
  "launch_loop os z name start_time status w = Some (r, w') \<Longrightarrow> event_result os name r"
proof -
  have "event_result os name (fst q)" if run: "launch_loop os z name start_time status w = Some q" for q
  proof (rule launch_loop.raw_induct [OF _ run, where P = "\<lambda>os z name start_time status w q. event_result os name (fst q)"])
    fix loop and os :: "'w os" and z name start_time status w q
    assume IH: "\<And>os z name start_time status w q. loop os z name start_time status w = Some q \<Longrightarrow> event_result os name (fst q)"
      and body: "(let (now, w1) = os_clock os w in
      if elapsed_seconds start_time now > TIMEOUT_SEC
      then Some (Inl (status_fail (Note ''timeout'')), ptrace_ignored os PTRACE_DETACH z w1)
      else
        (let (wpid, status1, w2) = waitpid_wrapper os (-1) status (WAIT_WALL OR WAIT_WNOHANG) w1 in
         if wpid < 0
         then Some (Inl (status_fail (Note ''waiting for an event failed'')), ptrace_ignored os PTRACE_DETACH z w2)
         else if wpid = 0 then loop os z name start_time status1 (os_sleep os 50 w2)
         else if wpid = z then
           (let (event, w3) = zygote_event os z name status1 w2 in
            case event of
              Inl st \<Rightarrow> Some (Inl st, w3)
            | Inr found \<Rightarrow>
                (case found of
                   None \<Rightarrow> loop os z name start_time status1 w3
                 | Some app_pid \<Rightarrow> Some (Inr app_pid, w3)))
         else loop os z name start_time status1 (ptrace_ignored os PTRACE_CONT wpid w2))) = Some q"
    obtain now w1 where c: "os_clock os w = (now, w1)" by (metis prod.exhaust)
    obtain wpid status1 w2 where wt: "waitpid_wrapper os (-1) status (WAIT_WALL OR WAIT_WNOHANG) w1 = (wpid, status1, w2)"
      by (metis prod_cases3)
    obtain ev w3 where e: "zygote_event os z name status1 w2 = (ev, w3)" by (metis prod.exhaust)
    note IH' = IH [of os z name start_time status1 _ q]
    show "event_result os name (fst q)"
      using body c wt e IH' zygote_event_result [of os z name status1 w2]
      by (cases ev) (auto simp: event_result_def split: if_splits option.splits)
  qed
  then show "launch_loop os z name start_time status w = Some (r, w') \<Longrightarrow> event_result os name r" by fastforce
qed

lemma launch_result:
  assumes "launch os package_activity d w = Some (r, d', w')"
  obtains (refused) "\<forall>st. r = Inr st \<longrightarrow> is_fail st" "d' = d"
  | (caught) p z u where "named_process os (package_of package_activity) p" "attach_launched os z p d u = (r, d', w')"
proof -
  let ?name = "package_of package_activity"
  obtain stop_ret w1 where a: "os_system os (c_str (''am force-stop '' @ ?name)) w = (stop_ret, w1)" by (metis prod.exhaust)
  obtain zs w3 where f: "find_zygotes os (os_sleep os 300 w1) = (zs, w3)" by (metis prod.exhaust)
  obtain q status w4 where t: "trace_zygote os (hd (projr zs)) w3 = ((q, status), w4)" by (metis prod.exhaust)
  obtain ret w5 where st: "os_system os (c_str (''am start -n '' @ package_activity)) w4 = (ret, w5)" by (metis prod.exhaust)
  obtain start_time w6 where c: "os_clock os w5 = (start_time, w6)" by (metis prod.exhaust)
  have q: "is_fail st" if "q = Some st" for st
    using t that by (auto simp: trace_zygote_def split: prod.splits if_splits)
  consider (no) "\<forall>st. r = Inr st \<longrightarrow> is_fail st" "d' = d"
    | (loop) ev w7 where "launch_loop os (hd (projr zs)) ?name start_time status w6 = Some (ev, w7)"
        "case ev of Inl st \<Rightarrow> r = Inr st \<and> d' = d | Inr p \<Rightarrow> attach_launched os (hd (projr zs)) p d w7 = (r, d', w')"
    using assms a f t st c q
    by (auto simp: launch_def Let_def split: sum.splits list.splits option.splits if_splits)
  then show thesis
  proof cases
    case no
    then show thesis by (rule refused)
  next
    case (loop ev w7)
    with launch_loop_result [OF loop(1)] refused caught show thesis
      by (cases ev) (auto simp: event_result_def)
  qed
qed


text \<open>The running process of \<open>live_os\<close> beside a zygote that reports its fork.\<close>

definition launch_os :: "kstate os" where
  "launch_os = live_os
     \<lparr>os_ptrace := \<lambda>req p st. if req = PTRACE_GETEVENTMSG then ((reply_word 0)\<lparr>reply_event := 100\<rparr>, st) else sim_ptrace req p st,
      os_waitpid := \<lambda>p status options st. if p = -1 \<and> k_space st p = None then ((77, 0x1057F), st)
        else os_waitpid sim_os p status options st,
      os_open_file := \<lambda>p st. if p = ''/proc/100/cmdline'' then (Some ''com.demo.app'', st) else os_open_file live_os p st,
      os_popen := \<lambda>cmd st. (Some (''USER PID PPID VSZ RSS WCHAN ADDR S ARGS'' @ newline #
        ''root 77 1 10 20 0 0 S zygote64''), st)\<rparr>"

definition launch_kernel :: kstate where
  "launch_kernel = free_kernel\<lparr>k_space := (k_space free_kernel)(77 \<mapsto> 1)\<rparr>"

lemma launch_attach_contract: "attach_contract launch_os id"
  by (auto simp: attach_contract_def launch_os_def sim_os_def still_stopped_def split: if_splits)

lemma launch_states: "states_contract launch_os id"
proof -
  have "last (proc_path p ''status'') \<noteq> last ''/proc/100/cmdline''" for p
    by (simp add: proc_path_def)
  then have "proc_path p ''status'' \<noteq> ''/proc/100/cmdline''" for p by metis
  then have "parse_status launch_os p w = parse_status live_os p w" for p w
    by (simp add: parse_status_def file_open_def file_open_as_def open_path_def check_directory_type_def
        launch_os_def live_os_def tree_os_def)
  then have "get_process_state launch_os p w = get_process_state live_os p w" for p w
    by (simp add: get_process_state_def get_process_state_char_def)
  moreover have "reads_quiet launch_os id"
    by (simp add: reads_quiet_def launch_os_def live_os_def tree_os_def sim_os_def)
  ultimately show ?thesis using live_states by (simp add: states_contract_def)
qed

definition launch_traced :: kstate where
  "launch_traced = snd (trace_zygote launch_os 77 launch_kernel)"

definition launch_caught :: kstate where
  "launch_caught = snd (zygote_event launch_os 77 ''com.demo.app'' 0x1057F launch_traced)"

definition launch_end :: "(cxx_error + status) \<times> debugger \<times> kstate" where
  "launch_end = attach_launched launch_os 77 100 DebuggerCore launch_caught"

lemma launch_zygotes: "find_zygotes launch_os w = (Inr [77], w)"
proof -
  let ?txt = "''USER PID PPID VSZ RSS WCHAN ADDR S ARGS'' @ newline # ''root 77 1 10 20 0 0 S zygote64''"
  have "drop 1 (map ps_line (fgets_lines ?txt)) = [''root 77 1 10 20 0 0 S zygote64'']" by code_simp
  moreover have "split_by_space ''root 77 1 10 20 0 0 S zygote64''
      = [''root'', ''77'', ''1'', ''10'', ''20'', ''0'', ''0'', ''S'', ''zygote64'']" by code_simp
  moreover have "stoi ''77'' = Inr 77" "stoi ''1'' = Inr 1" by code_simp+
  moreover have "stoull 10 ''10'' = Inr 10" "stoull 10 ''20'' = Inr 20"
    using stoull_show_nat [of 10] stoull_show_nat [of 20] by (simp_all add: show_nat.simps hex_digits_def)
  ultimately have "get_items launch_os w = (Inr [\<lparr>ps_user = ''root'', ps_pid = 77, ps_ppid = 1, ps_vsz = 10, ps_rss = 20,
      ps_wchan = ''0'', ps_addr = ''0'', ps_state = char_to_process_state CHR ''S'', ps_name = ''zygote64''\<rparr>], w)"
    by (simp add: get_items_def launch_os_def parse_single_line_def)
  then show ?thesis by (simp add: find_zygotes_def find_pid_by_process_name_def name_matches_def)
qed

lemma launch_run: "launch launch_os ''com.demo.app/.Main'' DebuggerCore launch_kernel = Some launch_end"
proof -
  have idle: "os_system launch_os cmd u = (0, u)" "os_sleep launch_os n u = u" "os_clock launch_os u = (0, u)" for cmd n u
    by (simp_all add: launch_os_def live_os_def tree_os_def sim_os_def)
  have name: "package_of ''com.demo.app/.Main'' = ''com.demo.app''" by (simp add: package_of_def)
  have "fst (trace_zygote launch_os 77 launch_kernel) = (None, 0x57F)" by code_simp
  then have t: "trace_zygote launch_os 77 launch_kernel = ((None, 0x57F), launch_traced)"
    by (metis prod.collapse launch_traced_def)
  have "k_space launch_traced (-1) = None" by code_simp
  then have wt: "waitpid_wrapper launch_os (-1) s options launch_traced = (77, 0x1057F, launch_traced)" for s options
    by (simp add: waitpid_wrapper_def launch_os_def)
  have "fst (zygote_event launch_os 77 ''com.demo.app'' 0x1057F launch_traced) = Inr (Some 100)" by code_simp
  then have e: "zygote_event launch_os 77 ''com.demo.app'' 0x1057F launch_traced = (Inr (Some 100), launch_caught)"
    by (metis prod.collapse launch_caught_def)
  have "launch_loop launch_os 77 ''com.demo.app'' 0 0x57F launch_traced = Some (Inr 100, launch_caught)"
    by (subst launch_loop.simps) (simp add: idle wt e elapsed_seconds_def TIMEOUT_SEC_def)
  then show ?thesis by (simp add: launch_def name idle launch_zygotes t launch_end_def)
qed


end
