(* ===== verification/Answer_Types.thy ===== *)
theory Answer_Types
  imports Session_Breakpoints Launch_Effects
begin

text \<open>
  The types of the answers: for every command the shape of the JSON document it is answered with, its numbers
  within the C++ type they come from, and that every answer of every session has the type of its command.
\<close>

section \<open>Types of documents\<close>

text \<open>
  \<open>TRecord\<close> is an object with exactly these members, in the order of their names; \<open>TOptional\<close> one with some of
  them; \<open>TMembers\<close> one whose members all have the type.
\<close>

datatype answer_type =
    TNull | TBool | TText | THex | TRange int int
  | TArray answer_type
  | TMembers answer_type
  | TEither answer_type answer_type
  | TRecord "(string \<times> answer_type) list"
  | TOptional "(string \<times> answer_type) list"

definition hex_text :: "string \<Rightarrow> bool" where
  "hex_text s \<longleftrightarrow> take 2 s = ''0x'' \<and> drop 2 s \<noteq> [] \<and> list_all (\<lambda>c. c \<in> set hex_digits) (drop 2 s)"

fun has_type :: "json \<Rightarrow> answer_type \<Rightarrow> bool"
  and has_members :: "(string \<times> json) list \<Rightarrow> (string \<times> answer_type) list \<Rightarrow> bool"
  and some_members :: "(string \<times> json) list \<Rightarrow> (string \<times> answer_type) list \<Rightarrow> bool" where
  "has_type (JArray xs) (TArray t) = (\<forall>x \<in> set xs. has_type x t)"
| "has_type (JObject ms) (TMembers t) = (\<forall>m \<in> set ms. has_type (snd m) t)"
| "has_type (JObject ms) (TRecord fs) = has_members ms fs"
| "has_type (JObject ms) (TOptional fs) = some_members ms fs"
| "has_type j (TEither t u) = (has_type j t \<or> has_type j u)"
| "has_type JNull TNull = True"
| "has_type (JBool b) TBool = True"
| "has_type (JString s) TText = True"
| "has_type (JString s) THex = hex_text s"
| "has_type (JInt i) (TRange lo hi) = (lo \<le> i \<and> i \<le> hi)"
| "has_type _ _ = False"
| "has_members [] [] = True"
| "has_members ((k, v) # ms) ((f, t) # fs) = (k = f \<and> has_type v t \<and> has_members ms fs)"
| "has_members _ _ = False"
| "some_members ms [] = (ms = [])"
| "some_members [] fs = True"
| "some_members ((k, v) # ms) ((f, t) # fs) =
     (if k = f then has_type v t \<and> some_members ms fs else some_members ((k, v) # ms) fs)"

section \<open>The types of the commands\<close>

definition TId :: answer_type where "TId = TRange 1 INT_MAX"
definition TThread :: answer_type where "TThread = TRange 0 INT_MAX"
definition TThreadOrNone :: answer_type where "TThreadOrNone = TRange (-1) INT_MAX"
definition TU64 :: answer_type where "TU64 = TRange 0 (2 ^ 64 - 1)"
definition TChar :: "bool \<Rightarrow> answer_type" where
  "TChar is_signed = (if is_signed then TRange (- 128) 127 else TRange 0 255)"

text \<open>What repeated \<open>push_back\<close> on a null makes.\<close>

definition TList :: "answer_type \<Rightarrow> answer_type" where
  "TList t = TEither TNull (TArray t)"

definition TBreakpoint :: answer_type where
  "TBreakpoint = TRecord [(''address'', TU64), (''enabled'', TBool), (''id'', TId), (''tid'', TId), (''type'', TRange 1 4)]"

definition TRegion :: answer_type where
  "TRegion = TRecord [(''device'', TText), (''inode'', TU64), (''offset'', TU64), (''pathname'', TText),
     (''permissions'', TText), (''size'', TU64), (''start_address'', TU64)]"

definition answer_types :: "bool \<Rightarrow> (string \<times> answer_type) list" where
  "answer_types is_signed =
     [(''read_memory'', TRecord [(''address'', TU64), (''data'', TArray (TChar is_signed)), (''size'', TU64)]),
      (''get_memory_regions'', TArray TRegion),
      (''read_registers'', TEither TNull (TOptional [(''FPR'', TMembers THex), (''GPR'', TMembers THex)])),
      (''get_breakpoints'', TArray TBreakpoint), (''get_breakpoint'', TBreakpoint),
      (''get_threads'', TList TThread), (''get_pid'', TRecord [(''pid'', TThreadOrNone)]),
      (''get_current_tid'', TRecord [(''tid'', TThreadOrNone)])]"

text \<open>The others are answered with a text.\<close>

definition answer_type_of :: "bool \<Rightarrow> string \<Rightarrow> answer_type" where
  "answer_type_of is_signed cmd = (case map_of (answer_types is_signed) cmd of Some t \<Rightarrow> t | None \<Rightarrow> TText)"

section \<open>The values the debugger holds fit their types\<close>

definition threads_fit :: "breakpoint_manager \<Rightarrow> bool" where
  "threads_fit m \<longleftrightarrow> (\<forall>i b. um_find (m_breakpoints m) i = Some b \<longrightarrow> bp_tid b \<le> INT_MAX)"

definition values_fit :: "debugger \<Rightarrow> bool" where
  "values_fit d \<longleftrightarrow> (\<forall>t \<in> set (m_tids d). 0 \<le> t \<and> t \<le> INT_MAX) \<and> -1 \<le> m_current_tid d \<and> m_current_tid d \<le> INT_MAX
     \<and> threads_fit (bp_manager d)"

lemma stoi_bound: "stoi s = Inr i \<Longrightarrow> i \<le> INT_MAX"
  by (auto simp: stoi_def Let_def INT_MAX_def split: option.splits if_splits)

lemma collect_tids_bound: "collect_tids es = Inr tids \<Longrightarrow> \<forall>t \<in> set tids. t \<le> INT_MAX"
  by (induction es arbitrary: tids) (auto split: if_splits sum.splits dest: stoi_bound simp: map_sum_def)

lemma get_thread_ids_bound: "get_thread_ids os pid w = (Inr tids, w') \<Longrightarrow> \<forall>t \<in> set tids. t \<le> INT_MAX"
  by (auto simp: get_thread_ids_def split: prod.splits if_splits dest: collect_tids_bound)

lemma attach_fit: "attach os pid d w = (r, d', w') \<Longrightarrow> values_fit d \<Longrightarrow> values_fit d'"
proof (erule attach_cases)
  fix tids ts w1 s
  assume a: "get_thread_ids os pid w = (Inr tids, w1)" "attach_threads os tids w1 = (ts, w')" "pid \<in> set ts"
    "d' = d\<lparr>m_pid := pid, m_current_tid := pid, m_tids := ts\<rparr>" "values_fit d"
  have "set ts \<subseteq> set tids" using attach_threads_subset [of os tids w1] a(2) by simp
  then have "\<forall>t \<in> set ts. 0 \<le> t \<and> t \<le> INT_MAX"
    using get_thread_ids_nonneg [OF a(1)] get_thread_ids_bound [OF a(1)] by blast
  with a(3-5) show "values_fit d'" by (fastforce simp: values_fit_def)
qed simp

lemma set_software_fit:
  assumes "bm_wf m" and "set_software_breakpoint os tid a m w = (r, m', w')" and "threads_fit m" and "tid \<le> INT_MAX"
  shows "threads_fit m'"
  using assms(1,2)
proof (cases rule: set_software_table)
  case refused
  with assms(3) show ?thesis by (simp add: threads_fit_def)
next
  case (set n b)
  with assms(3,4) show ?thesis by (simp add: threads_fit_def)
qed

lemma remove_subset:
  "remove_breakpoint os i m w = (st, m', w') \<Longrightarrow> um_find (m_breakpoints m') j = Some b \<Longrightarrow> um_find (m_breakpoints m) j = Some b"
  by (auto simp: remove_breakpoint_def forget_breakpoint_def return_register_def Let_def
      split: option.splits if_splits prod.splits)

lemma remove_fit: "remove_breakpoint os i m w = (st, m', w') \<Longrightarrow> threads_fit m \<Longrightarrow> threads_fit m'"
  unfolding threads_fit_def by (blast dest: remove_subset)

lemma put_fit: "um_find (m_breakpoints m) i = Some b \<Longrightarrow> threads_fit m \<Longrightarrow> threads_fit (put_breakpoint i (b\<lparr>bp_enabled := e\<rparr>) m)"
  by (simp add: threads_fit_def put_breakpoint_def)

lemma flag_fit:
  "enable os i m w = (st, m', w') \<Longrightarrow> threads_fit m \<Longrightarrow> threads_fit m'"
  "disable os i m w = (st, m', w') \<Longrightarrow> threads_fit m \<Longrightarrow> threads_fit m'"
  by (auto simp: enable_def disable_def Let_def put_fit split: option.splits if_splits prod.splits)

lemma manager_fit: "values_fit d \<Longrightarrow> threads_fit m \<Longrightarrow> values_fit (d\<lparr>bp_manager := m\<rparr>)"
  by (simp add: values_fit_def)

lemma single_step_fit:
  assumes "single_step_impl os mode d w = (r, d', w')" and "core_inv d" and "values_fit d"
  shows "values_fit d'"
proof -
  have wf: "bm_wf (bp_manager d)" using assms(2) by (simp add: core_inv_def software_only_def)
  have v: "threads_fit (bp_manager d)" "m_current_tid d \<le> INT_MAX" using assms(3) by (simp_all add: values_fit_def)
  from assms(1) show ?thesis
  proof (cases rule: single_step_manager)
    case set
    with manager_fit [OF assms(3) set_software_fit [OF wf set(1) v]] show ?thesis by simp
  next
    case removed
    with manager_fit [OF assms(3) remove_fit [OF removed(2) set_software_fit [OF wf removed(1) v]]] show ?thesis by simp
  qed (use assms(3) in simp)
qed

lemma set_breakpoint_fit:
  assumes "set_breakpoint os type a d w = (r, d', w')" and "core_inv d" and "values_fit d"
  shows "values_fit d'"
proof (cases "breakpoint_type_of type")
  case None
  with assms show ?thesis by (simp add: set_breakpoint_def)
next
  case (Some ty)
  have m: "software_only (bp_manager d)" using assms(2) by (simp add: core_inv_def)
  then have wf: "bm_wf (bp_manager d)" by (simp add: software_only_def)
  have v: "threads_fit (bp_manager d)" "m_current_tid d \<le> INT_MAX" using assms(3) by (simp_all add: values_fit_def)
  obtain q m1 w1 where run: "(if ty = SOFTWARE then set_software_breakpoint os (m_current_tid d) a (bp_manager d) w
      else set_hardware_breakpoint os (m_current_tid d) a ty (bp_manager d) w) = (q, m1, w1)" by (metis prod_cases3)
  have "threads_fit m1"
  proof (cases "ty = SOFTWARE")
    case True
    with run set_software_fit [OF wf _ v] show ?thesis by simp
  next
    case False
    with run have "m_breakpoints m1 = m_breakpoints (bp_manager d)" by (auto dest: set_hardware_only [OF m])
    with v(1) show ?thesis by (simp add: threads_fit_def)
  qed
  moreover have "d' = d\<lparr>bp_manager := m1\<rparr>"
    using assms(1) Some run by (cases q) (auto simp: set_breakpoint_def)
  ultimately show ?thesis using manager_fit [OF assms(3)] by simp
qed

lemma manager_ops_fit:
  "core_remove_breakpoint os i d w = (st, d', w') \<Longrightarrow> values_fit d \<Longrightarrow> values_fit d'"
  "enable_breakpoint os i d w = (st, d', w') \<Longrightarrow> values_fit d \<Longrightarrow> values_fit d'"
  "disable_breakpoint os i d w = (st, d', w') \<Longrightarrow> values_fit d \<Longrightarrow> values_fit d'"
  by (auto simp: values_fit_def core_remove_breakpoint_def enable_breakpoint_def disable_breakpoint_def
      split: prod.splits dest: remove_fit flag_fit)

lemma control_fit:
  "attach_package os name d w = (r, d', w') \<Longrightarrow> values_fit d \<Longrightarrow> values_fit d'"
  "kill os d w = (st, d', w') \<Longrightarrow> values_fit d \<Longrightarrow> values_fit d'"
  "switch_thread tid d = (st, d') \<Longrightarrow> values_fit d \<Longrightarrow> values_fit d'"
proof -
  show "attach_package os name d w = (r, d', w') \<Longrightarrow> values_fit d \<Longrightarrow> values_fit d'"
    by (auto simp: attach_package_def split: prod.splits sum.splits list.splits dest: attach_fit)
  show "kill os d w = (st, d', w') \<Longrightarrow> values_fit d \<Longrightarrow> values_fit d'"
    by (auto simp: kill_def values_fit_def split: prod.splits if_splits)
  show "switch_thread tid d = (st, d') \<Longrightarrow> values_fit d \<Longrightarrow> values_fit d'"
    by (fastforce simp: switch_thread_def values_fit_def split: if_splits)
qed

lemma step_fit:
  "step_over os d w = (r, d', w') \<Longrightarrow> core_inv d \<Longrightarrow> values_fit d \<Longrightarrow> values_fit d'"
  "step_into os d w = (r, d', w') \<Longrightarrow> core_inv d \<Longrightarrow> values_fit d \<Longrightarrow> values_fit d'"
  by (auto simp: step_over_def step_into_def software_step_into_def split: prod.splits sum.splits if_splits
      dest: single_step_fit)

lemma core_step_fit: "core_step os d w d' w' \<Longrightarrow> core_inv d \<Longrightarrow> values_fit d \<Longrightarrow> values_fit d'"
  by (erule core_stepE) (auto dest: attach_fit control_fit step_fit set_breakpoint_fit manager_ops_fit)

lemma core_reachable_fit: "core_reachable os d w \<Longrightarrow> values_fit d"
proof (induction rule: core_reachable.induct)
  case (Core_start w)
  show ?case by (simp add: values_fit_def threads_fit_def DebuggerCore_def BreakpointManager_def INT_MAX_def)
next
  case (Core_next d w d' w')
  then show ?case by (blast intro: core_step_fit core_reachable_inv)
qed

section \<open>The documents have their types\<close>

lemma u64_typed [simp]: "has_type (json_u64 v) TU64"
proof -
  have "uint v < 2 ^ 64" using uint_bounded [of v] by simp
  then show ?thesis by (simp add: json_u64_def TU64_def)
qed

lemma char_typed [simp]: "has_type (char_json is_signed b) (TChar is_signed)"
proof -
  have "uint b < 2 ^ 8" "- (2 ^ 7) \<le> sint b" "sint b < 2 ^ 7"
    using uint_bounded [of b] sint_ge [of b] sint_lt [of b] by simp_all
  then show ?thesis by (simp add: char_json_def TChar_def)
qed

lemma hex_typed [simp]: "has_type (hex_json v) THex"
proof (cases "v = 0")
  case True
  then show ?thesis by (simp add: hex_json_def num_to_hex_str_def hex_text_def hex_digits_def)
next
  case False
  then show ?thesis
    using set_hex_print_loop [of v] hex_print_loop_nonempty [OF False]
    by (auto simp: hex_json_def num_to_hex_str_def hex_text_def list_all_iff)
qed

lemma fpr_typed [simp]: "has_type (fpr_json v) THex"
  by (cases v) simp_all

lemma region_typed [simp]: "has_type (region_json r) TRegion"
  by (simp add: region_json_def TRegion_def json_object_def char_code_def)

lemma breakpoint_typed:
  assumes "1 \<le> bp_id b \<and> bp_id b \<le> INT_MAX" and "1 \<le> bp_tid b \<and> bp_tid b \<le> INT_MAX"
  shows "has_type (breakpoint_json b) TBreakpoint"
  using assms by (cases "bp_type b") (simp_all add: breakpoint_json_def TBreakpoint_def TId_def json_object_def char_code_def)

section \<open>Every answer has the type of its command\<close>

lemma message_of_success [simp]: "m_string (status_success m) = m"
  by (simp add: status_success_def)

definition handler_typed :: "'w platform \<Rightarrow> 'w session_world handler \<Rightarrow> answer_type \<Rightarrow> bool" where
  "handler_typed pl h t \<longleftrightarrow> (\<forall>params d w st s' j. core_inv d \<and> values_fit d \<and> h params (d, w) = Some (Inr st, s')
     \<and> is_success st \<and> m_string st = Dumped j \<longrightarrow> has_type j t)"

text \<open>The operations that are answered with a status of their own.\<close>

definition texted :: "cxx_error + status \<Rightarrow> bool" where
  "texted r \<longleftrightarrow> (\<forall>st j. r = Inr st \<and> is_success st \<and> m_string st = Dumped j \<longrightarrow> (\<exists>s. j = JString s))"

lemma texted_simps [simp]:
  "texted (Inl e)" "texted (Inr (status_fail m))" "texted (Inr (status_success (Note n)))"
  "texted (Inr (status_success (Dumped (JString s))))" "is_fail st \<Longrightarrow> texted (Inr st)"
  by (auto simp: texted_def fail_not_success)

lemma text_typed: "texted (Inr st) \<Longrightarrow> is_success st \<Longrightarrow> m_string st = Dumped j \<Longrightarrow> has_type j TText"
  by (auto simp: texted_def)

lemma control_texted:
  "attach os p d w = (r, d', w') \<Longrightarrow> texted r" "attach_package os name d w = (r, d', w') \<Longrightarrow> texted r"
  "detach os d w = (st, w') \<Longrightarrow> texted (Inr st)" "kill os d w = (st, d', w') \<Longrightarrow> texted (Inr st)"
  "resume os d w = (st, w') \<Longrightarrow> texted (Inr st)" "pause os d w = (st, w') \<Longrightarrow> texted (Inr st)"
  "switch_thread tid d = (st, d') \<Longrightarrow> texted (Inr st)"
  by (auto simp: attach_def attach_package_def detach_def kill_def resume_def pause_def switch_thread_def
      split: prod.splits sum.splits list.splits if_splits)

lemma step_texted:
  "single_step_impl os mode d w = (r, d', w') \<Longrightarrow> texted r" "hardware_step_into os d w = (st, w') \<Longrightarrow> texted (Inr st)"
  by (auto simp: single_step_impl_def hardware_step_into_def Let_def split: prod.splits sum.splits option.splits if_splits)

lemma steps_texted:
  "step_over os d w = (r, d', w') \<Longrightarrow> texted r" "step_into os d w = (r, d', w') \<Longrightarrow> texted r"
  by (auto simp: step_over_def step_into_def software_step_into_def split: prod.splits sum.splits if_splits dest: step_texted)

lemma launch_texted: "launch os activity d w = Some (r, d', w') \<Longrightarrow> texted r"
proof (erule launch_result)
  show "\<forall>st. r = Inr st \<longrightarrow> is_fail st \<Longrightarrow> texted r" by (cases r) simp_all
  show "attach_launched os z p d u = (r, d', w') \<Longrightarrow> texted r" for z p u
    by (auto simp: attach_launched_def Let_def split: prod.splits sum.splits if_splits)
qed

lemma manager_texted:
  "remove_breakpoint os i m w = (st, m', w') \<Longrightarrow> texted (Inr st)" "enable os i m w = (st, m', w') \<Longrightarrow> texted (Inr st)"
  "disable os i m w = (st, m', w') \<Longrightarrow> texted (Inr st)"
  by (auto simp: remove_breakpoint_def enable_def disable_def Let_def split: option.splits if_splits prod.splits)

lemma breakpoint_texted:
  "core_remove_breakpoint os i d w = (st, d', w') \<Longrightarrow> texted (Inr st)"
  "enable_breakpoint os i d w = (st, d', w') \<Longrightarrow> texted (Inr st)"
  "disable_breakpoint os i d w = (st, d', w') \<Longrightarrow> texted (Inr st)"
  "set_breakpoint os ty a d w = (Inr (st, i), d', w') \<Longrightarrow> texted (Inr st)"
  by (auto simp: core_remove_breakpoint_def enable_breakpoint_def disable_breakpoint_def set_breakpoint_def
      split: prod.splits option.splits sum.splits if_splits dest: manager_texted)

lemma memory_texted: "core_write_memory os a buf d w = (st, w') \<Longrightarrow> texted (Inr st)"
  by (auto simp: core_write_memory_def split: prod.splits if_splits)

lemma write_loops_texted:
  "write_gprs os tid ms w = (Inr (Some st), w') \<Longrightarrow> is_fail st" "write_fprs os tid ms w = (Inr (Some st), w') \<Longrightarrow> is_fail st"
  by (induction ms arbitrary: w)
    (auto simp: Let_def parse_fpr_value_def split: json.splits option.splits if_splits prod.splits sum.splits)

lemma write_registers_texted: "write_registers os j d w = (r, w') \<Longrightarrow> texted r"
  by (auto simp: write_registers_def write_block_def split: prod.splits sum.splits option.splits json.splits
      dest: write_loops_texted)

lemma control_typed:
  "handler_typed pl (handle_attach pl) TText" "handler_typed pl (handle_launch pl) TText"
  "handler_typed pl (handle_detach pl) TText" "handler_typed pl (handle_kill pl) TText"
  "handler_typed pl (handle_resume pl) TText" "handler_typed pl (handle_pause pl) TText"
  "handler_typed pl (handle_step_into pl) TText" "handler_typed pl (handle_step_over pl) TText"
  by (auto simp: handler_typed_def with_json_def handle_attach_def handle_launch_def handle_detach_def handle_kill_def
      handle_resume_def handle_pause_def handle_step_into_def handle_step_over_def fail_not_success
      split: sum.splits option.splits json.splits prod.splits
      dest!: control_texted steps_texted launch_texted intro: text_typed)

lemma change_typed:
  "handler_typed pl (handle_write_memory pl) TText" "handler_typed pl (handle_write_registers pl) TText"
  "handler_typed pl (handle_switch_thread pl) TText" "handler_typed pl ping TText"
  by (auto simp: handler_typed_def with_json_def handle_write_memory_def handle_write_registers_def
      handle_switch_thread_def ping_def
      split: sum.splits option.splits json.splits prod.splits
      dest!: memory_texted write_registers_texted control_texted(7) intro: text_typed)

lemma breakpoint_change_typed:
  "handler_typed pl (handle_set_breakpoint pl) TText" "handler_typed pl (handle_remove_breakpoint pl) TText"
  "handler_typed pl (handle_enable_breakpoint pl) TText" "handler_typed pl (handle_disable_breakpoint pl) TText"
proof -
  show "handler_typed pl (handle_set_breakpoint pl) TText"
    by (auto simp: handler_typed_def with_json_def handle_set_breakpoint_def map_sum_def
        split: sum.splits option.splits prod.splits dest!: breakpoint_texted(4) intro: text_typed)
qed (auto simp: handler_typed_def with_json_def with_breakpoint_id_def handle_remove_breakpoint_def
      handle_enable_breakpoint_def handle_disable_breakpoint_def
      split: sum.splits option.splits prod.splits dest!: breakpoint_texted(1-3) intro: text_typed)

lemma read_memory_typed:
  "handler_typed pl (handle_read_memory pl)
     (TRecord [(''address'', TU64), (''data'', TArray (TChar (pl_char_signed pl))), (''size'', TU64)])"
  by (auto simp: handler_typed_def with_json_def handle_read_memory_def answer_def json_object_def char_code_def fail_not_success
      split: sum.splits option.splits prod.splits if_splits)

lemma regions_typed: "handler_typed pl (handle_get_memory_regions pl) (TArray TRegion)"
  by (auto simp: handler_typed_def handle_get_memory_regions_def core_get_memory_regions_def answer_def json_pushed_def fail_not_success
      split: sum.splits prod.splits if_splits)

lemma pid_typed: "core_inv d \<Longrightarrow> values_fit d \<Longrightarrow> -1 \<le> m_pid d \<and> m_pid d \<le> INT_MAX"
  by (fastforce simp: core_inv_def threads_wf_def values_fit_def INT_MAX_def)

lemma thread_queries_typed:
  "handler_typed pl (handle_get_pid pl) (TRecord [(''pid'', TThreadOrNone)])"
  "handler_typed pl (handle_get_current_tid pl) (TRecord [(''tid'', TThreadOrNone)])"
  "handler_typed pl (handle_get_threads pl) (TList TThread)"
proof -
  show "handler_typed pl (handle_get_pid pl) (TRecord [(''pid'', TThreadOrNone)])"
    using pid_typed by (auto simp: handler_typed_def handle_get_pid_def get_pid_def answer_def TThreadOrNone_def)
  show "handler_typed pl (handle_get_current_tid pl) (TRecord [(''tid'', TThreadOrNone)])"
    by (auto simp: handler_typed_def handle_get_current_tid_def get_current_tid_def answer_def TThreadOrNone_def values_fit_def)
  show "handler_typed pl (handle_get_threads pl) (TList TThread)"
    by (auto simp: handler_typed_def handle_get_threads_def get_threads_def answer_def TThread_def TList_def
        json_pushed_def values_fit_def)
qed

lemma listed_typed:
  assumes "core_inv d" and "values_fit d" and "um_find (m_breakpoints (bp_manager d)) i = Some b"
  shows "has_type (breakpoint_json b) TBreakpoint"
proof (rule breakpoint_typed)
  have "table_ok (um_find (m_breakpoints (bp_manager d))) (m_next_breakpoint_id (bp_manager d))"
    using assms(1) by (simp add: core_inv_def software_only_def bm_wf_def)
  with assms(3) have "bp_id b = i" "0 < i" "i < m_next_breakpoint_id (bp_manager d)" "0 < bp_tid b"
    "m_next_breakpoint_id (bp_manager d) \<le> INT_MAX"
    unfolding table_ok_def by blast+
  moreover have "bp_tid b \<le> INT_MAX" using assms(2,3) by (auto simp: values_fit_def threads_fit_def)
  ultimately show "1 \<le> bp_id b \<and> bp_id b \<le> INT_MAX" "1 \<le> bp_tid b \<and> bp_tid b \<le> INT_MAX" by auto
qed

lemma lists_typed:
  assumes "core_inv d" and "values_fit d"
  shows "b \<in> set (get_breakpoints (bp_manager d)) \<Longrightarrow> has_type (breakpoint_json b) TBreakpoint"
    and "b \<in> set (get_breakpoints_of tid (bp_manager d)) \<Longrightarrow> has_type (breakpoint_json b) TBreakpoint"
proof -
  have wf: "bm_wf (bp_manager d)" using assms(1) by (simp add: core_inv_def software_only_def)
  show "b \<in> set (get_breakpoints (bp_manager d)) \<Longrightarrow> has_type (breakpoint_json b) TBreakpoint"
    by (rule listed_typed [OF assms bps_found [OF wf]])
  assume "b \<in> set (get_breakpoints_of tid (bp_manager d))"
  then obtain i where "um_find (m_breakpoints (bp_manager d)) i = Some b"
    by (auto simp: get_breakpoints_of_def List.map_filter_def split: option.splits if_splits)
  then show "has_type (breakpoint_json b) TBreakpoint" by (rule listed_typed [OF assms])
qed

lemma breakpoint_queries_typed:
  "handler_typed pl (handle_get_breakpoints pl) (TArray TBreakpoint)"
  "handler_typed pl (handle_get_breakpoint pl) TBreakpoint"
proof -
  show "handler_typed pl (handle_get_breakpoints pl) (TArray TBreakpoint)"
    by (auto simp: handler_typed_def with_json_def handle_get_breakpoints_def Let_def core_get_breakpoints_def
        core_get_breakpoints_of_def answer_def json_pushed_def fail_not_success
        split: sum.splits option.splits prod.splits if_splits intro: lists_typed)
  show "handler_typed pl (handle_get_breakpoint pl) TBreakpoint"
    by (auto simp: handler_typed_def with_json_def handle_get_breakpoint_def answer_breakpoint_def answer_def fail_not_success
        core_get_breakpoint_def core_get_breakpoint_at_def get_breakpoint_def get_breakpoint_at_def
        split: sum.splits option.splits prod.splits if_splits intro: listed_typed)
qed

text \<open>Registers: every value in a block is hexadecimal text.\<close>

definition all_hex :: "(string \<times> json) list \<Rightarrow> bool" where
  "all_hex ms \<longleftrightarrow> (\<forall>m \<in> set ms. has_type (snd m) THex)"

lemma all_hex_assign: "all_hex ms \<Longrightarrow> has_type v THex \<Longrightarrow> all_hex (obj_assign k v ms)"
  by (induction k v ms rule: obj_assign.induct) (auto simp: all_hex_def)

lemma all_registers_hex:
  "all_gprs g ks res = Inr ms \<Longrightarrow> all_hex res \<Longrightarrow> all_hex ms" "all_fprs f ks res = Inr ms \<Longrightarrow> all_hex res \<Longrightarrow> all_hex ms"
  by (induction ks arbitrary: res) (auto simp: Let_def all_hex_assign split: option.splits)

lemma read_loops_hex:
  "read_gprs os tid ns res w = (Inr ms, w') \<Longrightarrow> all_hex res \<Longrightarrow> all_hex ms"
  "read_fprs os tid ns res w = (Inr ms, w') \<Longrightarrow> all_hex res \<Longrightarrow> all_hex ms"
  by (induction ns arbitrary: res w)
    (auto simp: Let_def all_hex_assign split: json.splits option.splits prod.splits if_splits)

lemma read_requests_hex:
  "read_gpr_request os tid req w = (Inr ms, w') \<Longrightarrow> all_hex ms" "read_fpr_request os tid req w = (Inr ms, w') \<Longrightarrow> all_hex ms"
  by (auto simp: read_gpr_request_def read_fpr_request_def all_hex_def [of "[]"]
      split: json.splits if_splits prod.splits option.splits dest!: all_registers_hex read_loops_hex)

lemma read_fails:
  "read_gpr_request os tid req w = (Inl st, w') \<Longrightarrow> is_fail st" "read_fpr_request os tid req w = (Inl st, w') \<Longrightarrow> is_fail st"
proof -
  have all: "all_gprs g ks res = Inl st \<Longrightarrow> is_fail st" "all_fprs f ks res = Inl st \<Longrightarrow> is_fail st" for g f ks res st
    by (induction ks arbitrary: res) (auto simp: Let_def split: option.splits)
  have each: "read_gprs os tid ns res w = (Inl st, w') \<Longrightarrow> is_fail st" "read_fprs os tid ns res w = (Inl st, w') \<Longrightarrow> is_fail st"
    for ns res w w' st
    by (induction ns arbitrary: res w) (auto simp: Let_def split: json.splits option.splits prod.splits if_splits)
  show "read_gpr_request os tid req w = (Inl st, w') \<Longrightarrow> is_fail st" "read_fpr_request os tid req w = (Inl st, w') \<Longrightarrow> is_fail st"
    by (auto simp: read_gpr_request_def read_fpr_request_def
        split: json.splits if_splits prod.splits option.splits dest: all each)
qed

lemma read_block_fails:
  assumes "read_block read key j res w = (Inr (Some st), res', w')" and "\<And>req u st u'. read req u = (Inl st, u') \<Longrightarrow> is_fail st"
  shows "is_fail st"
  using assms(1) assms(2) by (auto simp: read_block_def split: option.splits if_splits prod.splits sum.splits)

lemma read_block_cases:
  assumes "read_block read key j res w = (Inr None, res', w')" and "\<And>req u ms u'. read req u = (Inr ms, u') \<Longrightarrow> all_hex ms"
  shows "res' = res \<or> (\<exists>ms. all_hex ms \<and> json_set key (JObject ms) res = Inr res')"
  using assms(1) assms(2) by (auto simp: read_block_def split: option.splits if_splits prod.splits sum.splits)

lemma read_registers_typed:
  assumes "read_registers os j JNull d w = (Inr st, res, w')" and "is_success st"
  shows "has_type res (TEither TNull (TOptional [(''FPR'', TMembers THex), (''GPR'', TMembers THex)]))"
proof -
  let ?g = "read_block (read_gpr_request os (m_current_tid d)) ''GPR'' j JNull w"
  let ?f = "\<lambda>res1. read_block (read_fpr_request os (m_current_tid d)) ''FPR'' j res1"
  obtain q1 res1 w1 where g0: "?g = (q1, res1, w1)" by (metis prod_cases3)
  obtain q2 res2 w2 where f0: "?f res1 w1 = (q2, res2, w2)" by (metis prod_cases3)
  have fails: "is_fail t" if "q1 = Inr (Some t) \<or> q2 = Inr (Some t)" for t
    using that
  proof
    assume "q1 = Inr (Some t)"
    with g0 show ?thesis by (auto intro: read_block_fails read_fails)
  next
    assume "q2 = Inr (Some t)"
    with f0 show ?thesis by (auto intro: read_block_fails read_fails)
  qed
  have ok: "q1 \<noteq> Inr (Some t)" "q2 \<noteq> Inr (Some t)" if "is_success t" for t
    using fails [of t] fail_not_success [of t] that by auto
  then have "q1 = Inr None \<and> q2 = Inr None \<and> res = res2 \<and> w' = w2"
    using assms g0 f0 by (auto simp: read_registers_def split: sum.splits option.splits)
  then have g: "?g = (Inr None, res1, w1)" and f: "?f res1 w1 = (Inr None, res, w')" using g0 f0 by simp_all
  have "res1 = JNull \<or> (\<exists>ms. all_hex ms \<and> json_set ''GPR'' (JObject ms) JNull = Inr res1)"
    by (rule read_block_cases [OF g]) (rule read_requests_hex)
  then have 1: "res1 = JNull \<or> (\<exists>ms. all_hex ms \<and> res1 = JObject [(''GPR'', JObject ms)])" by auto
  have 2: "res = res1 \<or> (\<exists>ms. all_hex ms \<and> json_set ''FPR'' (JObject ms) res1 = Inr res)"
    by (rule read_block_cases [OF f]) (rule read_requests_hex)
  show ?thesis using 1 2 by (fastforce simp: all_hex_def char_code_def)
qed

lemma registers_typed:
  "handler_typed pl (handle_read_registers pl)
     (TEither TNull (TOptional [(''FPR'', TMembers THex), (''GPR'', TMembers THex)]))"
proof -
  have "has_type res (TEither TNull (TOptional [(''FPR'', TMembers THex), (''GPR'', TMembers THex)]))"
    if "read_registers (pl_os pl) j JNull d w = (Inr t, res, w')" "\<not> is_fail t" for j d w t res w'
    using read_registers_typed [OF that(1)] that(2) by (metis not_is_fail)
  then show ?thesis
    by (auto simp del: has_type.simps not_is_fail simp: handler_typed_def handle_read_registers_def with_json_def
        answer_def fail_not_success split: sum.splits prod.splits if_splits)
qed

lemma command_typed:
  assumes "command_handler pl cmd = Some h"
  shows "handler_typed pl h (answer_type_of (pl_char_signed pl) cmd)"
proof -
  have "list_all (\<lambda>(c, h). handler_typed pl h (answer_type_of (pl_char_signed pl) c)) (commands pl)"
    by (simp add: commands_def answer_type_of_def answer_types_def control_typed change_typed breakpoint_change_typed
        read_memory_typed regions_typed thread_queries_typed breakpoint_queries_typed registers_typed)
  moreover have "handler_typed pl ping (answer_type_of (pl_char_signed pl) ''ping'')"
    by (simp add: answer_type_of_def answer_types_def change_typed)
  ultimately show ?thesis
    using assms by (auto simp: command_handler_cases list_all_iff split: option.splits if_splits dest!: map_of_SomeD)
qed

text \<open>
  C4: Every answer has the type of its command: in every state a session comes to, whatever the kernel answers, a
  successful answer that is a JSON document has exactly the members its command promises, identifiers, threads and
  types within their ranges, addresses and sizes within 64 bits, bytes within a \<open>char\<close>, and registers as
  hexadecimal text.
\<close>

theorem answers_have_their_types:
  assumes "session_reachable pl (d, w)" and "command_handler pl cmd = Some h"
    and "h params (d, w) = Some (Inr st, s')" and "is_success st" and "m_string st = Dumped j"
  shows "has_type j (answer_type_of (pl_char_signed pl) cmd)"
  using command_typed [OF assms(2)] session_inv [OF assms(1)] core_reachable_fit [OF session_core [OF assms(1)]] assms(3-5)
  unfolding handler_typed_def by (cases s') (metis fst_conv)

theorem answers_have_their_types_witness:
  "handle_get_threads demo_platform [] demo_attached = Some (answer (JArray [JInt 100, JInt 101]), demo_attached)
     \<and> has_type (JArray [JInt 100, JInt 101]) (TList TThread)"
proof -
  have "m_tids (fst demo_attached) = [100, 101]" by code_simp
  then have run: "handle_get_threads demo_platform [] (fst demo_attached, snd demo_attached)
      = Some (Inr (status_success (Dumped (JArray [JInt 100, JInt 101]))), demo_attached)"
    unfolding handle_get_threads_def prod.case get_threads_def by (simp add: json_pushed_def answer_def)
  have "command_handler demo_platform ''get_threads'' = Some (handle_get_threads demo_platform)"
    by (simp add: command_handler_cases commands_def)
  from answers_have_their_types [OF _ this run] demo_attached_reachable run show ?thesis
    by (simp add: answer_type_of_def answer_types_def answer_def)
qed

end
