(* ===== verification/Assembly.thy ===== *)
theory Assembly
  imports Andbg_Prelude
begin

text \<open>
  \<open>Assembly::DisassemblyControl\<close> of \<open>src/assembly.hpp\<close> and \<open>src/assembly.cpp\<close>: what the program makes
  of the instructions the capstone library finds.  The library is the parameter \<open>cs_disasm\<close>; of its
  enumerations there are the enumerators the code names and one constructor for the others.
\<close>

section \<open>What the library gives\<close>

datatype arm64_insn =
    ARM64_INS_INVALID
  | ARM64_INS_SVC
  | ARM64_INS_B | ARM64_INS_BR | ARM64_INS_BRB | ARM64_INS_BL | ARM64_INS_BLR
  | ARM64_INS_BRAA | ARM64_INS_BRAAZ | ARM64_INS_BRAB | ARM64_INS_BRABZ
  | ARM64_INS_BLRAA | ARM64_INS_BLRAAZ | ARM64_INS_BLRAB | ARM64_INS_BLRABZ
  | ARM64_INS_CBZ | ARM64_INS_CBNZ | ARM64_INS_TBZ | ARM64_INS_TBNZ | ARM64_INS_BC
  | ARM64_INS_RET | ARM64_INS_RETAA | ARM64_INS_RETAB
  | ARM64_INS_OTHER nat

datatype arm64_op_type =
    ARM64_OP_REG | ARM64_OP_REG_MRS | ARM64_OP_REG_MSR | ARM64_OP_SVCR
  | ARM64_OP_IMM | ARM64_OP_CIMM | ARM64_OP_FP | ARM64_OP_PSTATE | ARM64_OP_SYS | ARM64_OP_PREFETCH | ARM64_OP_BARRIER
  | ARM64_OP_MEM
  | ARM64_OP_OTHER nat

text \<open>The members of an operand that are read; those of the union have what reading them gives.\<close>

record cs_arm64_op =
  src_type :: arm64_op_type
  src_reg :: u32
  src_imm :: u64
  src_mem_base :: u32
  src_mem_index :: u32
  src_mem_disp :: u32

record cs_insn =
  insn_id :: arm64_insn
  insn_size :: nat
  insn_bytes :: bytes
  insn_mnemonic :: string
  insn_op_str :: string
  insn_detail :: "(u8 \<times> cs_arm64_op list) option"

section \<open>Instructions\<close>

datatype operand_type = REG | IMM | MEM | OTHER

record operand =
  op_type :: operand_type
  op_reg :: u32
  op_reg2 :: u32
  op_imm :: u64

datatype instruction_type = UNKNOWN_INSN | NORMAL | UNCONDITIONAL_BRANCH | CONDITIONAL_BRANCH | RETURN | SYSCALL

text \<open>Of the array of operands the constructor fills the first \<open>op_count\<close>; the list has those.\<close>

record instruction =
  ins_type :: instruction_type
  ins_data :: bytes
  ins_mnemonic :: string
  ins_op_str :: string
  ins_ops :: "operand list"
  ins_op_count :: u8

definition instruction_to_string :: "instruction \<Rightarrow> string" where
  "instruction_to_string i = ins_mnemonic i @ '' '' @ ins_op_str i"

text \<open>The instruction itself is not looked at: only the argument.\<close>

definition is_branch :: "instruction \<Rightarrow> instruction_type \<Rightarrow> bool" where
  "is_branch i type \<longleftrightarrow> type = UNCONDITIONAL_BRANCH \<or> type = CONDITIONAL_BRANCH \<or> type = RETURN"

section \<open>Kinds of instructions\<close>

definition is_syscall_instruction :: "cs_insn \<Rightarrow> bool" where
  "is_syscall_instruction insn \<longleftrightarrow> insn_id insn = ARM64_INS_SVC"

definition is_unconditional_branch_instruction :: "cs_insn \<Rightarrow> bool" where
  "is_unconditional_branch_instruction insn \<longleftrightarrow> insn_id insn \<in>
     {ARM64_INS_B, ARM64_INS_BR, ARM64_INS_BRB, ARM64_INS_BL, ARM64_INS_BLR, ARM64_INS_BRAA, ARM64_INS_BRAAZ,
      ARM64_INS_BRAB, ARM64_INS_BRABZ, ARM64_INS_BLRAA, ARM64_INS_BLRAAZ, ARM64_INS_BLRAB, ARM64_INS_BLRABZ}"

definition is_conditional_branch_instruction :: "cs_insn \<Rightarrow> bool" where
  "is_conditional_branch_instruction insn \<longleftrightarrow> insn_id insn \<in>
     {ARM64_INS_CBZ, ARM64_INS_CBNZ, ARM64_INS_TBZ, ARM64_INS_TBNZ, ARM64_INS_BC}"

definition is_return_instruction :: "cs_insn \<Rightarrow> bool" where
  "is_return_instruction insn \<longleftrightarrow> insn_id insn \<in> {ARM64_INS_RET, ARM64_INS_RETAA, ARM64_INS_RETAB}"

definition classify :: "cs_insn \<Rightarrow> instruction_type" where
  "classify insn =
     (if insn_id insn = ARM64_INS_INVALID then UNKNOWN_INSN
      else if is_unconditional_branch_instruction insn then UNCONDITIONAL_BRANCH
      else if is_conditional_branch_instruction insn then CONDITIONAL_BRANCH
      else if is_return_instruction insn then RETURN
      else if is_syscall_instruction insn then SYSCALL
      else NORMAL)"

section \<open>Disassembling\<close>

text \<open>An operand, into one that was all zeros, whose type is then \<open>REG\<close>.\<close>

definition empty_operand :: operand where
  "empty_operand = \<lparr>op_type = REG, op_reg = 0, op_reg2 = 0, op_imm = 0\<rparr>"

definition convert_operand :: "cs_arm64_op \<Rightarrow> operand" where
  "convert_operand src =
     (let dst = empty_operand in
      if src_type src \<in> {ARM64_OP_REG, ARM64_OP_REG_MRS, ARM64_OP_REG_MSR, ARM64_OP_SVCR}
      then dst\<lparr>op_type := REG, op_reg := src_reg src\<rparr>
      else if src_type src \<in> {ARM64_OP_IMM, ARM64_OP_CIMM, ARM64_OP_FP, ARM64_OP_PSTATE, ARM64_OP_SYS,
                ARM64_OP_PREFETCH, ARM64_OP_BARRIER}
      then dst\<lparr>op_type := IMM, op_imm := src_imm src\<rparr>
      else if src_type src = ARM64_OP_MEM
      then dst\<lparr>op_type := MEM, op_reg := src_mem_base src, op_reg2 := src_mem_index src,
             op_imm := scast (src_mem_disp src)\<rparr>
      else dst\<lparr>op_type := OTHER, op_reg := 0, op_reg2 := 0, op_imm := 0\<rparr>)"

text \<open>One pass of the loop: \<open>None\<close> where the instruction has no detail.\<close>

definition convert_insn :: "cs_insn \<Rightarrow> instruction option" where
  "convert_insn insn =
     (case insn_detail insn of
        None \<Rightarrow> None
      | Some (arm64_op_count, operands) \<Rightarrow>
          (let op_count = min arm64_op_count 8
           in Some \<lparr>ins_type = classify insn, ins_data = take (insn_size insn) (insn_bytes insn),
                ins_mnemonic = insn_mnemonic insn, ins_op_str = insn_op_str insn,
                ins_ops = map convert_operand (take (unat op_count) operands), ins_op_count = op_count\<rparr>))"

fun convert_insns :: "cs_insn list \<Rightarrow> instruction list \<Rightarrow> instruction list option" where
  "convert_insns [] results = Some results"
| "convert_insns (insn # insns) results =
     (case convert_insn insn of None \<Rightarrow> None | Some i \<Rightarrow> convert_insns insns (results @ [i]))"

text \<open>The constructor leaves a null handle where the library cannot be opened.\<close>

definition DisassemblyControl :: "u64 option \<Rightarrow> u64" where
  "DisassemblyControl cs_open = (case cs_open of None \<Rightarrow> 0 | Some handle \<Rightarrow> handle)"

definition disassemble :: "(u64 \<Rightarrow> bytes \<Rightarrow> cs_insn list) \<Rightarrow> u64 \<Rightarrow> bytes \<Rightarrow> instruction list option" where
  "disassemble cs_disasm handle codes =
     (if handle = 0 then None
      else if codes = [] then None
      else
        (let insn_array = cs_disasm handle codes
         in if insn_array = [] then None else convert_insns insn_array []))"

section \<open>What is disassembled\<close>

lemma convert_insns_all:
  "convert_insns insns rs = Some qs \<longleftrightarrow>
     list_all (\<lambda>i. convert_insn i \<noteq> None) insns \<and> qs = rs @ map (\<lambda>i. the (convert_insn i)) insns"
  by (induction insns arbitrary: rs) (auto split: option.splits)

lemma convert_insn_detail: "convert_insn i = None \<longleftrightarrow> insn_detail i = None"
  by (auto simp: convert_insn_def Let_def split: option.splits prod.splits)

lemma branch_opcodes:
  "is_branch r (classify i) = (insn_id i \<in>
     {ARM64_INS_B, ARM64_INS_BR, ARM64_INS_BRB, ARM64_INS_BL, ARM64_INS_BLR, ARM64_INS_BRAA,
      ARM64_INS_BRAAZ, ARM64_INS_BRAB, ARM64_INS_BRABZ, ARM64_INS_BLRAA, ARM64_INS_BLRAAZ, ARM64_INS_BLRAB,
      ARM64_INS_BLRABZ, ARM64_INS_CBZ, ARM64_INS_CBNZ, ARM64_INS_TBZ, ARM64_INS_TBNZ, ARM64_INS_BC,
      ARM64_INS_RET, ARM64_INS_RETAA, ARM64_INS_RETAB})"
  by (cases "insn_id i")
    (simp_all add: is_branch_def classify_def is_unconditional_branch_instruction_def
      is_conditional_branch_instruction_def is_return_instruction_def is_syscall_instruction_def)

lemma convert_insn_facts:
  assumes "convert_insn i = Some r"
  shows "ins_data r = take (insn_size i) (insn_bytes i)" and "length (ins_ops r) \<le> 8" and "ins_type r = classify i"
proof -
  have "unat (min n 8) \<le> 8" for n :: u8
    using word_le_nat_alt [of "min n 8" 8] by simp
  then show "ins_data r = take (insn_size i) (insn_bytes i)" "length (ins_ops r) \<le> 8" "ins_type r = classify i"
    using assms by (auto simp: convert_insn_def Let_def min_le_iff_disj split: option.splits)
qed

definition cannot_disassemble :: "(u64 \<Rightarrow> bytes \<Rightarrow> cs_insn list) \<Rightarrow> u64 \<Rightarrow> bytes \<Rightarrow> bool" where
  "cannot_disassemble cs_disasm handle codes \<longleftrightarrow> handle = 0 \<or> codes = [] \<or> cs_disasm handle codes = []
     \<or> list_ex (\<lambda>i. insn_detail i = None) (cs_disasm handle codes)"

lemma disassemble_none: "disassemble cs_disasm handle codes = None \<longleftrightarrow> cannot_disassemble cs_disasm handle codes"
proof -
  have "convert_insns is [] = None \<longleftrightarrow> list_ex (\<lambda>i. insn_detail i = None) is" for "is"
    using convert_insns_all [of "is" "[]"]
    by (cases "convert_insns is []") (auto simp: convert_insn_detail list_all_iff list_ex_iff simp del: not_None_eq)
  then show ?thesis by (simp add: disassemble_def cannot_disassemble_def Let_def)
qed

text \<open>
  C33: Disassembling succeeds exactly where the library is open, has instructions for the code and
  details on all of them; then there is one instruction each, in their order, with at most eight operands,
  and it counts as a branch exactly for the branch and return opcodes the program knows.
\<close>

theorem disassemble_correct:
  "case disassemble cs_disasm handle codes of
     None \<Rightarrow> handle = 0 \<or> codes = [] \<or> cs_disasm handle codes = []
       \<or> list_ex (\<lambda>i. insn_detail i = None) (cs_disasm handle codes)
   | Some rs \<Rightarrow> handle \<noteq> 0 \<and> codes \<noteq> [] \<and> rs \<noteq> [] \<and> list_all (\<lambda>i. insn_detail i \<noteq> None) (cs_disasm handle codes)
       \<and> list_all2 (\<lambda>i r. ins_data r = take (insn_size i) (insn_bytes i) \<and> length (ins_ops r) \<le> 8
          \<and> is_branch r (ins_type r) = (insn_id i \<in>
              {ARM64_INS_B, ARM64_INS_BR, ARM64_INS_BRB, ARM64_INS_BL, ARM64_INS_BLR, ARM64_INS_BRAA,
               ARM64_INS_BRAAZ, ARM64_INS_BRAB, ARM64_INS_BRABZ, ARM64_INS_BLRAA, ARM64_INS_BLRAAZ, ARM64_INS_BLRAB,
               ARM64_INS_BLRABZ, ARM64_INS_CBZ, ARM64_INS_CBNZ, ARM64_INS_TBZ, ARM64_INS_TBNZ, ARM64_INS_BC,
               ARM64_INS_RET, ARM64_INS_RETAA, ARM64_INS_RETAB}))
        (cs_disasm handle codes) rs"
proof (cases "disassemble cs_disasm handle codes")
  case None
  then show ?thesis using disassemble_none [of cs_disasm handle codes] by (simp add: cannot_disassemble_def)
next
  case (Some rs)
  then have good: "handle \<noteq> 0" "codes \<noteq> []" "cs_disasm handle codes \<noteq> []"
    and "convert_insns (cs_disasm handle codes) [] = Some rs"
    by (auto simp: disassemble_def Let_def split: if_splits)
  then have all: "list_all (\<lambda>i. convert_insn i \<noteq> None) (cs_disasm handle codes)"
    and rs: "rs = map (\<lambda>i. the (convert_insn i)) (cs_disasm handle codes)"
    by (simp_all add: convert_insns_all)
  have "list_all2 (\<lambda>i r. convert_insn i = Some r) (cs_disasm handle codes) rs"
    using all unfolding rs list_all2_map2 list_all2_same by (auto simp: list_all_iff)
  then have "list_all2 (\<lambda>i r. ins_data r = take (insn_size i) (insn_bytes i) \<and> length (ins_ops r) \<le> 8
      \<and> ins_type r = classify i) (cs_disasm handle codes) rs"
    by (rule list_all2_mono) (simp add: convert_insn_facts)
  with Some good all rs show ?thesis
    by (auto simp: convert_insn_detail branch_opcodes list_all_iff elim: list_all2_mono simp del: insert_iff not_None_eq)
qed

end
