(* ===== verification/Process_Files.thy ===== *)
theory Process_Files
  imports Andbg_Prelude
begin

text \<open>
  The names of the files under \<open>/proc/[pid]\<close>: \<open>ProcFileType\<close> of \<open>src/process.hpp\<close> and its table in
  \<open>src/process.cpp\<close>.
\<close>

section \<open>Files of a process\<close>

text \<open>The enumerators of \<open>ProcFileType\<close>, with a prefix.\<close>

datatype proc_file_type =
    PF_ATTR | PF_AUTOGROUP | PF_CGROUP | PF_CLEAR_REFS | PF_CMDLINE | PF_COMM | PF_COREDUMP_FILTER | PF_CPUSET
  | PF_CWD | PF_ENVIRON | PF_EXE | PF_FD | PF_FDINFO | PF_IO | PF_LIMITS | PF_MAP_FILES
  | PF_MAPS | PF_MEM | PF_MOUNTINFO | PF_MOUNTS | PF_MOUNTSTATS | PF_NET | PF_NS | PF_NUMA_MAPS
  | PF_OOM_SCORE | PF_OOM_SCORE_ADJ | PF_PAGEMAP | PF_PERSONALITY | PF_PROJID_MAP | PF_ROOT | PF_SECCOMP | PF_SETGROUPS
  | PF_SMAPS | PF_STACK | PF_STAT | PF_STATM | PF_STATUS | PF_SYSCALL | PF_TASK | PF_TIMERS
  | PF_TIMERSLACK_NS | PF_UID_MAP | PF_WCHAN

definition FILE_TYPE_TO_NAME :: "(proc_file_type, string) umap" where
  "FILE_TYPE_TO_NAME =
     [(PF_ATTR, ''attr''), (PF_AUTOGROUP, ''autogroup''), (PF_CGROUP, ''cgroup''), (PF_CLEAR_REFS, ''clear_refs''),
      (PF_CMDLINE, ''cmdline''), (PF_COMM, ''comm''), (PF_COREDUMP_FILTER, ''coredump_filter''), (PF_CPUSET, ''cpuset''),
      (PF_CWD, ''cwd''), (PF_ENVIRON, ''environ''), (PF_EXE, ''exe''), (PF_FD, ''fd''),
      (PF_FDINFO, ''fdinfo''), (PF_IO, ''io''), (PF_LIMITS, ''limits''), (PF_MAP_FILES, ''map_files''),
      (PF_MAPS, ''maps''), (PF_MEM, ''mem''), (PF_MOUNTINFO, ''mountinfo''), (PF_MOUNTS, ''mounts''),
      (PF_MOUNTSTATS, ''mountstats''), (PF_NET, ''net''), (PF_NS, ''ns''), (PF_NUMA_MAPS, ''numa_maps''),
      (PF_OOM_SCORE, ''oom_score''), (PF_OOM_SCORE_ADJ, ''oom_score_adj''), (PF_PAGEMAP, ''pagemap''), (PF_PERSONALITY, ''personality''),
      (PF_PROJID_MAP, ''projid_map''), (PF_ROOT, ''root''), (PF_SECCOMP, ''seccomp''), (PF_SETGROUPS, ''setgroups''),
      (PF_SMAPS, ''smaps''), (PF_STACK, ''stack''), (PF_STAT, ''stat''), (PF_STATM, ''statm''),
      (PF_STATUS, ''status''), (PF_SYSCALL, ''syscall''), (PF_TASK, ''task''), (PF_TIMERS, ''timers''),
      (PF_TIMERSLACK_NS, ''timerslack_ns''), (PF_UID_MAP, ''uid_map''), (PF_WCHAN, ''wchan'')]"

definition proc_file_type_to_string :: "proc_file_type \<Rightarrow> string" where
  "proc_file_type_to_string type = (case um_find FILE_TYPE_TO_NAME type of Some name \<Rightarrow> name | None \<Rightarrow> [])"

text \<open>Every file type has a name, and no two have the same.\<close>

lemma file_type_names:
  "um_find FILE_TYPE_TO_NAME type \<noteq> None"
  "proc_file_type_to_string type = proc_file_type_to_string type' \<Longrightarrow> type = type'"
proof -
  have d: "distinct (map snd FILE_TYPE_TO_NAME)" by code_simp
  show all: "um_find FILE_TYPE_TO_NAME type \<noteq> None" for type
    by (cases type) (simp_all add: FILE_TYPE_TO_NAME_def um_find_def)
  assume eq: "proc_file_type_to_string type = proc_file_type_to_string type'"
  obtain n n' where "um_find FILE_TYPE_TO_NAME type = Some n" "um_find FILE_TYPE_TO_NAME type' = Some n'"
    using all by (metis not_None_eq)
  with eq have "(type, n) \<in> set FILE_TYPE_TO_NAME" "(type', n) \<in> set FILE_TYPE_TO_NAME"
    by (auto simp: proc_file_type_to_string_def um_find_def dest: map_of_SomeD)
  with d show "type = type'" by (metis (no_types, lifting) distinct_map fst_conv inj_on_def snd_conv)
qed

end
