(* ===== verification/Log.thy ===== *)
theory Log
  imports File_System
begin

text \<open>
  \<open>SingletonBase\<close> of \<open>src/singleton_base.hpp\<close> and \<open>Base::Log\<close> of \<open>src/log.hpp\<close> and \<open>src/log.cpp\<close>: the
  messages kept and the lines printed.  The calls of the logging macros are not part of the other
  theories' definitions: no result depends on them.
\<close>

section \<open>Singletons\<close>

text \<open>
  \<open>static T instance\<close> is made, by the constructor without arguments, when \<open>get_instance\<close> first runs;
  the cell holds it from then on.  The classes besides \<open>Log\<close> that derive from it have no members.
\<close>

definition get_instance :: "'a \<Rightarrow> 'a option \<Rightarrow> 'a \<times> 'a option" where
  "get_instance fresh cell = (case cell of None \<Rightarrow> (fresh, Some fresh) | Some x \<Rightarrow> (x, Some x))"

section \<open>The log\<close>

datatype log_level = DEBUG | WARNING | ERROR

record log =
  log_messages :: "(log_level \<times> string) list"

fun level_text :: "log_level \<Rightarrow> string" where
  "level_text DEBUG = ''[DEBUG] ''"
| "level_text WARNING = ''[WARNING] ''"
| "level_text ERROR = ''[ERROR] ''"

definition line_to_string :: "log_level \<Rightarrow> string \<Rightarrow> string" where
  "line_to_string level content = level_text level @ content"

text \<open>\<open>add\<close> prints the line, with a line end, and keeps the message.\<close>

definition log_add :: "log_level \<Rightarrow> string \<Rightarrow> log \<Rightarrow> string \<times> log" where
  "log_add level content lg =
     (line_to_string level content @ [newline], lg\<lparr>log_messages := log_messages lg @ [(level, content)]\<rparr>)"

definition log_to_string :: "log \<Rightarrow> string" where
  "log_to_string lg = concat (map (\<lambda>(level, content). line_to_string level content @ [newline]) (log_messages lg))"

section \<open>The macros\<close>

text \<open>The name of a source file without its directories.\<close>

definition base_name :: "string \<Rightarrow> string" where
  "base_name path = (if CHR ''/'' \<in> set path then rev (takeWhile (\<lambda>c. c \<noteq> CHR ''/'') (rev path)) else path)"

definition format_log :: "string \<Rightarrow> int \<Rightarrow> string \<Rightarrow> string" where
  "format_log path line content = ''['' @ base_name path @ '':'' @ show_int line @ ''] '' @ content"

text \<open>
  The overload for a format with arguments.  What the fmt library makes of the format is the
  argument \<open>formatted\<close>, the text or the \<open>what()\<close> of the \<open>format_error\<close> it throws.
\<close>

definition format_log_args :: "string \<Rightarrow> int \<Rightarrow> string \<Rightarrow> string + string \<Rightarrow> string" where
  "format_log_args path line fmt formatted =
     (case formatted of
        Inr formatted_content \<Rightarrow>
          ''['' @ base_name path @ '':'' @ show_int line @ ''] '' @ formatted_content
      | Inl what \<Rightarrow>
          ''['' @ base_name path @ '':'' @ show_int line @ ''] [Format Error: '' @ what @ ''] (Format: '' @ fmt @ '')'')"

text \<open>
  \<open>LOG(level, ...)\<close>: a message without arguments takes the first overload, so that its braces are
  not read as a format.  The cell is the one of the log's instance.
\<close>

datatype log_text = Literal string | Formatted string "string + string"

definition LOG :: "string \<Rightarrow> int \<Rightarrow> log_level \<Rightarrow> log_text \<Rightarrow> log option \<Rightarrow> string \<times> log option" where
  "LOG path line level txt cell =
     (case get_instance \<lparr>log_messages = []\<rparr> cell of
        (lg, _) \<Rightarrow>
          (case log_add level
             (case txt of Literal s \<Rightarrow> format_log path line s | Formatted f r \<Rightarrow> format_log_args path line f r) lg of
             (printed, lg') \<Rightarrow> (printed, Some lg')))"

section \<open>Facts\<close>

lemma log_to_string_add:
  "log_to_string (snd (log_add level content lg)) = log_to_string lg @ fst (log_add level content lg)"
  by (simp add: log_to_string_def log_add_def)

text \<open>What the log gives as text is what the macros have printed since the program has started.\<close>

primrec log_all :: "(string \<times> int \<times> log_level \<times> log_text) list \<Rightarrow> log option \<Rightarrow> string \<times> log option" where
  "log_all [] cell = ([], cell)"
| "log_all (c # cs) cell =
     (case c of (path, line, level, txt) \<Rightarrow>
       (case LOG path line level txt cell of (out, cell1) \<Rightarrow>
         (case log_all cs cell1 of (outs, cell2) \<Rightarrow> (out @ outs, cell2))))"

definition logged :: "log option \<Rightarrow> string" where
  "logged cell = log_to_string (fst (get_instance \<lparr>log_messages = []\<rparr> cell))"

lemma LOG_logged: "LOG path line level txt cell = (out, cell') \<Longrightarrow> logged cell' = logged cell @ out"
  by (auto simp: LOG_def logged_def get_instance_def log_add_def log_to_string_def split: option.splits)

lemma log_is_what_was_printed: "log_all cs cell = (out, cell') \<Longrightarrow> logged cell' = logged cell @ out"
  by (induction cs arbitrary: cell out cell') (auto split: prod.splits dest!: LOG_logged)

end
