(* ===== verification/Spec2Isabelle.thy ===== *)
theory Spec2Isabelle
  imports Debugger_Control Answer_Types Assembly Process_Files Log
begin

text \<open>
  AnDbg is a debugger server for Android on 64 bit ARM: a TCP server takes JSON commands from a
  client and carries them out on a traced process by \<open>ptrace\<close>, \<open>process_vm_readv\<close> and
  \<open>process_vm_writev\<close> and the files under \<open>/proc\<close>.  This development models all of the program's own code
  under \<open>src/\<close> and proves what its parts and their composition guarantee, its faults included.

  \<^bold>\<open>Parts and theories.\<close>
  \<^item> \<open>Andbg_Prelude\<close>: bytes, words, C++ exceptions as the type \<open>cxx_error\<close>, and the hash maps and sets of the
    standard library as association lists under the locale \<open>unordered_map\<close>.
  \<^item> \<open>Utils\<close>: \<open>utils.hpp\<close> and \<open>utils.cpp\<close> (byte order, hexadecimal text, alignment, string helpers) and, in
    \<open>Os_Interface\<close>, the wrappers of the system calls over the record \<open>os\<close> of what the system answers.
  \<^item> \<open>Json_Status\<close>, \<open>Json_Objects\<close>: the JSON documents of the library and \<open>Base::Status\<close> of \<open>status.hpp\<close>.
  \<^item> \<open>Kernel_Contract\<close>: the kernel as an abstract state (address spaces, registers, which threads are
    stopped) and the laws of the calls over it.
  \<^item> \<open>File_System\<close>, \<open>Process_Files\<close>, \<open>Process_Helper\<close>: \<open>file.cpp\<close> and the readers of \<open>/proc\<close> and of \<open>ps\<close> in \<open>process.cpp\<close>.
  \<^item> \<open>Memory_Control\<close>, \<open>Register_Names\<close>, \<open>Register_Control\<close>: \<open>memory_control.cpp\<close> and \<open>register_control.cpp\<close>.
  \<^item> \<open>Breakpoint_Manager\<close>, \<open>Breakpoint_Effects\<close>: \<open>breakpoint_manager.cpp\<close>, first its tables, then what it
    does to the tracee.
  \<^item> \<open>Debugger_Core\<close>, \<open>Debugger_Stepping\<close>, \<open>Debugger_Registers\<close>, \<open>Debugger_Launch\<close>: \<open>debugger_core.cpp\<close>;
    \<open>Debugger_Control\<close>, \<open>Control_Calls\<close>, \<open>Debugger_Memory\<close>, \<open>Launch_Effects\<close>: what its operations do to the threads and
    the memory of the tracee.
  \<^item> \<open>Rpc_Server\<close>: \<open>rpc_server.cpp\<close>; \<open>Command_Handlers\<close>, \<open>Command_Answers\<close>: \<open>main.cpp\<close>.
  \<^item> \<open>Session_Memory\<close>, \<open>Session_Breakpoints\<close>, \<open>Answer_Types\<close>: sessions of commands against the tracee's memory, the table of
    breakpoints over a session, and the types of the answers.
  \<^item> \<open>Assembly\<close>, \<open>Log\<close>: \<open>assembly.cpp\<close>, \<open>log.cpp\<close>, \<open>log.hpp\<close> and \<open>singleton_base.hpp\<close>, which the debugger's results do
    not depend on.

  \<^bold>\<open>How the code is read.\<close>  A class is a record with the members' names, an operation a function of the
  members and of the world \<open>'w\<close> that returns both changed.  Out-parameters are results.  An exception of
  the standard library, or undefined behaviour, is an \<open>Inl\<close>.  Machine integers are words; \<open>int\<close> and
  \<open>pid_t\<close> are \<open>int\<close> with their bounds written out where they matter.  A handler of a command is a closure over
  the one debugger, so that its world is a pair.  Operations whose name two classes use have the prefix
  \<open>core_\<close> in \<open>Debugger_Core\<close> and \<open>handle_\<close> in \<open>Command_Handlers\<close>.

  \<^bold>\<open>What is outside.\<close>  The system is the record \<open>os\<close>, the sockets are the record \<open>net\<close>, the JSON parser, the
  allocator and the signedness of \<open>char\<close> the record \<open>platform\<close>, the capstone library an argument.  Nothing is assumed of
  them but where a theorem names a contract: \<open>memory_contract\<close>, \<open>regset_contract\<close>, \<open>attach_contract\<close> and
  \<open>states_contract\<close> of the kernel, \<open>file_contract\<close> of the files, \<open>run_contract\<close> and \<open>tracee_contract\<close> of threads that run,
  \<open>control_contract\<close> and \<open>states_exact\<close> of continuing, detaching and the state files,
  \<open>space_contract\<close> of writing to processes that have ended, \<open>time_contract\<close> of the clock and \<open>channel_contract\<close> of a connection.  Each contract is met by a simulated system (\<open>sim_os\<close>,
  \<open>tree_os\<close>, \<open>live_os\<close>, \<open>control_os\<close>, \<open>clock_os\<close>, \<open>launch_os\<close>, \<open>sim_net\<close>), on which the witnesses of the theorems run.

  \<^bold>\<open>What is shown.\<close>
  \<^item> The whole program: whatever requests come in whatever order, the debugger stays consistent
    (\<open>session_reachable\<close>, by the locale \<open>service\<close> also for \<open>main\<close>), the answers about threads and breakpoints
    agree, every answer has the type of its command, and a request without floating point numbers is always
    answered, but for three commands.  What a client reads of the tracee's code is the program's own, and a breakpoint
    leaves the table only by \<open>remove_breakpoint\<close>.
  \<^item> The debugger: an invariant of its members over the state machine \<open>core_step\<close>; over every run of
    commands (\<open>debugged\<close>) the tracee's code is kept but for the enabled breakpoints; attaching, resuming, detaching, stepping
    over as a refinement of running the next instruction, termination of \<open>launch\<close> and what it attaches to, and
    registers written and read by names.
  \<^item> Breakpoints: the invariant of the manager, and the refinement between its table and the tracee's memory:
    memory is the program's own but for the enabled software breakpoints.
  \<^item> Memory, registers, names, hexadecimal text, frames and messages: functional behaviour and round trips.
  \<^item> The server: one answer per request, and the life cycle of \<open>start\<close> and \<open>stop\<close>.
  \<^item> Faults: a failed memory read is answered as a success; the fall-back of \<open>write_memory\<close> stores the
    address of a local variable, so that a software breakpoint on a code page corrupts it; the look-up of a breakpoint by its
    address is inverted; hardware breakpoints are never set through the debugger; the breakpoints of a process that has
    ended block their addresses in the next; and eight bytes of a client end the server.

  \<^bold>\<open>Loops.\<close>  Loops over lists are recursive functions, loops over an index are functions with a measure.  The three
  loops that may not end (\<open>handle_client\<close>, \<open>server_loop\<close>, \<open>launch_loop\<close>) are partial functions whose value
  \<open>None\<close> is not returning; no fuel is used anywhere.

  \<^bold>\<open>Not modelled.\<close>  The text that the fmt library makes of a message (a parameter where text matters; in the model a
  status keeps a gloss of the literal), the calls of the logging macros, and opening, closing and freeing what belongs
  to capstone.  \<open>std::sort\<close> may give elements with equal keys in any order; the model keeps theirs.  Signals to the
  server itself (\<open>SIGPIPE\<close>) and the buffer of \<open>readdir\<close> are not in the model.  A
  thread's registers and memory between two calls are the kernel's business: the contracts say what is relied on.
\<close>

end
